theory Spec2Isabelle
  imports Main
begin

section \<open>Local paths and the mapping to repository paths\<close>

text \<open>
  A \<open>pathlib.Path\<close> is modelled by its \<open>parts\<close> tuple: the list of its segments, the
  first one being the anchor \<open>/\<close> when the path is absolute. Exceptions are values of
  the type \<open>exn\<close>; a computation that may raise returns \<open>exn + 'a\<close>.
\<close>

datatype exn =
    ValueError | KeyError string | TypeError | AttributeError
  | JSONDecodeError | ConnectionError string | OSError string

type_synonym path = "string list"

definition is_absolute :: "path \<Rightarrow> bool" where
  "is_absolute p = (case p of [] \<Rightarrow> False | a # _ \<Rightarrow> a = ''/'')"

text \<open>A name is a segment other than the anchor: not empty and without separator.\<close>

definition wf_name :: "string \<Rightarrow> bool" where
  "wf_name s = (s \<noteq> [] \<and> CHR ''/'' \<notin> set s)"

definition wf_path :: "path \<Rightarrow> bool" where
  "wf_path p = (case p of [] \<Rightarrow> True
                | a # rest \<Rightarrow> (a = ''/'' \<or> wf_name a) \<and> list_all wf_name rest)"

text \<open>\<open>file_path.relative_to(local_base)\<close>: raises \<open>ValueError\<close> unless the base is a
  prefix of the path (an absolute path is not relative to the empty path).\<close>

definition relative_to :: "path \<Rightarrow> path \<Rightarrow> exn + path" where
  "relative_to file_path local_base =
     (if local_base = [] then (if is_absolute file_path then Inl ValueError else Inr file_path)
      else if take (length local_base) file_path = local_base
           then Inr (drop (length local_base) file_path)
           else Inl ValueError)"

text \<open>\<open>s.strip("/")\<close>, \<open>"/".join(xs)\<close> and \<open>s.split("/")\<close>.\<close>

definition strip_slash :: "string \<Rightarrow> string" where
  "strip_slash s =
     rev (dropWhile (\<lambda>c. c = CHR ''/'') (rev (dropWhile (\<lambda>c. c = CHR ''/'') s)))"

fun join_slash :: "string list \<Rightarrow> string" where
  "join_slash [] = []"
| "join_slash [x] = x"
| "join_slash (x # y # ys) = x @ ''/'' @ join_slash (y # ys)"

fun split_slash :: "string \<Rightarrow> string list" where
  "split_slash [] = [[]]"
| "split_slash (c # cs) =
     (if c = CHR ''/'' then [] # split_slash cs
      else (case split_slash cs of [] \<Rightarrow> [[c]] | s # ss \<Rightarrow> (c # s) # ss))"

text \<open>
  \<^verbatim>\<open>
  def path_to_repo_path(local_base, file_path, repo_base=""):
      rel = file_path.relative_to(local_base)
      parts = [p for p in rel.parts if p not in (".", "..")]
      if repo_base:
          return "/".join([repo_base.strip("/")] + parts)
      return "/".join(parts)
  \<close>
\<close>

definition path_to_repo_path :: "path \<Rightarrow> path \<Rightarrow> string \<Rightarrow> exn + string" where
  "path_to_repo_path local_base file_path repo_base =
     (case relative_to file_path local_base of
        Inl e \<Rightarrow> Inl e
      | Inr rel \<Rightarrow>
          (let parts = filter (\<lambda>p. p \<noteq> ''.'' \<and> p \<noteq> ''..'') rel
           in if repo_base \<noteq> [] then Inr (join_slash ([strip_slash repo_base] @ parts))
              else Inr (join_slash parts)))"

text \<open>The properties of a repository path that the mapping is meant to establish.\<close>

definition has_dot_segment :: "string \<Rightarrow> bool" where
  "has_dot_segment s = (''.'' \<in> set (split_slash s) \<or> ''..'' \<in> set (split_slash s))"

definition leading_slash :: "string \<Rightarrow> bool" where
  "leading_slash s = (case s of [] \<Rightarrow> False | c # _ \<Rightarrow> c = CHR ''/'')"

section \<open>The local tree scanner\<close>

text \<open>
  The local filesystem is a tree of nodes: regular files, directories with their entries
  in the order the operating system lists them, and anything else (sockets, dangling
  links). A filesystem maps a path to the node found there, if any.
\<close>

datatype node = File | Dir "(string \<times> node) list" | Other

type_synonym filesystem = "path \<Rightarrow> node option"

text \<open>
  \<open>folder.rglob("*")\<close> yields every entry below the folder, directories included, and
  never the folder itself: the entries of a directory, then the same for each of its
  subdirectories.
\<close>

fun rglob :: "path \<Rightarrow> node \<Rightarrow> (path \<times> node) list" where
  "rglob p (Dir es) =
     map (\<lambda>e. (p @ [fst e], snd e)) es @ concat (map (\<lambda>e. rglob (p @ [fst e]) (snd e)) es)"
| "rglob p File = []"
| "rglob p Other = []"

text \<open>
  \<^verbatim>\<open>
  def gather_files_for_folder(folder, skip_patterns=None):
      skip_patterns = skip_patterns or []
      files = []
      for p in folder.rglob("*"):
          if p.is_file() and not any(part in p.parts for part in skip_patterns):
              files.append(p)
      return files
  \<close>
\<close>

definition gather_files_for_folder :: "filesystem \<Rightarrow> path \<Rightarrow> string list option \<Rightarrow> path list" where
  "gather_files_for_folder fs folder skip_patterns =
     (let skip = (case skip_patterns of None \<Rightarrow> [] | Some s \<Rightarrow> s);
          found = (case fs folder of None \<Rightarrow> [] | Some nd \<Rightarrow> rglob folder nd)
      in map fst (filter (\<lambda>pn. snd pn = File \<and> \<not> list_ex (\<lambda>part. part \<in> set (fst pn)) skip) found))"

text \<open>The nodes a directory tree holds at a relative path (entry names need not be unique
  in the model, so there may be several).\<close>

fun nodes_at :: "node \<Rightarrow> string list \<Rightarrow> node list" where
  "nodes_at nd [] = [nd]"
| "nodes_at (Dir es) (n # rest) =
     concat (map (\<lambda>e. if fst e = n then nodes_at (snd e) rest else []) es)"
| "nodes_at File (n # rest) = []"
| "nodes_at Other (n # rest) = []"

definition file_under :: "node \<Rightarrow> string list \<Rightarrow> bool" where
  "file_under root rel = (rel \<noteq> [] \<and> File \<in> set (nodes_at root rel))"

definition dir_under :: "node \<Rightarrow> string list \<Rightarrow> bool" where
  "dir_under root rel = (rel \<noteq> [] \<and> (\<exists>es. Dir es \<in> set (nodes_at root rel)))"

text \<open>A small tree used to exercise the scanner.\<close>

definition demo_tree :: node where
  "demo_tree = Dir [(''a.txt'', File), (''.git'', Dir [(''config'', File)]),
                    (''sub'', Dir [(''b.txt'', File), (''empty'', Dir [])])]"

definition demo_fs :: filesystem where
  "demo_fs p = (if p = [''proj''] then Some demo_tree
                else if p = [''empty''] then Some (Dir [(''nested'', Dir [])])
                else None)"

section \<open>Python values and HTTP exchanges\<close>

text \<open>
  The values the program takes out of API responses are decoded JSON: \<open>None\<close>, booleans,
  numbers, strings, lists and dictionaries. A dictionary is an association list.
\<close>

datatype json =
    JNull | JBool bool | JNum int | JStr string
  | JList "json list" | JDict "(string \<times> json) list"

text \<open>Truth value of a Python object, as \<open>if x:\<close> tests it.\<close>

fun truthy :: "json \<Rightarrow> bool" where
  "truthy JNull = False"
| "truthy (JBool b) = b"
| "truthy (JNum n) = (n \<noteq> 0)"
| "truthy (JStr s) = (s \<noteq> [])"
| "truthy (JList l) = (l \<noteq> [])"
| "truthy (JDict d) = (d \<noteq> [])"

fun is_dict :: "json \<Rightarrow> bool" where
  "is_dict (JDict d) = True"
| "is_dict _ = False"

text \<open>\<open>x.get(k)\<close>: the value or \<open>None\<close> on a dictionary, \<open>AttributeError\<close> on anything
  else.\<close>

fun py_get :: "json \<Rightarrow> string \<Rightarrow> exn + json" where
  "py_get (JDict d) k = Inr (case map_of d k of None \<Rightarrow> JNull | Some v \<Rightarrow> v)"
| "py_get _ k = Inl AttributeError"

text \<open>\<open>x[k]\<close> with a string key: \<open>KeyError\<close> on a dictionary without the key,
  \<open>TypeError\<close> on anything else.\<close>

fun py_index :: "json \<Rightarrow> string \<Rightarrow> exn + json" where
  "py_index (JDict d) k = (case map_of d k of None \<Rightarrow> Inl (KeyError k) | Some v \<Rightarrow> Inr v)"
| "py_index _ k = Inl TypeError"

text \<open>Decimal rendering of a status code.\<close>

function str_nat :: "nat \<Rightarrow> string" where
  "str_nat n =
     (if n < 10 then [char_of (48 + n)] else str_nat (n div 10) @ [char_of (48 + n mod 10)])"
  by pat_completeness auto
termination
  by (relation "measure id") auto

record request =
  http_method :: string
  url :: string
  headers :: "(string \<times> string) list"
  body :: "json option"

text \<open>A response: its status code, its raw body, and what \<open>r.json()\<close> makes of the body
  (\<open>None\<close> when the body is not JSON, in which case \<open>r.json()\<close> raises).\<close>

record response =
  status_code :: nat
  content :: string
  decoded :: "json option"

definition resp_json :: "response \<Rightarrow> exn + json" where
  "resp_json r = (case decoded r of None \<Rightarrow> Inl JSONDecodeError | Some j \<Rightarrow> Inr j)"

text \<open>
  The world outside the program: the state of the remote service, and the requests sent
  so far, in order. The environment gives what the program calls but does not define:
  \<open>requests.request\<close> (which answers or raises, and may change the remote),
  the local filesystem, \<open>Path.read_bytes\<close>, base64 encoding, and \<open>str()\<close> of values
  that are not strings.
\<close>

record 'r world =
  remote :: 'r
  sent :: "request list"

record 'r env =
  transport :: "'r \<Rightarrow> request \<Rightarrow> (exn + response) \<times> 'r"
  local_fs :: filesystem
  read_bytes :: "path \<Rightarrow> exn + string"
  b64encode :: "string \<Rightarrow> string"
  py_repr :: "json \<Rightarrow> string"

text \<open>A value inside an f-string.\<close>

definition py_str :: "'r env \<Rightarrow> json \<Rightarrow> string" where
  "py_str env j = (case j of JStr s \<Rightarrow> s | JNull \<Rightarrow> ''None'' | _ \<Rightarrow> py_repr env j)"

section \<open>The remote content client\<close>

definition GITHUB_API :: string where
  "GITHUB_API = ''https://api.github.com''"

text \<open>\<open>headers.setdefault(k, v)\<close> on an association list.\<close>

definition setdefault :: "(string \<times> string) list \<Rightarrow> string \<Rightarrow> string \<Rightarrow> (string \<times> string) list" where
  "setdefault hs k v = (case map_of hs k of None \<Rightarrow> hs @ [(k, v)] | Some _ \<Rightarrow> hs)"

text \<open>
  \<^verbatim>\<open>
  def api_request(method, endpoint, token, **kwargs):
      url = GITHUB_API + endpoint
      headers = kwargs.pop("headers", {})
      if token:
          headers.setdefault("Authorization", f"token {token}")
      headers.setdefault("Accept", "application/vnd.github.v3+json")
      r = requests.request(method, url, headers=headers, **kwargs)
      return r
  \<close>
  No caller passes \<open>headers\<close>; the only other keyword is \<open>json\<close>, the payload.
\<close>

definition mk_request :: "string \<Rightarrow> string \<Rightarrow> string \<Rightarrow> json option \<Rightarrow> request" where
  "mk_request meth endpoint token payload =
     (let hs = (if token \<noteq> [] then setdefault [] ''Authorization'' (''token '' @ token) else []);
          hs' = setdefault hs ''Accept'' ''application/vnd.github.v3+json''
      in \<lparr>http_method = meth, url = GITHUB_API @ endpoint, headers = hs', body = payload\<rparr>)"

definition api_request ::
  "'r env \<Rightarrow> string \<Rightarrow> string \<Rightarrow> string \<Rightarrow> json option \<Rightarrow> 'r world \<Rightarrow> (exn + response) \<times> 'r world" where
  "api_request env meth endpoint token payload w =
     (let req = mk_request meth endpoint token payload;
          (r, s') = transport env (remote w) req
      in (r, \<lparr>remote = s', sent = sent w @ [req]\<rparr>))"

text \<open>\<open>r.json() if r.content else {"status": r.status_code}\<close>\<close>

definition json_or_status :: "response \<Rightarrow> exn + json" where
  "json_or_status r =
     (if content r \<noteq> [] then resp_json r else Inr (JDict [(''status'', JNum (int (status_code r)))]))"

text \<open>
  \<^verbatim>\<open>
  def get_repo_contents(token, owner, repo, path="", branch="main"):
      endpoint = f"/repos/{owner}/{repo}/contents/{path}" if path else f"/repos/{owner}/{repo}/contents"
      r = api_request("GET", endpoint + f"?ref={branch}", token)
      if r.status_code == 200:
          return True, r.json()
      try:
          return False, r.json()
      except Exception:
          return False, {"message": f"HTTP {r.status_code}"}
  \<close>
  The path is a Python value: the recursive walkers pass what an entry's \<open>get("path")\<close>
  returned.
\<close>

definition contents_endpoint :: "'r env \<Rightarrow> string \<Rightarrow> string \<Rightarrow> json \<Rightarrow> string" where
  "contents_endpoint env owner repo pth =
     (if truthy pth then ''/repos/'' @ owner @ ''/'' @ repo @ ''/contents/'' @ py_str env pth
      else ''/repos/'' @ owner @ ''/'' @ repo @ ''/contents'')"

definition http_message :: "response \<Rightarrow> json" where
  "http_message r = JDict [(''message'', JStr (''HTTP '' @ str_nat (status_code r)))]"

definition get_repo_contents ::
  "'r env \<Rightarrow> string \<Rightarrow> string \<Rightarrow> string \<Rightarrow> json \<Rightarrow> string \<Rightarrow> 'r world
     \<Rightarrow> (exn + bool \<times> json) \<times> 'r world" where
  "get_repo_contents env token owner repo pth branch w =
     (case api_request env ''GET'' (contents_endpoint env owner repo pth @ ''?ref='' @ branch) token None w of
        (Inl e, w') \<Rightarrow> (Inl e, w')
      | (Inr r, w') \<Rightarrow>
          if status_code r = 200
          then (case resp_json r of Inl e \<Rightarrow> (Inl e, w') | Inr j \<Rightarrow> (Inr (True, j), w'))
          else (case resp_json r of
                  Inl e \<Rightarrow> (Inr (False, http_message r), w')
                | Inr j \<Rightarrow> (Inr (False, j), w')))"

text \<open>
  \<^verbatim>\<open>
  def get_file_sha(token, owner, repo, path, branch="main"):
      ok, data = get_repo_contents(token, owner, repo, path, branch)
      if ok and isinstance(data, dict):
          return data.get("sha")
      return None
  \<close>
\<close>

definition get_file_sha ::
  "'r env \<Rightarrow> string \<Rightarrow> string \<Rightarrow> string \<Rightarrow> json \<Rightarrow> string \<Rightarrow> 'r world \<Rightarrow> (exn + json) \<times> 'r world" where
  "get_file_sha env token owner repo pth branch w =
     (case get_repo_contents env token owner repo pth branch w of
        (Inl e, w') \<Rightarrow> (Inl e, w')
      | (Inr (ok, data), w') \<Rightarrow>
          if ok \<and> is_dict data then (py_get data ''sha'', w') else (Inr JNull, w'))"

text \<open>
  \<^verbatim>\<open>
  def create_or_update_file(token, owner, repo, path, content_b64, message, branch="main", sha=None):
      endpoint = f"/repos/{owner}/{repo}/contents/{path}"
      payload = {"message": message, "content": content_b64, "branch": branch}
      if sha:
          payload["sha"] = sha
      r = api_request("PUT", endpoint, token, json=payload)
      return (r.status_code in (200, 201)), (r.json() if r.content else {"status": r.status_code})
  \<close>
\<close>

definition with_sha :: "(string \<times> json) list \<Rightarrow> json \<Rightarrow> (string \<times> json) list" where
  "with_sha payload sha = (if truthy sha then payload @ [(''sha'', sha)] else payload)"

definition create_or_update_file ::
  "'r env \<Rightarrow> string \<Rightarrow> string \<Rightarrow> string \<Rightarrow> string \<Rightarrow> string \<Rightarrow> string \<Rightarrow> string \<Rightarrow> json
     \<Rightarrow> 'r world \<Rightarrow> (exn + bool \<times> json) \<times> 'r world" where
  "create_or_update_file env token owner repo pth content_b64 message branch sha w =
     (let endpoint = ''/repos/'' @ owner @ ''/'' @ repo @ ''/contents/'' @ pth;
          payload = with_sha [(''message'', JStr message), (''content'', JStr content_b64),
                              (''branch'', JStr branch)] sha
      in case api_request env ''PUT'' endpoint token (Some (JDict payload)) w of
           (Inl e, w') \<Rightarrow> (Inl e, w')
         | (Inr r, w') \<Rightarrow>
             (case json_or_status r of
                Inl e \<Rightarrow> (Inl e, w')
              | Inr j \<Rightarrow> (Inr (status_code r = 200 \<or> status_code r = 201, j), w')))"

text \<open>
  \<^verbatim>\<open>
  def delete_file(token, owner, repo, path, message, branch="main", sha=None):
      endpoint = f"/repos/{owner}/{repo}/contents/{path}"
      payload = {"message": message, "branch": branch}
      if sha:
          payload["sha"] = sha
      r = api_request("DELETE", endpoint, token, json=payload)
      return (r.status_code == 200), (r.json() if r.content else {"status": r.status_code})
  \<close>
\<close>

definition delete_file ::
  "'r env \<Rightarrow> string \<Rightarrow> string \<Rightarrow> string \<Rightarrow> json \<Rightarrow> string \<Rightarrow> string \<Rightarrow> json
     \<Rightarrow> 'r world \<Rightarrow> (exn + bool \<times> json) \<times> 'r world" where
  "delete_file env token owner repo pth message branch sha w =
     (let endpoint = ''/repos/'' @ owner @ ''/'' @ repo @ ''/contents/'' @ py_str env pth;
          payload = with_sha [(''message'', JStr message), (''branch'', JStr branch)] sha
      in case api_request env ''DELETE'' endpoint token (Some (JDict payload)) w of
           (Inl e, w') \<Rightarrow> (Inl e, w')
         | (Inr r, w') \<Rightarrow>
             (case json_or_status r of
                Inl e \<Rightarrow> (Inl e, w')
              | Inr j \<Rightarrow> (Inr (status_code r = 200, j), w')))"

text \<open>
  \<^verbatim>\<open>
  def get_ref(token, owner, repo, branch):
      r = api_request("GET", f"/repos/{owner}/{repo}/git/ref/heads/{branch}", token)
      if r.status_code == 200:
          return True, r.json()
      try:
          return False, r.json()
      except Exception:
          return False, {"message": f"HTTP {r.status_code}"}
  \<close>
\<close>

definition get_ref ::
  "'r env \<Rightarrow> string \<Rightarrow> string \<Rightarrow> string \<Rightarrow> string \<Rightarrow> 'r world \<Rightarrow> (exn + bool \<times> json) \<times> 'r world" where
  "get_ref env token owner repo branch w =
     (case api_request env ''GET'' (''/repos/'' @ owner @ ''/'' @ repo @ ''/git/ref/heads/'' @ branch) token None w of
        (Inl e, w') \<Rightarrow> (Inl e, w')
      | (Inr r, w') \<Rightarrow>
          if status_code r = 200
          then (case resp_json r of Inl e \<Rightarrow> (Inl e, w') | Inr j \<Rightarrow> (Inr (True, j), w'))
          else (case resp_json r of
                  Inl e \<Rightarrow> (Inr (False, http_message r), w')
                | Inr j \<Rightarrow> (Inr (False, j), w')))"

text \<open>
  The four object-level calls share one shape: send the payload, succeed on exactly one
  status code with \<open>r.json()\<close>, and otherwise return
  \<open>r.json() if r.content else {"status": r.status_code}\<close>.
  \<^verbatim>\<open>
      r = api_request(METHOD, ENDPOINT, token, json=payload)
      if r.status_code in (CODE,):
          return True, r.json()
      return False, (r.json() if r.content else {"status": r.status_code})
  \<close>
\<close>

definition send_expect ::
  "'r env \<Rightarrow> string \<Rightarrow> string \<Rightarrow> string \<Rightarrow> json \<Rightarrow> nat \<Rightarrow> 'r world \<Rightarrow> (exn + bool \<times> json) \<times> 'r world" where
  "send_expect env meth endpoint token payload code w =
     (case api_request env meth endpoint token (Some payload) w of
        (Inl e, w') \<Rightarrow> (Inl e, w')
      | (Inr r, w') \<Rightarrow>
          if status_code r = code
          then (case resp_json r of Inl e \<Rightarrow> (Inl e, w') | Inr j \<Rightarrow> (Inr (True, j), w'))
          else (case json_or_status r of Inl e \<Rightarrow> (Inl e, w') | Inr j \<Rightarrow> (Inr (False, j), w')))"

text \<open>
  \<^verbatim>\<open>
  def create_blob(token, owner, repo, content_b64, encoding="base64"):
      r = api_request("POST", f"/repos/{owner}/{repo}/git/blobs", token,
                      json={"content": content_b64, "encoding": encoding})
      if r.status_code in (201,): ...
  \<close>
\<close>

definition blob_payload :: "string \<Rightarrow> string \<Rightarrow> json" where
  "blob_payload content_b64 encoding = JDict [(''content'', JStr content_b64), (''encoding'', JStr encoding)]"

definition create_blob ::
  "'r env \<Rightarrow> string \<Rightarrow> string \<Rightarrow> string \<Rightarrow> string \<Rightarrow> string \<Rightarrow> 'r world \<Rightarrow> (exn + bool \<times> json) \<times> 'r world" where
  "create_blob env token owner repo content_b64 encoding w =
     send_expect env ''POST'' (''/repos/'' @ owner @ ''/'' @ repo @ ''/git/blobs'') token
       (blob_payload content_b64 encoding) 201 w"

text \<open>
  \<^verbatim>\<open>
  def create_tree(token, owner, repo, tree, base_tree=None):
      payload = {"tree": tree}
      if base_tree:
          payload["base_tree"] = base_tree
      r = api_request("POST", f"/repos/{owner}/{repo}/git/trees", token, json=payload)
      if r.status_code in (201,): ...
  \<close>
\<close>

definition tree_payload :: "json list \<Rightarrow> json \<Rightarrow> json" where
  "tree_payload tree base_tree =
     JDict (if truthy base_tree then [(''tree'', JList tree), (''base_tree'', base_tree)]
            else [(''tree'', JList tree)])"

definition create_tree ::
  "'r env \<Rightarrow> string \<Rightarrow> string \<Rightarrow> string \<Rightarrow> json list \<Rightarrow> json \<Rightarrow> 'r world \<Rightarrow> (exn + bool \<times> json) \<times> 'r world" where
  "create_tree env token owner repo tree base_tree w =
     send_expect env ''POST'' (''/repos/'' @ owner @ ''/'' @ repo @ ''/git/trees'') token
       (tree_payload tree base_tree) 201 w"

text \<open>
  \<^verbatim>\<open>
  def create_commit(token, owner, repo, message, tree_sha, parents):
      payload = {"message": message, "tree": tree_sha, "parents": parents}
      r = api_request("POST", f"/repos/{owner}/{repo}/git/commits", token, json=payload)
      if r.status_code in (201,): ...
  \<close>
\<close>

definition commit_payload :: "string \<Rightarrow> json \<Rightarrow> json list \<Rightarrow> json" where
  "commit_payload message tree_sha parents =
     JDict [(''message'', JStr message), (''tree'', tree_sha), (''parents'', JList parents)]"

definition create_commit ::
  "'r env \<Rightarrow> string \<Rightarrow> string \<Rightarrow> string \<Rightarrow> string \<Rightarrow> json \<Rightarrow> json list \<Rightarrow> 'r world
     \<Rightarrow> (exn + bool \<times> json) \<times> 'r world" where
  "create_commit env token owner repo message tree_sha parents w =
     send_expect env ''POST'' (''/repos/'' @ owner @ ''/'' @ repo @ ''/git/commits'') token
       (commit_payload message tree_sha parents) 201 w"

text \<open>
  \<^verbatim>\<open>
  def update_ref(token, owner, repo, branch, commit_sha, force=False):
      payload = {"sha": commit_sha, "force": force}
      r = api_request("PATCH", f"/repos/{owner}/{repo}/git/refs/heads/{branch}", token, json=payload)
      if r.status_code in (200,): ...
  \<close>
\<close>

definition ref_payload :: "json \<Rightarrow> bool \<Rightarrow> json" where
  "ref_payload commit_sha force = JDict [(''sha'', commit_sha), (''force'', JBool force)]"

definition update_ref ::
  "'r env \<Rightarrow> string \<Rightarrow> string \<Rightarrow> string \<Rightarrow> string \<Rightarrow> json \<Rightarrow> bool \<Rightarrow> 'r world
     \<Rightarrow> (exn + bool \<times> json) \<times> 'r world" where
  "update_ref env token owner repo branch commit_sha force w =
     send_expect env ''PATCH'' (''/repos/'' @ owner @ ''/'' @ repo @ ''/git/refs/heads/'' @ branch) token
       (ref_payload commit_sha force) 200 w"

text \<open>\<open>file_to_base64(path)\<close>: \<open>base64.b64encode(path.read_bytes()).decode("utf-8")\<close>\<close>

definition file_to_base64 :: "'r env \<Rightarrow> path \<Rightarrow> exn + string" where
  "file_to_base64 env p = (case read_bytes env p of Inl e \<Rightarrow> Inl e | Inr bs \<Rightarrow> Inr (b64encode env bs))"

section \<open>Configuration\<close>

text \<open>The configuration dictionary, with the keys \<open>ensure_config\<close> guarantees.\<close>

record cfg =
  cfg_token :: string
  cfg_owner :: string
  cfg_repo :: string
  cfg_branch :: string
  cfg_pages_branch :: string
  cfg_auto_commit_message :: string
  cfg_sync_ignore :: "string list"

section \<open>Folder upload\<close>

text \<open>
  What \<open>op_upload_folder\<close> reports on the console before it returns; one constructor for
  each message that ends a run. A failure of one file is either the response of a call
  that was refused or the exception that was caught.
\<close>

datatype failure = Refused json | Raised exn

datatype upload_outcome =
    FolderNotFound
  | NoFiles
  | PerFileDone nat "(path \<times> json) list"
  | BlobsFailed "(path \<times> failure) list"
  | RefFailed json
  | CommitLookupFailed nat string
  | TreeFailed json
  | CommitFailed json
  | RefUpdateFailed json
  | BatchDone json

text \<open>
  Mode 1, the body of the loop over the files:
  \<^verbatim>\<open>
            for f in files:
                repo_path = path_to_repo_path(local_folder, f, repo_base=target_repo_base)
                sha = get_file_sha(token, owner, repo, repo_path, branch)
                content_b64 = file_to_base64(f)
                ok, resp = create_or_update_file(token, owner, repo, repo_path, content_b64, message, branch, sha)
                if ok:
                    successes += 1
                else:
                    failures.append((str(f), resp))
  \<close>
  Nothing catches an exception here, so the first one ends the loop and the operation.
\<close>

fun upload_each ::
  "'r env \<Rightarrow> cfg \<Rightarrow> path \<Rightarrow> string \<Rightarrow> string \<Rightarrow> path list \<Rightarrow> nat \<Rightarrow> (path \<times> json) list \<Rightarrow> 'r world
     \<Rightarrow> (exn + nat \<times> (path \<times> json) list) \<times> 'r world" where
  "upload_each env c local_folder target_repo_base message [] successes failures w =
     (Inr (successes, failures), w)"
| "upload_each env c local_folder target_repo_base message (f # files) successes failures w =
     (case path_to_repo_path local_folder f target_repo_base of
        Inl e \<Rightarrow> (Inl e, w)
      | Inr repo_path \<Rightarrow>
         (case get_file_sha env (cfg_token c) (cfg_owner c) (cfg_repo c) (JStr repo_path) (cfg_branch c) w of
            (Inl e, w1) \<Rightarrow> (Inl e, w1)
          | (Inr sha, w1) \<Rightarrow>
             (case file_to_base64 env f of
                Inl e \<Rightarrow> (Inl e, w1)
              | Inr content_b64 \<Rightarrow>
                 (case create_or_update_file env (cfg_token c) (cfg_owner c) (cfg_repo c) repo_path
                         content_b64 message (cfg_branch c) sha w1 of
                    (Inl e, w2) \<Rightarrow> (Inl e, w2)
                  | (Inr (ok, resp), w2) \<Rightarrow>
                      if ok
                      then upload_each env c local_folder target_repo_base message files
                             (successes + 1) failures w2
                      else upload_each env c local_folder target_repo_base message files
                             successes (failures @ [(f, resp)]) w2))))"

text \<open>
  Mode 2, the body of the loop that creates the blobs; every exception is caught and
  becomes a failure of that file:
  \<^verbatim>\<open>
            for f in files:
                try:
                    bytes_data = f.read_bytes()
                    b64 = base64.b64encode(bytes_data).decode("utf-8")
                    ok_blob, resp_blob = create_blob(token, owner, repo, b64, encoding="base64")
                    if not ok_blob:
                        failures.append((str(f), resp_blob))
                        prog.advance(task)
                        continue
                    blob_sha = resp_blob.get("sha")
                    repo_path = path_to_repo_path(local_folder, f, repo_base=target_repo_base)
                    tree_entries.append({"path": repo_path, "mode": "100644", "type": "blob", "sha": blob_sha})
                except Exception as e:
                    failures.append((str(f), str(e)))
                prog.advance(task)
  \<close>
\<close>

definition tree_entry :: "string \<Rightarrow> json \<Rightarrow> json" where
  "tree_entry repo_path blob_sha =
     JDict [(''path'', JStr repo_path), (''mode'', JStr ''100644''), (''type'', JStr ''blob''),
            (''sha'', blob_sha)]"

definition blob_step ::
  "'r env \<Rightarrow> cfg \<Rightarrow> path \<Rightarrow> string \<Rightarrow> path \<Rightarrow> 'r world \<Rightarrow> (failure + json) \<times> 'r world" where
  "blob_step env c local_folder target_repo_base f w =
     (case read_bytes env f of
        Inl e \<Rightarrow> (Inl (Raised e), w)
      | Inr bytes_data \<Rightarrow>
         (case create_blob env (cfg_token c) (cfg_owner c) (cfg_repo c) (b64encode env bytes_data) ''base64'' w of
            (Inl e, w') \<Rightarrow> (Inl (Raised e), w')
          | (Inr (ok_blob, resp_blob), w') \<Rightarrow>
              if \<not> ok_blob then (Inl (Refused resp_blob), w')
              else (case py_get resp_blob ''sha'' of
                      Inl e \<Rightarrow> (Inl (Raised e), w')
                    | Inr blob_sha \<Rightarrow>
                       (case path_to_repo_path local_folder f target_repo_base of
                          Inl e \<Rightarrow> (Inl (Raised e), w')
                        | Inr repo_path \<Rightarrow> (Inr (tree_entry repo_path blob_sha), w')))))"

fun create_blobs ::
  "'r env \<Rightarrow> cfg \<Rightarrow> path \<Rightarrow> string \<Rightarrow> path list \<Rightarrow> json list \<Rightarrow> (path \<times> failure) list \<Rightarrow> 'r world
     \<Rightarrow> json list \<times> (path \<times> failure) list \<times> 'r world" where
  "create_blobs env c local_folder target_repo_base [] tree_entries failures w =
     (tree_entries, failures, w)"
| "create_blobs env c local_folder target_repo_base (f # files) tree_entries failures w =
     (case blob_step env c local_folder target_repo_base f w of
        (Inl r, w') \<Rightarrow>
          create_blobs env c local_folder target_repo_base files tree_entries (failures @ [(f, r)]) w'
      | (Inr entry, w') \<Rightarrow>
          create_blobs env c local_folder target_repo_base files (tree_entries @ [entry]) failures w')"

text \<open>
  Mode 2 after the blobs, when no blob failed:
  \<^verbatim>\<open>
        ok_ref, ref_data = get_ref(token, owner, repo, branch)
        if not ok_ref: ... return
        base_commit_sha = ref_data["object"]["sha"]
        rcommit = api_request("GET", f"/repos/{owner}/{repo}/git/commits/{base_commit_sha}", token)
        if rcommit.status_code != 200: ... return
        base_tree_sha = rcommit.json()["tree"]["sha"]
        ok_tree, resp_tree = create_tree(token, owner, repo, tree_entries, base_tree=base_tree_sha)
        if not ok_tree: ... return
        new_tree_sha = resp_tree.get("sha")
        ok_commit, resp_commit = create_commit(token, owner, repo, message, new_tree_sha, parents=[base_commit_sha])
        if not ok_commit: ... return
        new_commit_sha = resp_commit.get("sha")
        ok_update, resp_update = update_ref(token, owner, repo, branch, new_commit_sha, force=False)
        if not ok_update: ... return
        console.print(f"[green]Batch upload selesai. Commit: {new_commit_sha}[/green]")
  \<close>
\<close>

definition py_index2 :: "json \<Rightarrow> string \<Rightarrow> string \<Rightarrow> exn + json" where
  "py_index2 j k1 k2 = (case py_index j k1 of Inl e \<Rightarrow> Inl e | Inr v \<Rightarrow> py_index v k2)"

definition commit_endpoint :: "'r env \<Rightarrow> cfg \<Rightarrow> json \<Rightarrow> string" where
  "commit_endpoint env c base_commit_sha =
     ''/repos/'' @ cfg_owner c @ ''/'' @ cfg_repo c @ ''/git/commits/'' @ py_str env base_commit_sha"

definition commit_batch ::
  "'r env \<Rightarrow> cfg \<Rightarrow> string \<Rightarrow> json list \<Rightarrow> 'r world \<Rightarrow> (exn + upload_outcome) \<times> 'r world" where
  "commit_batch env c message tree_entries w =
     (case get_ref env (cfg_token c) (cfg_owner c) (cfg_repo c) (cfg_branch c) w of
        (Inl e, w1) \<Rightarrow> (Inl e, w1)
      | (Inr (ok_ref, ref_data), w1) \<Rightarrow>
     if \<not> ok_ref then (Inr (RefFailed ref_data), w1) else
     (case py_index2 ref_data ''object'' ''sha'' of
        Inl e \<Rightarrow> (Inl e, w1)
      | Inr base_commit_sha \<Rightarrow>
     (case api_request env ''GET'' (commit_endpoint env c base_commit_sha) (cfg_token c) None w1 of
        (Inl e, w2) \<Rightarrow> (Inl e, w2)
      | (Inr rcommit, w2) \<Rightarrow>
     if status_code rcommit \<noteq> 200
     then (Inr (CommitLookupFailed (status_code rcommit) (content rcommit)), w2) else
     (case resp_json rcommit of
        Inl e \<Rightarrow> (Inl e, w2)
      | Inr commit_json \<Rightarrow>
     (case py_index2 commit_json ''tree'' ''sha'' of
        Inl e \<Rightarrow> (Inl e, w2)
      | Inr base_tree_sha \<Rightarrow>
     (case create_tree env (cfg_token c) (cfg_owner c) (cfg_repo c) tree_entries base_tree_sha w2 of
        (Inl e, w3) \<Rightarrow> (Inl e, w3)
      | (Inr (ok_tree, resp_tree), w3) \<Rightarrow>
     if \<not> ok_tree then (Inr (TreeFailed resp_tree), w3) else
     (case py_get resp_tree ''sha'' of
        Inl e \<Rightarrow> (Inl e, w3)
      | Inr new_tree_sha \<Rightarrow>
     (case create_commit env (cfg_token c) (cfg_owner c) (cfg_repo c) message new_tree_sha
             [base_commit_sha] w3 of
        (Inl e, w4) \<Rightarrow> (Inl e, w4)
      | (Inr (ok_commit, resp_commit), w4) \<Rightarrow>
     if \<not> ok_commit then (Inr (CommitFailed resp_commit), w4) else
     (case py_get resp_commit ''sha'' of
        Inl e \<Rightarrow> (Inl e, w4)
      | Inr new_commit_sha \<Rightarrow>
     (case update_ref env (cfg_token c) (cfg_owner c) (cfg_repo c) (cfg_branch c) new_commit_sha False w4 of
        (Inl e, w5) \<Rightarrow> (Inl e, w5)
      | (Inr (ok_update, resp_update), w5) \<Rightarrow>
     if \<not> ok_update then (Inr (RefUpdateFailed resp_update), w5)
     else (Inr (BatchDone new_commit_sha), w5)))))))))))"

text \<open>
  \<open>op_upload_folder\<close>, with the answers to its prompts as arguments: the local folder,
  the mode (\<open>"1"\<close> per file, \<open>"2"\<close> single commit; the prompt admits nothing else), the
  target folder in the repository and the commit message.
  \<^verbatim>\<open>
    if not local_folder.exists() or not local_folder.is_dir():
        console.print("[red]Folder tidak ditemukan.[/red]")
        return
    ...
    files = gather_files_for_folder(local_folder)
    if not files:
        console.print("[yellow]Tidak ada file didalam folder.[/yellow]")
        return
    ...
    if mode == "1":
        (loop of mode 1)
    else:
        (loop creating the blobs)
        if failures:
            console.print(f"[red]Beberapa blob gagal dibuat: {len(failures)}. Batal commit batch.[/red]")
            for p, r in failures:
                console.print(f"- {p}: {r}")
            return
        (the rest of mode 2)
  \<close>
\<close>

definition is_dir :: "filesystem \<Rightarrow> path \<Rightarrow> bool" where
  "is_dir fs p = (case fs p of Some (Dir es) \<Rightarrow> True | _ \<Rightarrow> False)"

definition op_upload_folder ::
  "'r env \<Rightarrow> cfg \<Rightarrow> path \<Rightarrow> string \<Rightarrow> string \<Rightarrow> string \<Rightarrow> 'r world
     \<Rightarrow> (exn + upload_outcome) \<times> 'r world" where
  "op_upload_folder env c local_folder mode target_repo_base message w =
     (if \<not> is_dir (local_fs env) local_folder then (Inr FolderNotFound, w)
      else let files = gather_files_for_folder (local_fs env) local_folder None
      in if files = [] then (Inr NoFiles, w)
      else if mode = ''1''
      then (case upload_each env c local_folder target_repo_base message files 0 [] w of
              (Inl e, w') \<Rightarrow> (Inl e, w')
            | (Inr (successes, failures), w') \<Rightarrow> (Inr (PerFileDone successes failures), w'))
      else (case create_blobs env c local_folder target_repo_base files [] [] w of
              (tree_entries, failures, w') \<Rightarrow>
                if failures \<noteq> [] then (Inr (BlobsFailed failures), w')
                else commit_batch env c message tree_entries w'))"

section \<open>Single file upload\<close>

text \<open>
  \<open>op_upload_file\<close>, with the answers to its prompts as arguments: the local path, the
  target path in the repository, the answer to the overwrite question (asked only when
  the lookup returned a token) and the commit message.
  \<^verbatim>\<open>
    if not local_path.exists() or not local_path.is_file():
        console.print("[red]File tidak ditemukan.[/red]")
        return
    repo_path = Prompt.ask(..., default=repo_path_default)
    sha = get_file_sha(token, owner, repo, repo_path, branch)
    if sha:
        console.print(f"[yellow]File sudah ada di repo (sha: {sha}).[/yellow]")
        if not Confirm.ask("Overwrite file ini?"):
            console.print("[cyan]Batal overwrite.[/cyan]")
            return
    content_b64 = file_to_base64(local_path)
    message = Prompt.ask(...)
    ok, resp = create_or_update_file(token, owner, repo, repo_path, content_b64, message, branch, sha)
    if ok: (print success)
    else: (print failure)
  \<close>
\<close>

datatype file_outcome =
    FileNotFound
  | OverwriteDeclined json
  | FileUploaded string
  | FileUploadFailed json

definition op_upload_file ::
  "'r env \<Rightarrow> cfg \<Rightarrow> path \<Rightarrow> string \<Rightarrow> bool \<Rightarrow> string \<Rightarrow> 'r world \<Rightarrow> (exn + file_outcome) \<times> 'r world" where
  "op_upload_file env c local_path repo_path overwrite message w =
     (if local_fs env local_path \<noteq> Some File then (Inr FileNotFound, w)
      else (case get_file_sha env (cfg_token c) (cfg_owner c) (cfg_repo c) (JStr repo_path) (cfg_branch c) w of
              (Inl e, w1) \<Rightarrow> (Inl e, w1)
            | (Inr sha, w1) \<Rightarrow>
                if truthy sha \<and> \<not> overwrite then (Inr (OverwriteDeclined sha), w1)
                else (case file_to_base64 env local_path of
                        Inl e \<Rightarrow> (Inl e, w1)
                      | Inr content_b64 \<Rightarrow>
                         (case create_or_update_file env (cfg_token c) (cfg_owner c) (cfg_repo c) repo_path
                                 content_b64 message (cfg_branch c) sha w1 of
                            (Inl e, w2) \<Rightarrow> (Inl e, w2)
                          | (Inr (ok, resp), w2) \<Rightarrow>
                              if ok then (Inr (FileUploaded repo_path), w2)
                              else (Inr (FileUploadFailed resp), w2)))))"

section \<open>The recursive remote walker\<close>

text \<open>
  The closure inside \<open>op_delete\<close>, appending to the list \<open>file_paths\<close> of the enclosing
  function:
  \<^verbatim>\<open>
        def gather_rec(pth):
            ok2, dat = get_repo_contents(token, owner, repo, pth, branch)
            if not ok2:
                return
            if isinstance(dat, dict) and dat.get("type") == "file":
                file_paths.append(dat.get("path"))
            elif isinstance(dat, list):
                for it in dat:
                    if it.get("type") == "file":
                        file_paths.append(it.get("path"))
                    elif it.get("type") == "dir":
                        gather_rec(it.get("path"))
  \<close>
  \<open>gather\<close> inside \<open>dev_backup_pages\<close> is the same code on the Pages branch. The
  recursion follows the responses of the remote, so the model takes fuel: the result
  is \<open>None\<close> when the fuel runs out before the walk ends.
\<close>

fun gather_rec ::
  "nat \<Rightarrow> 'r env \<Rightarrow> string \<Rightarrow> string \<Rightarrow> string \<Rightarrow> string \<Rightarrow> json \<Rightarrow> json list \<Rightarrow> 'r world
     \<Rightarrow> ((exn + json list) \<times> 'r world) option"
and gather_items ::
  "nat \<Rightarrow> 'r env \<Rightarrow> string \<Rightarrow> string \<Rightarrow> string \<Rightarrow> string \<Rightarrow> json list \<Rightarrow> json list \<Rightarrow> 'r world
     \<Rightarrow> ((exn + json list) \<times> 'r world) option" where
  "gather_rec 0 env token owner repo branch pth file_paths w = None"
| "gather_rec (Suc n) env token owner repo branch pth file_paths w =
     (case get_repo_contents env token owner repo pth branch w of
        (Inl e, w') \<Rightarrow> Some (Inl e, w')
      | (Inr (ok2, dat), w') \<Rightarrow>
          if \<not> ok2 then Some (Inr file_paths, w')
          else (case dat of
                  JDict d \<Rightarrow>
                    if py_get dat ''type'' = Inr (JStr ''file'')
                    then (case py_get dat ''path'' of
                            Inl e \<Rightarrow> Some (Inl e, w')
                          | Inr p \<Rightarrow> Some (Inr (file_paths @ [p]), w'))
                    else Some (Inr file_paths, w')
                | JList items \<Rightarrow> gather_items n env token owner repo branch items file_paths w'
                | _ \<Rightarrow> Some (Inr file_paths, w')))"
| "gather_items n env token owner repo branch [] file_paths w = Some (Inr file_paths, w)"
| "gather_items n env token owner repo branch (it # items) file_paths w =
     (case py_get it ''type'' of
        Inl e \<Rightarrow> Some (Inl e, w)
      | Inr t \<Rightarrow>
          if t = JStr ''file''
          then (case py_get it ''path'' of
                  Inl e \<Rightarrow> Some (Inl e, w)
                | Inr p \<Rightarrow> gather_items n env token owner repo branch items (file_paths @ [p]) w)
          else if t = JStr ''dir''
          then (case py_get it ''path'' of
                  Inl e \<Rightarrow> Some (Inl e, w)
                | Inr p \<Rightarrow>
                   (case gather_rec n env token owner repo branch p file_paths w of
                      None \<Rightarrow> None
                    | Some (Inl e, w') \<Rightarrow> Some (Inl e, w')
                    | Some (Inr file_paths', w') \<Rightarrow>
                        gather_items n env token owner repo branch items file_paths' w'))
          else gather_items n env token owner repo branch items file_paths w)"

definition gather ::
  "nat \<Rightarrow> 'r env \<Rightarrow> cfg \<Rightarrow> json \<Rightarrow> json list \<Rightarrow> 'r world \<Rightarrow> ((exn + json list) \<times> 'r world) option" where
  "gather n env c pth file_paths w =
     gather_rec n env (cfg_token c) (cfg_owner c) (cfg_repo c) (cfg_pages_branch c) pth file_paths w"

text \<open>
  The loop of \<open>op_delete\<close> that deletes the gathered paths; nothing catches an exception:
  \<^verbatim>\<open>
            for p in file_paths:
                sha = get_file_sha(token, owner, repo, p, branch)
                ok2, resp = delete_file(token, owner, repo, p, msg, branch, sha)
                if not ok2:
                    failures.append((p, resp))
  \<close>
\<close>

fun delete_each ::
  "'r env \<Rightarrow> cfg \<Rightarrow> string \<Rightarrow> json list \<Rightarrow> (json \<times> json) list \<Rightarrow> 'r world
     \<Rightarrow> (exn + (json \<times> json) list) \<times> 'r world" where
  "delete_each env c msg [] failures w = (Inr failures, w)"
| "delete_each env c msg (p # file_paths) failures w =
     (case get_file_sha env (cfg_token c) (cfg_owner c) (cfg_repo c) p (cfg_branch c) w of
        (Inl e, w1) \<Rightarrow> (Inl e, w1)
      | (Inr sha, w1) \<Rightarrow>
         (case delete_file env (cfg_token c) (cfg_owner c) (cfg_repo c) p msg (cfg_branch c) sha w1 of
            (Inl e, w2) \<Rightarrow> (Inl e, w2)
          | (Inr (ok2, resp), w2) \<Rightarrow>
              delete_each env c msg file_paths (if ok2 then failures else failures @ [(p, resp)]) w2))"

section \<open>The filesystem watch handler\<close>

text \<open>
  \<^verbatim>\<open>
  class SyncEventHandler(FileSystemEventHandler):
      def __init__(self, cfg, local_root, target_repo_base, pages_branch):
          self.token = cfg["token"]; self.owner = cfg["owner"]; self.repo = cfg["repo"]
          self.local_root = local_root
          self.target_repo_base = target_repo_base.strip("/")
          self.pages_branch = pages_branch
          self.ignore = cfg.get("sync_ignore", [])
  \<close>
\<close>

record handler =
  h_token :: string
  h_owner :: string
  h_repo :: string
  h_local_root :: path
  h_target_repo_base :: string
  h_pages_branch :: string
  h_ignore :: "string list"

definition SyncEventHandler :: "cfg \<Rightarrow> path \<Rightarrow> string \<Rightarrow> string \<Rightarrow> handler" where
  "SyncEventHandler c local_root target_repo_base pages_branch =
     \<lparr>h_token = cfg_token c, h_owner = cfg_owner c, h_repo = cfg_repo c,
      h_local_root = local_root, h_target_repo_base = strip_slash target_repo_base,
      h_pages_branch = pages_branch, h_ignore = cfg_sync_ignore c\<rparr>"

record fs_event =
  is_directory :: bool
  src_path :: path

text \<open>\<open>any(part in path.parts for part in self.ignore)\<close>\<close>

definition is_ignored :: "handler \<Rightarrow> path \<Rightarrow> bool" where
  "is_ignored h p = list_ex (\<lambda>part. part \<in> set p) (h_ignore h)"

text \<open>
  \<^verbatim>\<open>
      def _repo_path(self, src_path):
          rel = src_path.relative_to(self.local_root)
          repo_path = "/".join(rel.parts)
          if self.target_repo_base:
              return f"{self.target_repo_base}/{repo_path}"
          return repo_path
  \<close>
\<close>

definition repo_path_of :: "handler \<Rightarrow> path \<Rightarrow> exn + string" where
  "repo_path_of h src =
     (case relative_to src (h_local_root h) of
        Inl e \<Rightarrow> Inl e
      | Inr rel \<Rightarrow>
          if h_target_repo_base h \<noteq> [] then Inr (h_target_repo_base h @ ''/'' @ join_slash rel)
          else Inr (join_slash rel))"

text \<open>What a handler prints last: nothing when the event is a directory event or the path
  is ignored, otherwise the result of the remote call or the exception it caught.\<close>

datatype sync_outcome =
    Skipped
  | Uploaded string | UploadFailed json
  | Updated string | UpdateFailed json
  | NotInRepo string
  | Deleted string | DeleteFailed json
  | HandlerError exn

text \<open>
  \<open>on_created\<close> and \<open>on_modified\<close> differ in the commit message and in what they print:
  \<^verbatim>\<open>
      def on_created(self, event):
          if event.is_directory: return
          src = Path(event.src_path)
          if self._is_ignored(src): return
          try:
              content_b64 = file_to_base64(src)
              repo_path = self._repo_path(src)
              sha = get_file_sha(self.token, self.owner, self.repo, repo_path, self.pages_branch)
              ok, resp = create_or_update_file(self.token, self.owner, self.repo, repo_path, content_b64,
                                               f"Auto-sync add {repo_path}", self.pages_branch, sha)
              if ok: (print uploaded)
              else: (print failure)
          except Exception as e:
              (print error)
  \<close>
\<close>

definition sync_put ::
  "'r env \<Rightarrow> handler \<Rightarrow> string \<Rightarrow> path \<Rightarrow> 'r world \<Rightarrow> (exn + bool \<times> json \<times> string) \<times> 'r world" where
  "sync_put env h verb src w =
     (case file_to_base64 env src of
        Inl e \<Rightarrow> (Inl e, w)
      | Inr content_b64 \<Rightarrow>
         (case repo_path_of h src of
            Inl e \<Rightarrow> (Inl e, w)
          | Inr repo_path \<Rightarrow>
             (case get_file_sha env (h_token h) (h_owner h) (h_repo h) (JStr repo_path) (h_pages_branch h) w of
                (Inl e, w1) \<Rightarrow> (Inl e, w1)
              | (Inr sha, w1) \<Rightarrow>
                 (case create_or_update_file env (h_token h) (h_owner h) (h_repo h) repo_path content_b64
                         (''Auto-sync '' @ verb @ '' '' @ repo_path) (h_pages_branch h) sha w1 of
                    (Inl e, w2) \<Rightarrow> (Inl e, w2)
                  | (Inr (ok, resp), w2) \<Rightarrow> (Inr (ok, resp, repo_path), w2)))))"

definition on_created :: "'r env \<Rightarrow> handler \<Rightarrow> fs_event \<Rightarrow> 'r world \<Rightarrow> sync_outcome \<times> 'r world" where
  "on_created env h event w =
     (if is_directory event then (Skipped, w)
      else if is_ignored h (src_path event) then (Skipped, w)
      else (case sync_put env h ''add'' (src_path event) w of
              (Inl e, w') \<Rightarrow> (HandlerError e, w')
            | (Inr (ok, resp, repo_path), w') \<Rightarrow>
                if ok then (Uploaded repo_path, w') else (UploadFailed resp, w')))"

definition on_modified :: "'r env \<Rightarrow> handler \<Rightarrow> fs_event \<Rightarrow> 'r world \<Rightarrow> sync_outcome \<times> 'r world" where
  "on_modified env h event w =
     (if is_directory event then (Skipped, w)
      else if is_ignored h (src_path event) then (Skipped, w)
      else (case sync_put env h ''update'' (src_path event) w of
              (Inl e, w') \<Rightarrow> (HandlerError e, w')
            | (Inr (ok, resp, repo_path), w') \<Rightarrow>
                if ok then (Updated repo_path, w') else (UpdateFailed resp, w')))"

text \<open>
  \<^verbatim>\<open>
      def on_deleted(self, event):
          if event.is_directory: return
          src = Path(event.src_path)
          if self._is_ignored(src): return
          console.print(f"[red]Detected deleted: {src} -> deleting from repo...[/red]")
          try:
              repo_path = self._repo_path(src)
              sha = get_file_sha(self.token, self.owner, self.repo, repo_path, self.pages_branch)
              if not sha:
                  console.print(f"[yellow]File not found in repo: {repo_path}[/yellow]")
                  return
              ok, resp = delete_file(self.token, self.owner, self.repo, repo_path,
                                     f"Auto-sync delete {repo_path}", self.pages_branch, sha)
              if ok: (print deleted)
              else: (print failure)
          except Exception as e:
              console.print(f"[red]Error on deleted: {e}[/red]")
  \<close>
\<close>

definition on_deleted :: "'r env \<Rightarrow> handler \<Rightarrow> fs_event \<Rightarrow> 'r world \<Rightarrow> sync_outcome \<times> 'r world" where
  "on_deleted env h event w =
     (if is_directory event then (Skipped, w)
      else if is_ignored h (src_path event) then (Skipped, w)
      else (case repo_path_of h (src_path event) of
              Inl e \<Rightarrow> (HandlerError e, w)
            | Inr repo_path \<Rightarrow>
               (case get_file_sha env (h_token h) (h_owner h) (h_repo h) (JStr repo_path) (h_pages_branch h) w of
                  (Inl e, w1) \<Rightarrow> (HandlerError e, w1)
                | (Inr sha, w1) \<Rightarrow>
                    if \<not> truthy sha then (NotInRepo repo_path, w1)
                    else (case delete_file env (h_token h) (h_owner h) (h_repo h) (JStr repo_path)
                                 (''Auto-sync delete '' @ repo_path) (h_pages_branch h) sha w1 of
                            (Inl e, w2) \<Rightarrow> (HandlerError e, w2)
                          | (Inr (ok, resp), w2) \<Rightarrow>
                              if ok then (Deleted repo_path, w2) else (DeleteFailed resp, w2)))))"

section \<open>Adding a file or folder to the Pages branch\<close>

text \<open>
  \<^verbatim>\<open>
  def ensure_pages_branch(cfg, branch_name):
      token, owner, repo = cfg["token"], cfg["owner"], cfg["repo"]
      ok, ref = get_ref(token, owner, repo, branch_name)
      if ok:
          return True
      base_branch = cfg.get("branch", "main")
      ok2, refdata = get_ref(token, owner, repo, base_branch)
      if not ok2:
          return False
      base_sha = refdata["object"]["sha"]
      r = api_request("POST", f"/repos/{owner}/{repo}/git/refs", cfg["token"],
                      json={"ref": f"refs/heads/{branch_name}", "sha": base_sha})
      if r.status_code in (201,):
          return True
      return False
  \<close>
\<close>

definition ensure_pages_branch :: "'r env \<Rightarrow> cfg \<Rightarrow> string \<Rightarrow> 'r world \<Rightarrow> (exn + bool) \<times> 'r world" where
  "ensure_pages_branch env c branch_name w =
     (case get_ref env (cfg_token c) (cfg_owner c) (cfg_repo c) branch_name w of
        (Inl e, w1) \<Rightarrow> (Inl e, w1)
      | (Inr (ok, ref), w1) \<Rightarrow>
          if ok then (Inr True, w1)
          else (case get_ref env (cfg_token c) (cfg_owner c) (cfg_repo c) (cfg_branch c) w1 of
                  (Inl e, w2) \<Rightarrow> (Inl e, w2)
                | (Inr (ok2, refdata), w2) \<Rightarrow>
                    if \<not> ok2 then (Inr False, w2)
                    else (case py_index2 refdata ''object'' ''sha'' of
                            Inl e \<Rightarrow> (Inl e, w2)
                          | Inr base_sha \<Rightarrow>
                             (case api_request env ''POST''
                                     (''/repos/'' @ cfg_owner c @ ''/'' @ cfg_repo c @ ''/git/refs'') (cfg_token c)
                                     (Some (JDict [(''ref'', JStr (''refs/heads/'' @ branch_name)),
                                                   (''sha'', base_sha)])) w2 of
                                (Inl e, w3) \<Rightarrow> (Inl e, w3)
                              | (Inr r, w3) \<Rightarrow> (Inr (status_code r = 201), w3)))))"

datatype pages_outcome =
    PagesBranchUnavailable
  | LocalFileNotFound
  | PagesFileUploaded string | PagesFileFailed json
  | LocalFolderNotFound
  | PagesNoFiles
  | PagesFolderDone "(path \<times> json) list"

text \<open>
  The loop of the folder branch of \<open>pages_add_file_or_folder\<close>:
  \<^verbatim>\<open>
            for f in files:
                repo_path = path_to_repo_path(local_folder, f, repo_base=target_repo_base)
                content_b64 = file_to_base64(f)
                sha = get_file_sha(token, owner, repo, repo_path, pages_branch)
                ok, r = create_or_update_file(token, owner, repo, repo_path, content_b64, msg, pages_branch, sha)
                if not ok:
                    fails.append((str(f), r))
  \<close>
\<close>

fun pages_upload_each ::
  "'r env \<Rightarrow> cfg \<Rightarrow> string \<Rightarrow> path \<Rightarrow> string \<Rightarrow> string \<Rightarrow> path list \<Rightarrow> (path \<times> json) list \<Rightarrow> 'r world
     \<Rightarrow> (exn + (path \<times> json) list) \<times> 'r world" where
  "pages_upload_each env c pages_branch local_folder target_repo_base msg [] fails w = (Inr fails, w)"
| "pages_upload_each env c pages_branch local_folder target_repo_base msg (f # files) fails w =
     (case path_to_repo_path local_folder f target_repo_base of
        Inl e \<Rightarrow> (Inl e, w)
      | Inr repo_path \<Rightarrow>
         (case file_to_base64 env f of
            Inl e \<Rightarrow> (Inl e, w)
          | Inr content_b64 \<Rightarrow>
             (case get_file_sha env (cfg_token c) (cfg_owner c) (cfg_repo c) (JStr repo_path) pages_branch w of
                (Inl e, w1) \<Rightarrow> (Inl e, w1)
              | (Inr sha, w1) \<Rightarrow>
                 (case create_or_update_file env (cfg_token c) (cfg_owner c) (cfg_repo c) repo_path
                         content_b64 msg pages_branch sha w1 of
                    (Inl e, w2) \<Rightarrow> (Inl e, w2)
                  | (Inr (ok, r), w2) \<Rightarrow>
                      pages_upload_each env c pages_branch local_folder target_repo_base msg files
                        (if ok then fails else fails @ [(f, r)]) w2))))"

text \<open>
  \<open>pages_add_file_or_folder\<close>, with the answers to its prompts as arguments: the Pages
  branch, the choice (\<open>"1"\<close> file, \<open>"2"\<close> folder), the local path, the target path or
  folder in the branch, and the commit message.
  \<^verbatim>\<open>
    if not ensure_pages_branch(cfg, pages_branch):
        return
    choice = Prompt.ask(..., choices=["1", "2"], default="1")
    if choice == "1":
        local_path = Path(Prompt.ask("Local file path")).expanduser()
        if not local_path.exists() or not local_path.is_file(): ... return
        repo_path = Prompt.ask(..., default=local_path.name)
        content_b64 = file_to_base64(local_path)
        sha = get_file_sha(token, owner, repo, repo_path, pages_branch)
        msg = Prompt.ask(...)
        ok, r = create_or_update_file(token, owner, repo, repo_path, content_b64, msg, pages_branch, sha)
        ...
    else:
        local_folder = Path(Prompt.ask("Local folder path")).expanduser()
        if not local_folder.exists() or not local_folder.is_dir(): ... return
        target_repo_base = Prompt.ask(...)
        files = gather_files_for_folder(local_folder)
        if not files: ... return
        msg = Prompt.ask(...)
        (the loop)
  \<close>
\<close>

definition pages_add_file_or_folder ::
  "'r env \<Rightarrow> cfg \<Rightarrow> string \<Rightarrow> string \<Rightarrow> path \<Rightarrow> string \<Rightarrow> string \<Rightarrow> 'r world
     \<Rightarrow> (exn + pages_outcome) \<times> 'r world" where
  "pages_add_file_or_folder env c pages_branch choice local_path target msg w =
     (case ensure_pages_branch env c pages_branch w of
        (Inl e, w0) \<Rightarrow> (Inl e, w0)
      | (Inr False, w0) \<Rightarrow> (Inr PagesBranchUnavailable, w0)
      | (Inr True, w0) \<Rightarrow>
          if choice = ''1''
          then (if local_fs env local_path \<noteq> Some File then (Inr LocalFileNotFound, w0)
                else (case file_to_base64 env local_path of
                        Inl e \<Rightarrow> (Inl e, w0)
                      | Inr content_b64 \<Rightarrow>
                         (case get_file_sha env (cfg_token c) (cfg_owner c) (cfg_repo c) (JStr target) pages_branch w0 of
                            (Inl e, w1) \<Rightarrow> (Inl e, w1)
                          | (Inr sha, w1) \<Rightarrow>
                             (case create_or_update_file env (cfg_token c) (cfg_owner c) (cfg_repo c) target
                                     content_b64 msg pages_branch sha w1 of
                                (Inl e, w2) \<Rightarrow> (Inl e, w2)
                              | (Inr (ok, r), w2) \<Rightarrow>
                                  if ok then (Inr (PagesFileUploaded target), w2)
                                  else (Inr (PagesFileFailed r), w2)))))
          else (if \<not> is_dir (local_fs env) local_path then (Inr LocalFolderNotFound, w0)
                else let files = gather_files_for_folder (local_fs env) local_path None
                in if files = [] then (Inr PagesNoFiles, w0)
                else (case pages_upload_each env c pages_branch local_path target msg files [] w0 of
                        (Inl e, w1) \<Rightarrow> (Inl e, w1)
                      | (Inr fails, w1) \<Rightarrow> (Inr (PagesFolderDone fails), w1))))"

section \<open>Requests and traces\<close>

text \<open>The lookup of a path, as \<open>get_repo_contents\<close> sends it, and the request
  \<open>create_blob\<close> sends for the encoded bytes of a file.\<close>

definition contents_request :: "'r env \<Rightarrow> string \<Rightarrow> string \<Rightarrow> string \<Rightarrow> string \<Rightarrow> json \<Rightarrow> request" where
  "contents_request env token owner repo branch pth =
     mk_request ''GET'' (contents_endpoint env owner repo pth @ ''?ref='' @ branch) token None"

definition blob_request :: "cfg \<Rightarrow> string \<Rightarrow> request" where
  "blob_request c content_b64 =
     mk_request ''POST'' (''/repos/'' @ cfg_owner c @ ''/'' @ cfg_repo c @ ''/git/blobs'') (cfg_token c)
       (Some (blob_payload content_b64 ''base64''))"

text \<open>The requests of the single-commit mode after the blobs, as the client builds them.\<close>

definition ref_request :: "cfg \<Rightarrow> request" where
  "ref_request c =
     mk_request ''GET'' (''/repos/'' @ cfg_owner c @ ''/'' @ cfg_repo c @ ''/git/ref/heads/'' @ cfg_branch c)
       (cfg_token c) None"

definition commit_lookup_request :: "'r env \<Rightarrow> cfg \<Rightarrow> json \<Rightarrow> request" where
  "commit_lookup_request env c base_commit_sha =
     mk_request ''GET'' (commit_endpoint env c base_commit_sha) (cfg_token c) None"

definition tree_request :: "cfg \<Rightarrow> json list \<Rightarrow> json \<Rightarrow> request" where
  "tree_request c tree_entries base_tree_sha =
     mk_request ''POST'' (''/repos/'' @ cfg_owner c @ ''/'' @ cfg_repo c @ ''/git/trees'') (cfg_token c)
       (Some (tree_payload tree_entries base_tree_sha))"

definition commit_request :: "cfg \<Rightarrow> string \<Rightarrow> json \<Rightarrow> json list \<Rightarrow> request" where
  "commit_request c message tree_sha parents =
     mk_request ''POST'' (''/repos/'' @ cfg_owner c @ ''/'' @ cfg_repo c @ ''/git/commits'') (cfg_token c)
       (Some (commit_payload message tree_sha parents))"

definition update_request :: "cfg \<Rightarrow> json \<Rightarrow> bool \<Rightarrow> request" where
  "update_request c commit_sha force =
     mk_request ''PATCH'' (''/repos/'' @ cfg_owner c @ ''/'' @ cfg_repo c @ ''/git/refs/heads/'' @ cfg_branch c)
       (cfg_token c) (Some (ref_payload commit_sha force))"

definition batch_requests :: "'r env \<Rightarrow> cfg \<Rightarrow> string \<Rightarrow> json list \<Rightarrow> json \<Rightarrow> json \<Rightarrow> json \<Rightarrow> json \<Rightarrow> request list" where
  "batch_requests env c message tree_entries base_commit base_tree new_tree new_commit =
     [ref_request c,
      commit_lookup_request env c base_commit,
      tree_request c tree_entries base_tree,
      commit_request c message new_tree [base_commit],
      update_request c new_commit False]"

text \<open>A world reached from \<open>w\<close> by sending the given requests, one after the other.\<close>

fun after :: "'r env \<Rightarrow> 'r world \<Rightarrow> request list \<Rightarrow> 'r world" where
  "after env w [] = w"
| "after env w (req # reqs) =
     after env \<lparr>remote = snd (transport env (remote w) req), sent = sent w @ [req]\<rparr> reqs"

text \<open>How far a run that ended with the given result got in that sequence.\<close>

fun steps_made :: "exn + upload_outcome \<Rightarrow> nat \<Rightarrow> bool" where
  "steps_made (Inr (RefFailed d)) k = (k = 1)"
| "steps_made (Inr (CommitLookupFailed s t)) k = (k = 2)"
| "steps_made (Inr (TreeFailed d)) k = (k = 3)"
| "steps_made (Inr (CommitFailed d)) k = (k = 4)"
| "steps_made (Inr (RefUpdateFailed d)) k = (k = 5)"
| "steps_made (Inr (BatchDone sha)) k = (k = 5)"
| "steps_made (Inr other) k = False"
| "steps_made (Inl e) k = (1 \<le> k \<and> k \<le> 5)"

text \<open>The value a response carries under two nested keys, when the request is answered
  with status 200 and a JSON object that holds an object under the first key.\<close>

definition answered :: "'r env \<Rightarrow> 'r world \<Rightarrow> request \<Rightarrow> string \<Rightarrow> string \<Rightarrow> json \<Rightarrow> bool" where
  "answered env w req k1 k2 v =
     (case fst (transport env (remote w) req) of
        Inl e \<Rightarrow> False
      | Inr r \<Rightarrow> status_code r = 200 \<and>
                 (\<exists>d1 d2. decoded r = Some (JDict d1) \<and> map_of d1 k1 = Some (JDict d2) \<and> map_of d2 k2 = Some v))"

text \<open>A response every wrapper can turn into a result: its body decodes, or it is empty
  and the status is not one a wrapper decodes without looking at the body.\<close>

definition usable :: "response \<Rightarrow> bool" where
  "usable r = (decoded r = None \<longrightarrow> content r = [] \<and> status_code r \<noteq> 200 \<and> status_code r \<noteq> 201)"

text \<open>What a request asks for, headers aside: the method, the address and the payload.\<close>

definition request_line :: "request \<Rightarrow> string \<times> string \<times> json option" where
  "request_line r = (http_method r, url r, body r)"

text \<open>The upload of one file by \<open>PUT\<close>, as it shows in a list of requests.\<close>

definition put_sent :: "'r env \<Rightarrow> string \<Rightarrow> string \<Rightarrow> string \<Rightarrow> string \<Rightarrow> path \<Rightarrow> path \<Rightarrow> string \<Rightarrow> request list \<Rightarrow> bool" where
  "put_sent env owner repo branch message local_folder f base reqs =
     (\<exists>rp bs sha r. path_to_repo_path local_folder f base = Inr rp \<and> read_bytes env f = Inr bs
        \<and> r \<in> set reqs
        \<and> request_line r =
            (''PUT'', ''https://api.github.com/repos/'' @ owner @ ''/'' @ repo @ ''/contents/'' @ rp,
             Some (JDict ([(''message'', JStr message), (''content'', JStr (b64encode env bs)),
                           (''branch'', JStr branch)]
                          @ (if truthy sha then [(''sha'', sha)] else [])))))"

text \<open>The blob of one file, as it shows in a list of requests, and its entry in a list of
  tree entries.\<close>

definition blob_sent :: "'r env \<Rightarrow> cfg \<Rightarrow> path \<Rightarrow> request list \<Rightarrow> bool" where
  "blob_sent env c f reqs =
     (\<exists>bs r. read_bytes env f = Inr bs \<and> r \<in> set reqs
        \<and> request_line r =
            (''POST'', ''https://api.github.com/repos/'' @ cfg_owner c @ ''/'' @ cfg_repo c @ ''/git/blobs'',
             Some (JDict [(''content'', JStr (b64encode env bs)), (''encoding'', JStr ''base64'')])))"

definition entry_listed :: "path \<Rightarrow> path \<Rightarrow> string \<Rightarrow> json list \<Rightarrow> bool" where
  "entry_listed local_folder f base entries =
     (\<exists>rp blob_sha. path_to_repo_path local_folder f base = Inr rp
        \<and> JDict [(''path'', JStr rp), (''mode'', JStr ''100644''), (''type'', JStr ''blob''), (''sha'', blob_sha)]
            \<in> set entries)"

text \<open>The creation of the tree of a single-commit upload, as it shows in a list of
  requests, with the entry of one file in its list.\<close>

definition tree_sent :: "cfg \<Rightarrow> path \<Rightarrow> path \<Rightarrow> string \<Rightarrow> request list \<Rightarrow> bool" where
  "tree_sent c local_folder f base reqs =
     (\<exists>r entries rest. r \<in> set reqs
        \<and> request_line r =
            (''POST'', ''https://api.github.com/repos/'' @ cfg_owner c @ ''/'' @ cfg_repo c @ ''/git/trees'',
             Some (JDict ((''tree'', JList entries) # rest)))
        \<and> entry_listed local_folder f base entries)"

section \<open>The walk as the specification reads it\<close>

text \<open>
  The specification's reading of the walk, over the answers of a remote that does not
  change while it is walked: \<open>listing p\<close> is the answer to the lookup of \<open>p\<close>. A path is
  beneath \<open>p\<close> when \<open>p\<close> is answered with a file of that path, or with a list that holds a
  file entry of that path, or with a list that holds a directory entry the path is beneath.
\<close>

inductive beneath :: "(json \<Rightarrow> response) \<Rightarrow> json \<Rightarrow> json \<Rightarrow> bool" for listing where
  single_file: "status_code (listing p) = 200 \<Longrightarrow> decoded (listing p) = Some (JDict d) \<Longrightarrow>
           py_get (JDict d) ''type'' = Inr (JStr ''file'') \<Longrightarrow> py_get (JDict d) ''path'' = Inr q \<Longrightarrow>
           beneath listing p q"
| file_entry_in: "status_code (listing p) = 200 \<Longrightarrow> decoded (listing p) = Some (JList items) \<Longrightarrow>
         it \<in> set items \<Longrightarrow> py_get it ''type'' = Inr (JStr ''file'') \<Longrightarrow> py_get it ''path'' = Inr q \<Longrightarrow>
         beneath listing p q"
| dir_entry_in: "status_code (listing p) = 200 \<Longrightarrow> decoded (listing p) = Some (JList items) \<Longrightarrow>
        it \<in> set items \<Longrightarrow> py_get it ''type'' = Inr (JStr ''dir'') \<Longrightarrow> py_get it ''path'' = Inr d \<Longrightarrow>
        beneath listing d q \<Longrightarrow> beneath listing p q"

text \<open>The paths a list of entries contributes: its file entries, and what is beneath its
  directory entries.\<close>

definition items_beneath :: "(json \<Rightarrow> response) \<Rightarrow> json list \<Rightarrow> json set" where
  "items_beneath listing items =
     {q. \<exists>it\<in>set items.
           (py_get it ''type'' = Inr (JStr ''file'') \<and> py_get it ''path'' = Inr q)
         \<or> (py_get it ''type'' = Inr (JStr ''dir'') \<and> (\<exists>d. py_get it ''path'' = Inr d \<and> beneath listing d q))}"

text \<open>The version token an entry carries, in the sense of the specification's
  \<open>RemoteFileEntry\<close>: the \<open>sha\<close> of an entry that is a dictionary.\<close>

definition entry_version_token :: "json \<Rightarrow> json option" where
  "entry_version_token entry = (case entry of JDict d \<Rightarrow> map_of d ''sha'' | _ \<Rightarrow> None)"

text \<open>
  What the walk is proved under: the remote answers a lookup by the path alone and is not
  changed by it; an answer with status 200 decodes, and a list among them holds
  dictionaries only; and the directory entries of a listing lie strictly deeper than the
  listed path, for some measure of depth.
\<close>

definition static_remote ::
  "'r env \<Rightarrow> string \<Rightarrow> string \<Rightarrow> string \<Rightarrow> string \<Rightarrow> (json \<Rightarrow> response) \<Rightarrow> bool" where
  "static_remote env token owner repo branch listing =
     (\<forall>s pth. transport env s (contents_request env token owner repo branch pth) = (Inr (listing pth), s))"

definition well_listed :: "(json \<Rightarrow> response) \<Rightarrow> bool" where
  "well_listed listing =
     (\<forall>p. status_code (listing p) = 200 \<longrightarrow>
          (\<exists>j. decoded (listing p) = Some j \<and> (\<forall>items. j = JList items \<longrightarrow> (\<forall>it\<in>set items. is_dict it))))"

definition bounded_depth :: "(json \<Rightarrow> response) \<Rightarrow> (json \<Rightarrow> nat) \<Rightarrow> bool" where
  "bounded_depth listing depth =
     (\<forall>p items it d. status_code (listing p) = 200 \<longrightarrow> decoded (listing p) = Some (JList items) \<longrightarrow>
        it \<in> set items \<longrightarrow> py_get it ''type'' = Inr (JStr ''dir'') \<longrightarrow> py_get it ''path'' = Inr d \<longrightarrow>
        depth d < depth p)"

section \<open>Environments used to run the model\<close>

text \<open>
  A scripted remote: its state is the branch head and the queue of answers still to give.
  Each request takes the next answer; a \<open>PATCH\<close> answered with status 200 moves the head
  to the \<open>sha\<close> of its payload. When the queue is empty the connection fails.
\<close>

type_synonym scripted = "json \<times> (exn + response) list"

definition payload_sha :: "request \<Rightarrow> json" where
  "payload_sha req = (case body req of Some (JDict d) \<Rightarrow> (case map_of d ''sha'' of Some v \<Rightarrow> v | None \<Rightarrow> JNull)
                      | _ \<Rightarrow> JNull)"

definition scripted_transport :: "scripted \<Rightarrow> request \<Rightarrow> (exn + response) \<times> scripted" where
  "scripted_transport s req =
     (case snd s of
        [] \<Rightarrow> (Inl (ConnectionError ''unreachable''), s)
      | a # rest \<Rightarrow>
          (a, (case a of
                 Inr r \<Rightarrow> if http_method req = ''PATCH'' \<and> status_code r = 200 then payload_sha req else fst s
               | Inl e \<Rightarrow> fst s), rest))"

text \<open>The local side: the folder \<open>proj\<close> of the scanner section, with its three files
  readable.\<close>

definition demo_read :: "path \<Rightarrow> exn + string" where
  "demo_read p = (if p = [''proj'', ''a.txt''] then Inr ''alpha''
                  else if p = [''proj'', ''sub'', ''b.txt''] then Inr ''beta''
                  else if p = [''proj'', ''.git'', ''config''] then Inr ''gamma''
                  else Inl (OSError ''No such file''))"

definition demo_env :: "scripted env" where
  "demo_env = \<lparr>transport = scripted_transport, local_fs = demo_fs, read_bytes = demo_read,
               b64encode = (\<lambda>s. s), py_repr = (\<lambda>j. ''?'')\<rparr>"

definition demo_cfg :: cfg where
  "demo_cfg = \<lparr>cfg_token = ''t0ken'', cfg_owner = ''me'', cfg_repo = ''site'', cfg_branch = ''main'',
               cfg_pages_branch = ''gh-pages'', cfg_auto_commit_message = ''Auto upload via gtfa Tool'',
               cfg_sync_ignore = [''.git'', ''__pycache__'']\<rparr>"

text \<open>A world with a given head and queue in which nothing was sent yet, and answers
  with a JSON body.\<close>

definition start :: "json \<Rightarrow> (exn + response) list \<Rightarrow> scripted world" where
  "start head_sha answers = \<lparr>remote = (head_sha, answers), sent = []\<rparr>"

definition answer :: "nat \<Rightarrow> json \<Rightarrow> exn + response" where
  "answer code j = Inr \<lparr>status_code = code, content = ''{...}'', decoded = Some j\<rparr>"

definition sha_object :: "string \<Rightarrow> json" where
  "sha_object s = JDict [(''sha'', JStr s)]"

text \<open>Entries of a directory listing.\<close>

definition file_entry :: "string \<Rightarrow> string \<Rightarrow> json" where
  "file_entry p s = JDict [(''type'', JStr ''file''), (''path'', JStr p), (''sha'', JStr s)]"

definition dir_entry :: "string \<Rightarrow> json" where
  "dir_entry p = JDict [(''type'', JStr ''dir''), (''path'', JStr p)]"

text \<open>A watch handler on the folder \<open>proj\<close>, and the event of a file deleted in it.\<close>

definition demo_handler :: handler where
  "demo_handler = SyncEventHandler demo_cfg [''proj''] ''/docs/'' ''gh-pages''"

definition demo_deleted :: fs_event where
  "demo_deleted = \<lparr>is_directory = False, src_path = [''proj'', ''sub'', ''b.txt'']\<rparr>"

text \<open>The answers of a remote on which a single-commit upload of three files goes
  through: three blobs, then the five steps of the commit.\<close>

definition demo_tail :: "(exn + response) list" where
  "demo_tail =
     [answer 200 (JDict [(''object'', sha_object ''c0'')]),
      answer 200 (JDict [(''tree'', sha_object ''t0'')]),
      answer 201 (sha_object ''t1''),
      answer 201 (sha_object ''c1''),
      answer 200 (JDict [(''object'', sha_object ''c1'')])]"

definition demo_answers :: "(exn + response) list" where
  "demo_answers =
     [answer 201 (sha_object ''b1''), answer 201 (sha_object ''b2''), answer 201 (sha_object ''b3'')] @ demo_tail"

definition demo_entries :: "json list" where
  "demo_entries = [tree_entry ''a.txt'' (JStr ''b1''), tree_entry ''.git/config'' (JStr ''b2''),
                   tree_entry ''sub/b.txt'' (JStr ''b3'')]"

text \<open>A remote that serves a fixed tree: \<open>index.html\<close> and the directory \<open>css\<close> at the
  root of the Pages branch, \<open>css/site.css\<close> in the directory, nothing else.\<close>

definition site_transport :: "unit \<Rightarrow> request \<Rightarrow> (exn + response) \<times> unit" where
  "site_transport s req =
     (if url req = ''https://api.github.com/repos/me/site/contents?ref=gh-pages''
      then answer 200 (JList [file_entry ''index.html'' ''s1'', dir_entry ''css''])
      else if url req = ''https://api.github.com/repos/me/site/contents/css?ref=gh-pages''
      then answer 200 (JList [file_entry ''css/site.css'' ''s2''])
      else answer 404 (JDict [(''message'', JStr ''Not Found'')]), s)"

definition site_env :: "unit env" where
  "site_env = \<lparr>transport = site_transport, local_fs = demo_fs, read_bytes = demo_read,
               b64encode = (\<lambda>s. s), py_repr = (\<lambda>j. ''?'')\<rparr>"

definition site_listing :: "json \<Rightarrow> response" where
  "site_listing pth =
     (case fst (site_transport () (contents_request site_env ''t0ken'' ''me'' ''site'' ''gh-pages'' pth)) of
        Inr r \<Rightarrow> r
      | Inl e \<Rightarrow> \<lparr>status_code = 0, content = [], decoded = None\<rparr>)"

definition site_depth :: "json \<Rightarrow> nat" where
  "site_depth pth = (if truthy pth then 0 else 1)"

text \<open>The answers of a remote on which three files are uploaded one by one: each lookup
  finds nothing, each \<open>PUT\<close> creates the file. For the Pages branch the lookup of the
  branch reference comes first.\<close>

definition demo_puts :: "(exn + response) list" where
  "demo_puts =
     [answer 404 (JDict [(''message'', JStr ''Not Found'')]), answer 201 (JDict [(''content'', sha_object ''f1'')]),
      answer 404 (JDict [(''message'', JStr ''Not Found'')]), answer 201 (JDict [(''content'', sha_object ''f2'')]),
      answer 404 (JDict [(''message'', JStr ''Not Found'')]), answer 201 (JDict [(''content'', sha_object ''f3'')])]"

definition demo_pages_puts :: "(exn + response) list" where
  "demo_pages_puts = answer 200 (JDict [(''object'', sha_object ''p0'')]) # demo_puts"

text \<open>Answers to a lookup followed by one more request: the path is missing; the lookup is
  refused by a gateway with a body that is no JSON; the path is a directory.\<close>

definition not_found :: "exn + response" where
  "not_found = answer 404 (JDict [(''message'', JStr ''Not Found'')])"

definition bad_gateway :: "exn + response" where
  "bad_gateway = Inr \<lparr>status_code = 502, content = ''<html>Bad Gateway</html>'', decoded = None\<rparr>"

definition sub_listing :: "exn + response" where
  "sub_listing = answer 200 (JList [file_entry ''sub/b.txt'' ''b2''])"

text \<open>The same environment with the regular file \<open>proj/a.txt\<close> found by its own path.\<close>

definition file_env :: "scripted env" where
  "file_env = demo_env\<lparr>local_fs := (\<lambda>p. if p = [''proj'', ''a.txt''] then Some File else demo_fs p)\<rparr>"

section \<open>Properties of the path mapping\<close>

lemma split_slash_not_Nil: "split_slash s \<noteq> []"
  by (induction s) (auto split: list.splits)

lemma split_slash_no_slash: "CHR ''/'' \<notin> set s \<Longrightarrow> split_slash s = [s]"
  by (induction s) auto

lemma split_slash_append: "split_slash (a @ CHR ''/'' # b) = split_slash a @ split_slash b"
  by (induction a) (auto split: list.splits simp: split_slash_not_Nil)

lemma split_join_slash:
  "\<forall>x\<in>set xs. CHR ''/'' \<notin> set x \<Longrightarrow> split_slash (join_slash (b # xs)) = split_slash b @ xs"
proof (induction xs arbitrary: b)
  case Nil
  then show ?case by simp
next
  case (Cons x xs)
  have "split_slash (join_slash (x # xs)) = split_slash x @ xs"
    using Cons by simp
  moreover have "split_slash x = [x]" using Cons.prems by (simp add: split_slash_no_slash)
  ultimately show ?case by (simp add: split_slash_append)
qed

lemma relative_to_names:
  assumes "wf_path f" "relative_to f b = Inr rel"
  shows "list_all wf_name rel"
proof (cases "b = []")
  case True
  with assms show ?thesis
    by (auto simp: relative_to_def wf_path_def is_absolute_def split: if_splits list.splits)
next
  case False
  then obtain n where n: "length b = Suc n" by (cases b) auto
  from assms False have rel: "rel = drop (length b) f"
    by (auto simp: relative_to_def split: if_splits)
  show ?thesis
  proof (cases f)
    case Nil
    then show ?thesis using rel by simp
  next
    case (Cons a rest)
    with assms(1) have "list_all wf_name rest" by (simp add: wf_path_def)
    then have "list_all wf_name (drop n rest)"
      by (auto simp: list_all_iff dest: in_set_dropD)
    then show ?thesis using rel n Cons by simp
  qed
qed

lemma strip_slash_prefix: "\<exists>ys. dropWhile (\<lambda>c. c = CHR ''/'') s = strip_slash s @ ys"
proof -
  let ?P = "\<lambda>c. c = CHR ''/''"
  let ?t = "dropWhile ?P s"
  have "rev (takeWhile ?P (rev ?t) @ dropWhile ?P (rev ?t)) = ?t"
    by (simp only: takeWhile_dropWhile_id rev_rev_ident)
  then have "rev (dropWhile ?P (rev ?t)) @ rev (takeWhile ?P (rev ?t)) = ?t"
    by (simp only: rev_append)
  then have "strip_slash s @ rev (takeWhile ?P (rev ?t)) = ?t"
    by (simp only: strip_slash_def)
  then show ?thesis by metis
qed

lemma leading_slash_strip: "\<not> leading_slash (strip_slash s)"
proof (cases "strip_slash s")
  case Nil
  then show ?thesis by (simp add: leading_slash_def)
next
  case (Cons c cs)
  obtain ys where "dropWhile (\<lambda>c. c = CHR ''/'') s = strip_slash s @ ys"
    using strip_slash_prefix by blast
  then have "dropWhile (\<lambda>c. c = CHR ''/'') s = c # (cs @ ys)"
    by (simp only: Cons append_Cons)
  then have "c \<noteq> CHR ''/''"
    using hd_dropWhile[of "\<lambda>c. c = CHR ''/''" s] by auto
  then show ?thesis using Cons by (simp add: leading_slash_def)
qed

lemma join_slash_Cons: "join_slash (x # xs) = (if xs = [] then x else x @ CHR ''/'' # join_slash xs)"
  by (cases xs) auto

lemma leading_slash_join:
  "\<not> leading_slash b \<Longrightarrow> b \<noteq> [] \<Longrightarrow> \<not> leading_slash (join_slash (b # xs))"
  by (cases b) (auto simp: join_slash_Cons leading_slash_def)

text \<open>
  Claim C4 (amended). For every local root and every well-formed file path under that root,
  when the remote base prefix is empty, or is not empty once its leading and trailing
  \<open>/\<close> are stripped and then has no \<open>.\<close> or \<open>..\<close> segment, \<open>path_to_repo_path\<close> returns
  a \<open>/\<close>-joined path that contains no \<open>.\<close> or \<open>..\<close> segment and has no leading \<open>/\<close>.
  The mapping is a function of its three arguments, so repeated calls agree.
\<close>

theorem path_to_repo_path_clean:
  assumes wf: "wf_path file_path"
    and under: "relative_to file_path local_base = Inr rel"
    and base: "repo_base = [] \<or>
               (strip_slash repo_base \<noteq> [] \<and> \<not> has_dot_segment (strip_slash repo_base))"
  shows "\<exists>s. path_to_repo_path local_base file_path repo_base = Inr s
             \<and> \<not> has_dot_segment s \<and> \<not> leading_slash s"
proof -
  define parts where "parts = filter (\<lambda>p. p \<noteq> ''.'' \<and> p \<noteq> ''..'') rel"
  have names: "list_all wf_name parts"
    using relative_to_names[OF wf under] by (simp add: parts_def list_all_iff)
  then have noslash: "\<forall>x\<in>set parts. CHR ''/'' \<notin> set x"
    by (simp add: list_all_iff wf_name_def)
  have nodots: "''.'' \<notin> set parts" "''..'' \<notin> set parts" by (auto simp: parts_def)
  show ?thesis
  proof (cases "repo_base = []")
    case True
    have res: "path_to_repo_path local_base file_path repo_base = Inr (join_slash parts)"
      using under True by (simp add: path_to_repo_path_def parts_def)
    show ?thesis
    proof (cases parts)
      case Nil
      then show ?thesis using res by (simp add: has_dot_segment_def leading_slash_def)
    next
      case (Cons p ps)
      then have "split_slash (join_slash parts) = parts"
        using split_join_slash[of ps p] noslash by (simp add: split_slash_no_slash)
      moreover have "\<not> leading_slash (join_slash parts)"
        using Cons names by (cases p) (auto simp: join_slash_Cons leading_slash_def wf_name_def)
      ultimately show ?thesis using res nodots by (simp add: has_dot_segment_def)
    qed
  next
    case False
    let ?b = "strip_slash repo_base"
    have res: "path_to_repo_path local_base file_path repo_base = Inr (join_slash (?b # parts))"
      using under False by (simp add: path_to_repo_path_def parts_def)
    have "split_slash (join_slash (?b # parts)) = split_slash ?b @ parts"
      using split_join_slash noslash by simp
    moreover have "\<not> leading_slash (join_slash (?b # parts))"
      using base False leading_slash_join leading_slash_strip by simp
    ultimately show ?thesis using res nodots base False by (auto simp: has_dot_segment_def)
  qed
qed

theorem path_to_repo_path_clean_witness:
  "\<exists>s. path_to_repo_path [''proj''] [''proj'', ''sub'', ''..'', ''b.txt''] ''/site/'' = Inr s
       \<and> \<not> has_dot_segment s \<and> \<not> leading_slash s"
  using path_to_repo_path_clean[of "[''proj'', ''sub'', ''..'', ''b.txt'']" "[''proj'']" "[''sub'', ''..'', ''b.txt'']" "''/site/''"]
  by (simp add: wf_path_def wf_name_def relative_to_def strip_slash_def has_dot_segment_def)

text \<open>
  The segments of the remote base prefix are joined in as they are: a base \<open>..\<close> stays in
  the result.
\<close>

theorem path_to_repo_path_counterexample:
  "path_to_repo_path [''proj''] [''proj'', ''a.txt''] ''..'' = Inr ''../a.txt''
   \<and> has_dot_segment ''../a.txt''"
  by (simp add: path_to_repo_path_def relative_to_def strip_slash_def has_dot_segment_def)

text \<open>
  A base made of separators only passes the emptiness test and is stripped to the empty
  string afterwards, which the join turns into a leading separator.
\<close>

lemma path_to_repo_path_slash_base:
  "path_to_repo_path [''proj''] [''proj'', ''a.txt''] ''/'' = Inr ''/a.txt''
   \<and> leading_slash ''/a.txt''"
  by (simp add: path_to_repo_path_def relative_to_def strip_slash_def leading_slash_def)

section \<open>Properties of the local tree scanner\<close>

lemma rglob_set:
  "set (rglob p nd) = {(p @ rel, c) | rel c. rel \<noteq> [] \<and> c \<in> set (nodes_at nd rel)}"
proof (induction p nd rule: rglob.induct)
  case (1 p es)
  show ?case
  proof (rule set_eqI, rule iffI)
    fix x assume "x \<in> set (rglob p (Dir es))"
    then consider (here) e where "e \<in> set es" "x = (p @ [fst e], snd e)"
      | (deep) e where "e \<in> set es" "x \<in> set (rglob (p @ [fst e]) (snd e))"
      by auto
    then show "x \<in> {(p @ rel, c) | rel c. rel \<noteq> [] \<and> c \<in> set (nodes_at (Dir es) rel)}"
    proof cases
      case here
      then have "snd e \<in> set (nodes_at (Dir es) [fst e])" by force
      with here show ?thesis by blast
    next
      case deep
      with 1 obtain rel c where r: "x = ((p @ [fst e]) @ rel, c)" "rel \<noteq> []" "c \<in> set (nodes_at (snd e) rel)"
        by blast
      then have "c \<in> set (nodes_at (Dir es) (fst e # rel))" using deep(1) by force
      moreover have "x = (p @ (fst e # rel), c)" using r by simp
      ultimately show ?thesis by blast
    qed
  next
    fix x assume "x \<in> {(p @ rel, c) | rel c. rel \<noteq> [] \<and> c \<in> set (nodes_at (Dir es) rel)}"
    then obtain rel c where r: "x = (p @ rel, c)" "rel \<noteq> []" "c \<in> set (nodes_at (Dir es) rel)"
      by blast
    then obtain n rest where rel: "rel = n # rest" by (cases rel) auto
    with r obtain e where e: "e \<in> set es" "fst e = n" "c \<in> set (nodes_at (snd e) rest)"
      by (auto split: if_splits)
    show "x \<in> set (rglob p (Dir es))"
    proof (cases rest)
      case Nil
      with e r rel have "x = (p @ [fst e], snd e)" by simp
      with e(1) show ?thesis by force
    next
      case (Cons a as)
      with e r rel 1[OF e(1)] have "x \<in> set (rglob (p @ [fst e]) (snd e))" by force
      with e(1) show ?thesis by auto
    qed
  qed
next
  case (2 p)
  show ?case by (auto simp: neq_Nil_conv)
next
  case (3 p)
  show ?case by (auto simp: neq_Nil_conv)
qed

lemma gather_files_mem:
  "p \<in> set (gather_files_for_folder fs folder skip) \<longleftrightarrow>
     (p, File) \<in> set (case fs folder of None \<Rightarrow> [] | Some nd \<Rightarrow> rglob folder nd)
     \<and> (\<forall>part\<in>set (case skip of None \<Rightarrow> [] | Some s \<Rightarrow> s). part \<notin> set p)"
  by (force simp: gather_files_for_folder_def list_ex_iff)

lemma rglob_file_mem:
  "(p, File) \<in> set (rglob folder root) \<longleftrightarrow> (\<exists>rel. p = folder @ rel \<and> file_under root rel)"
  by (auto simp: rglob_set file_under_def)

text \<open>
  Claim C5. For every directory tree and ignore set, a path is in the output of
  \<open>gather_files_for_folder\<close> if and only if it is a regular file below the root and none
  of its path segments is a member of the ignore set; directories are never in the output.
  The segments tested are those of the path as \<open>rglob\<close> yields it, which starts with the
  segments of the folder itself.
\<close>

theorem gather_files_ignore:
  assumes "fs folder = Some root"
  shows "p \<in> set (gather_files_for_folder fs folder (Some ignore_set)) \<longleftrightarrow>
           (\<exists>rel. p = folder @ rel \<and> file_under root rel) \<and> \<not> (\<exists>s\<in>set p. s \<in> set ignore_set)"
  using assms by (auto simp: gather_files_mem rglob_file_mem)

theorem gather_files_ignore_witness:
  "[''proj'', ''sub'', ''b.txt''] \<in> set (gather_files_for_folder demo_fs [''proj''] (Some [''.git'']))
   \<and> [''proj'', ''.git'', ''config''] \<notin> set (gather_files_for_folder demo_fs [''proj''] (Some [''.git'']))
   \<and> [''proj'', ''sub''] \<notin> set (gather_files_for_folder demo_fs [''proj''] (Some [''.git'']))"
  using gather_files_ignore[of demo_fs "[''proj'']" demo_tree "[''proj'', ''sub'', ''b.txt'']" "[''.git'']"]
    gather_files_ignore[of demo_fs "[''proj'']" demo_tree "[''proj'', ''.git'', ''config'']" "[''.git'']"]
    gather_files_ignore[of demo_fs "[''proj'']" demo_tree "[''proj'', ''sub'']" "[''.git'']"]
  by (simp add: demo_fs_def demo_tree_def file_under_def)

section \<open>Properties of the remote content client\<close>

lemma api_request_eq:
  "transport env (remote w) (mk_request m ep tok pl) = (a, s') \<Longrightarrow>
   api_request env m ep tok pl w = (a, \<lparr>remote = s', sent = sent w @ [mk_request m ep tok pl]\<rparr>)"
  by (simp add: api_request_def)

lemma api_request_sent:
  "api_request env m ep tok pl w = (a, w') \<Longrightarrow> sent w' = sent w @ [mk_request m ep tok pl]"
  by (auto simp: api_request_def Let_def split: prod.splits)

lemma send_expect_returns:
  assumes "fst (api_request env m ep tok (Some pl) w) = Inr r" "usable r" "code = 200 \<or> code = 201"
  shows "\<exists>res. fst (send_expect env m ep tok pl code w) = Inr res"
  using assms
  by (cases "api_request env m ep tok (Some pl) w")
     (auto simp: send_expect_def usable_def resp_json_def json_or_status_def split: option.splits)

lemma api_usable:
  assumes "\<forall>req. \<exists>r. fst (transport env (remote w) req) = Inr r \<and> usable r"
  shows "\<exists>r w'. api_request env m ep tok pl w = (Inr r, w') \<and> usable r"
proof -
  obtain r where r: "fst (transport env (remote w) (mk_request m ep tok pl)) = Inr r" "usable r"
    using assms by blast
  then obtain s' where "transport env (remote w) (mk_request m ep tok pl) = (Inr r, s')"
    by (cases "transport env (remote w) (mk_request m ep tok pl)") auto
  then show ?thesis using r(2) by (simp add: api_request_eq)
qed

lemma send_expect_usable:
  assumes "api_request env m ep tok (Some pl) w = (Inr r, w')" "usable r" "code = 200 \<or> code = 201"
  shows "\<exists>res. send_expect env m ep tok pl code w = (Inr res, w')"
proof (cases "decoded r")
  case None
  with assms show ?thesis
    by (auto simp: send_expect_def usable_def resp_json_def json_or_status_def)
next
  case (Some j)
  with assms show ?thesis
    by (auto simp: send_expect_def resp_json_def json_or_status_def)
qed

lemma get_like_usable:
  assumes "usable r"
  shows "\<exists>res. (if status_code r = 200
          then (case resp_json r of Inl e \<Rightarrow> (Inl e, w') | Inr j \<Rightarrow> (Inr (True, j), w'))
          else (case resp_json r of
                  Inl e \<Rightarrow> (Inr (False, http_message r), w')
                | Inr j \<Rightarrow> (Inr (False, j), w'))) = (Inr res, w')"
  using assms by (cases "decoded r") (auto simp: usable_def resp_json_def)

lemma put_like_usable:
  assumes "usable r"
  shows "\<exists>res. (case json_or_status r of Inl e \<Rightarrow> (Inl e, w') | Inr j \<Rightarrow> (Inr (f r, j), w')) = (Inr res, w')"
  using assms by (cases "decoded r") (auto simp: usable_def resp_json_def json_or_status_def)

lemma get_repo_contents_usable:
  assumes "\<forall>req. \<exists>r. fst (transport env (remote w) req) = Inr r \<and> usable r"
  shows "\<exists>res. fst (get_repo_contents env tok owner repo pth branch w) = Inr res"
proof -
  obtain r w' where "api_request env ''GET'' (contents_endpoint env owner repo pth @ ''?ref='' @ branch) tok None w = (Inr r, w')" "usable r"
    using api_usable[OF assms] by blast
  then show ?thesis
    using get_like_usable[of r w'] by (auto simp: get_repo_contents_def)
qed

lemma get_ref_usable:
  assumes "\<forall>req. \<exists>r. fst (transport env (remote w) req) = Inr r \<and> usable r"
  shows "\<exists>res. fst (get_ref env tok owner repo branch w) = Inr res"
proof -
  obtain r w' where "api_request env ''GET'' (''/repos/'' @ owner @ ''/'' @ repo @ ''/git/ref/heads/'' @ branch) tok None w = (Inr r, w')" "usable r"
    using api_usable[OF assms] by blast
  then show ?thesis
    using get_like_usable[of r w'] by (auto simp: get_ref_def)
qed

lemma send_expect_usable':
  assumes "\<forall>req. \<exists>r. fst (transport env (remote w) req) = Inr r \<and> usable r" "code = 200 \<or> code = 201"
  shows "\<exists>res. fst (send_expect env m ep tok pl code w) = Inr res"
proof -
  obtain r w' where "api_request env m ep tok (Some pl) w = (Inr r, w')" "usable r"
    using api_usable[OF assms(1)] by blast
  then show ?thesis using send_expect_usable[OF _ _ assms(2)] by fastforce
qed

lemma create_or_update_file_usable:
  assumes "\<forall>req. \<exists>r. fst (transport env (remote w) req) = Inr r \<and> usable r"
  shows "\<exists>res. fst (create_or_update_file env tok owner repo file_path content_b64 message branch sha w) = Inr res"
proof -
  let ?ep = "''/repos/'' @ owner @ ''/'' @ repo @ ''/contents/'' @ file_path"
  let ?pl = "Some (JDict (with_sha [(''message'', JStr message), (''content'', JStr content_b64), (''branch'', JStr branch)] sha))"
  obtain r w' where "api_request env ''PUT'' ?ep tok ?pl w = (Inr r, w')" "usable r"
    using api_usable[OF assms] by blast
  then show ?thesis
    using put_like_usable[of r w' "\<lambda>r. status_code r = 200 \<or> status_code r = 201"]
    by (auto simp: create_or_update_file_def Let_def)
qed

lemma delete_file_usable:
  assumes "\<forall>req. \<exists>r. fst (transport env (remote w) req) = Inr r \<and> usable r"
  shows "\<exists>res. fst (delete_file env tok owner repo pth message branch sha w) = Inr res"
proof -
  let ?ep = "''/repos/'' @ owner @ ''/'' @ repo @ ''/contents/'' @ py_str env pth"
  let ?pl = "Some (JDict (with_sha [(''message'', JStr message), (''branch'', JStr branch)] sha))"
  obtain r w' where "api_request env ''DELETE'' ?ep tok ?pl w = (Inr r, w')" "usable r"
    using api_usable[OF assms] by blast
  then show ?thesis
    using put_like_usable[of r w' "\<lambda>r. status_code r = 200"]
    by (auto simp: delete_file_def Let_def)
qed

text \<open>
  Claim C2 (amended). When the transport answers every request with a response whose
  body decodes as JSON, or whose body is empty and whose status is neither 200 nor 201,
  \<open>api_request\<close> returns the response and each wrapper returns a pair of a success flag
  and data, whatever the status code.
\<close>

theorem client_returns_result:
  assumes ok: "\<forall>req. \<exists>r. fst (transport env (remote w) req) = Inr r
                 \<and> (decoded r = None \<longrightarrow> content r = [] \<and> status_code r \<noteq> 200 \<and> status_code r \<noteq> 201)"
  shows "(\<exists>r. fst (api_request env m ep tok pl w) = Inr r)
       \<and> (\<exists>res. fst (get_repo_contents env tok owner repo pth branch w) = Inr res)
       \<and> (\<exists>res. fst (get_ref env tok owner repo branch w) = Inr res)
       \<and> (\<exists>res. fst (create_blob env tok owner repo content_b64 encoding w) = Inr res)
       \<and> (\<exists>res. fst (create_tree env tok owner repo tree base_tree w) = Inr res)
       \<and> (\<exists>res. fst (create_commit env tok owner repo message tree_sha parents w) = Inr res)
       \<and> (\<exists>res. fst (update_ref env tok owner repo branch commit_sha force w) = Inr res)
       \<and> (\<exists>res. fst (create_or_update_file env tok owner repo file_path content_b64 message branch sha w) = Inr res)
       \<and> (\<exists>res. fst (delete_file env tok owner repo pth message branch sha w) = Inr res)"
proof -
  from ok have u: "\<forall>req. \<exists>r. fst (transport env (remote w) req) = Inr r \<and> usable r"
    by (simp add: usable_def)
  have 1: "\<exists>r. fst (api_request env m ep tok pl w) = Inr r"
    using api_usable[OF u, of m ep tok pl] by fastforce
  have 4: "\<exists>res. fst (create_blob env tok owner repo content_b64 encoding w) = Inr res"
    unfolding create_blob_def by (rule send_expect_usable'[OF u]) simp
  have 5: "\<exists>res. fst (create_tree env tok owner repo tree base_tree w) = Inr res"
    unfolding create_tree_def by (rule send_expect_usable'[OF u]) simp
  have 6: "\<exists>res. fst (create_commit env tok owner repo message tree_sha parents w) = Inr res"
    unfolding create_commit_def by (rule send_expect_usable'[OF u]) simp
  have 7: "\<exists>res. fst (update_ref env tok owner repo branch commit_sha force w) = Inr res"
    unfolding update_ref_def by (rule send_expect_usable'[OF u]) simp
  show ?thesis
    using 1 get_repo_contents_usable[OF u] get_ref_usable[OF u] 4 5 6 7
      create_or_update_file_usable[OF u] delete_file_usable[OF u]
    by (intro conjI) 
qed

lemmas demo_defs = demo_env_def demo_cfg_def start_def answer_def scripted_transport_def

theorem client_returns_result_witness:
  "(\<exists>r. fst (api_request demo_env ''GET'' ''/user'' ''t0ken'' None
            (start (JStr ''c0'') [answer 404 (JDict [(''message'', JStr ''Not Found'')])])) = Inr r)
   \<and> (\<exists>res. fst (get_ref demo_env ''t0ken'' ''me'' ''site'' ''main''
            (start (JStr ''c0'') [answer 404 (JDict [(''message'', JStr ''Not Found'')])])) = Inr res)
   \<and> (\<exists>res. fst (create_blob demo_env ''t0ken'' ''me'' ''site'' ''YWxwaGE='' ''base64''
            (start (JStr ''c0'') [answer 404 (JDict [(''message'', JStr ''Not Found'')])])) = Inr res)"
  using client_returns_result[of demo_env
      "start (JStr ''c0'') [answer 404 (JDict [(''message'', JStr ''Not Found'')])]"
      "''GET''" "''/user''" "''t0ken''" None "''me''" "''site''" JNull "''main''" "''YWxwaGE=''" "''base64''"]
  by (simp add: demo_defs)

text \<open>
  \<open>api_request\<close> has no handler around \<open>requests.request\<close>: an exception raised by
  the transport leaves \<open>api_request\<close> and the wrapper that called it.
\<close>

theorem client_raises_counterexample:
  "fst (api_request demo_env ''GET'' ''/user'' ''t0ken'' None
          (start (JStr ''c0'') [Inl (ConnectionError ''timed out'')])) = Inl (ConnectionError ''timed out'')
   \<and> fst (get_ref demo_env ''t0ken'' ''me'' ''site'' ''main''
          (start (JStr ''c0'') [Inl (ConnectionError ''timed out'')])) = Inl (ConnectionError ''timed out'')"
  by (simp add: demo_defs api_request_def get_ref_def)

lemma get_repo_contents_sent:
  "get_repo_contents env tok owner repo pth branch w = (res, w1) \<Longrightarrow>
   sent w1 = sent w @ [mk_request ''GET'' (contents_endpoint env owner repo pth @ ''?ref='' @ branch) tok None]"
  by (cases "api_request env ''GET'' (contents_endpoint env owner repo pth @ ''?ref='' @ branch) tok None w")
     (auto simp: get_repo_contents_def dest: api_request_sent split: sum.splits if_splits)

lemma get_file_sha_sent:
  "get_file_sha env tok owner repo pth branch w = (res, w1) \<Longrightarrow>
   sent w1 = sent w @ [mk_request ''GET'' (contents_endpoint env owner repo pth @ ''?ref='' @ branch) tok None]"
  by (cases "get_repo_contents env tok owner repo pth branch w")
     (auto simp: get_file_sha_def dest: get_repo_contents_sent split: sum.splits if_splits prod.splits)

lemma get_repo_contents_answer:
  assumes "transport env (remote w) (mk_request ''GET'' (contents_endpoint env owner repo pth @ ''?ref='' @ branch) tok None) = (Inr r, s')"
  shows "get_repo_contents env tok owner repo pth branch w =
           (if status_code r = 200
            then (case resp_json r of Inl e \<Rightarrow> Inl e | Inr j \<Rightarrow> Inr (True, j))
            else (case resp_json r of Inl e \<Rightarrow> Inr (False, http_message r) | Inr j \<Rightarrow> Inr (False, j)),
            \<lparr>remote = s', sent = sent w @ [mk_request ''GET'' (contents_endpoint env owner repo pth @ ''?ref='' @ branch) tok None]\<rparr>)"
  using api_request_eq[OF assms]
  by (simp add: get_repo_contents_def split: sum.splits)

lemma get_file_sha_absent:
  assumes "transport env (remote w) (mk_request ''GET'' (contents_endpoint env owner repo pth @ ''?ref='' @ branch) tok None) = (Inr r, s')"
    and "status_code r \<noteq> 200 \<or> (\<exists>j. decoded r = Some j \<and> \<not> is_dict j)"
  shows "get_file_sha env tok owner repo pth branch w =
           (Inr JNull, \<lparr>remote = s', sent = sent w @ [mk_request ''GET'' (contents_endpoint env owner repo pth @ ''?ref='' @ branch) tok None]\<rparr>)"
  using assms(2)
  by (auto simp: get_file_sha_def get_repo_contents_answer[OF assms(1)] resp_json_def split: option.splits)

section \<open>Properties of the watch handler\<close>

lemma delete_file_sent:
  "delete_file env tok owner repo pth message branch sha w = (res, w2) \<Longrightarrow>
   sent w2 = sent w @ [mk_request ''DELETE'' (''/repos/'' @ owner @ ''/'' @ repo @ ''/contents/'' @ py_str env pth) tok
                         (Some (JDict (with_sha [(''message'', JStr message), (''branch'', JStr branch)] sha)))]"
  by (cases "api_request env ''DELETE'' (''/repos/'' @ owner @ ''/'' @ repo @ ''/contents/'' @ py_str env pth) tok
                         (Some (JDict (with_sha [(''message'', JStr message), (''branch'', JStr branch)] sha))) w")
     (auto simp: delete_file_def Let_def dest: api_request_sent split: sum.splits)

text \<open>
  In the watch handler a rejected lookup is reported as a file that is not in the
  repository, and nothing is deleted.
\<close>

lemma on_deleted_lookup_failed:
  assumes "\<not> is_directory event" "\<not> is_ignored h (src_path event)"
    and "repo_path_of h (src_path event) = Inr rp"
    and "transport env (remote w) (mk_request ''GET''
           (contents_endpoint env (h_owner h) (h_repo h) (JStr rp) @ ''?ref='' @ h_pages_branch h) (h_token h) None) = (Inr r, s')"
    and "status_code r \<noteq> 200 \<or> (\<exists>j. decoded r = Some j \<and> \<not> is_dict j)"
  shows "on_deleted env h event w =
           (NotInRepo rp, \<lparr>remote = s', sent = sent w @ [mk_request ''GET''
              (contents_endpoint env (h_owner h) (h_repo h) (JStr rp) @ ''?ref='' @ h_pages_branch h) (h_token h) None]\<rparr>)"
  using assms(1-3) by (simp add: on_deleted_def get_file_sha_absent[OF assms(4,5)])

text \<open>
  Claim C7. For an event that is not a directory event, whose path is not ignored and
  lies under the watched root, \<open>on_deleted\<close> first sends the lookup of the mapped remote
  path. If the lookup raised, the handler reports the error and sends nothing more; if it
  returned no token (\<open>None\<close> or an empty value), the handler reports that the file is not
  in the repository and sends nothing more; otherwise the next and last request is the
  \<open>DELETE\<close> of that path, carrying the token the lookup just returned.
\<close>

theorem on_deleted_fresh_token:
  assumes "\<not> is_directory event" "\<not> is_ignored h (src_path event)"
    and "repo_path_of h (src_path event) = Inr rp"
    and "get_file_sha env (h_token h) (h_owner h) (h_repo h) (JStr rp) (h_pages_branch h) w = (looked_up, w1)"
    and "on_deleted env h event w = (out, w2)"
  shows "sent w1 = sent w @ [mk_request ''GET''
            (contents_endpoint env (h_owner h) (h_repo h) (JStr rp) @ ''?ref='' @ h_pages_branch h) (h_token h) None]
       \<and> (case looked_up of
             Inl e \<Rightarrow> out = HandlerError e \<and> w2 = w1
           | Inr sha \<Rightarrow>
               if \<not> truthy sha then out = NotInRepo rp \<and> w2 = w1
               else sent w2 = sent w1 @ [mk_request ''DELETE''
                      (''/repos/'' @ h_owner h @ ''/'' @ h_repo h @ ''/contents/'' @ rp) (h_token h)
                      (Some (JDict [(''message'', JStr (''Auto-sync delete '' @ rp)),
                                    (''branch'', JStr (h_pages_branch h)), (''sha'', sha)]))])"
proof
  show "sent w1 = sent w @ [mk_request ''GET''
            (contents_endpoint env (h_owner h) (h_repo h) (JStr rp) @ ''?ref='' @ h_pages_branch h) (h_token h) None]"
    using get_file_sha_sent[OF assms(4)] .
next
  show "case looked_up of
             Inl e \<Rightarrow> out = HandlerError e \<and> w2 = w1
           | Inr sha \<Rightarrow>
               if \<not> truthy sha then out = NotInRepo rp \<and> w2 = w1
               else sent w2 = sent w1 @ [mk_request ''DELETE''
                      (''/repos/'' @ h_owner h @ ''/'' @ h_repo h @ ''/contents/'' @ rp) (h_token h)
                      (Some (JDict [(''message'', JStr (''Auto-sync delete '' @ rp)),
                                    (''branch'', JStr (h_pages_branch h)), (''sha'', sha)]))]"
  proof (cases looked_up)
    case (Inl e)
    then show ?thesis using assms by (simp add: on_deleted_def)
  next
    case (Inr sha)
    show ?thesis
    proof (cases "truthy sha")
      case False
      then show ?thesis using assms Inr by (simp add: on_deleted_def)
    next
      case True
      obtain res w3 where d: "delete_file env (h_token h) (h_owner h) (h_repo h) (JStr rp)
                                 (''Auto-sync delete '' @ rp) (h_pages_branch h) sha w1 = (res, w3)"
        by (cases "delete_file env (h_token h) (h_owner h) (h_repo h) (JStr rp)
                                 (''Auto-sync delete '' @ rp) (h_pages_branch h) sha w1") auto
      have "w2 = w3" using assms Inr True d
        by (auto simp: on_deleted_def split: sum.splits if_splits prod.splits)
      then show ?thesis using delete_file_sent[OF d] Inr True
        by (simp add: with_sha_def py_str_def)
    qed
  qed
qed

lemmas handler_defs = demo_handler_def demo_deleted_def SyncEventHandler_def is_ignored_def repo_path_of_def
  relative_to_def strip_slash_def file_entry_def

theorem on_deleted_fresh_token_witness:
  "\<not> is_directory demo_deleted \<and> \<not> is_ignored demo_handler (src_path demo_deleted)
   \<and> repo_path_of demo_handler (src_path demo_deleted) = Inr ''docs/sub/b.txt''
   \<and> sent (snd (on_deleted demo_env demo_handler demo_deleted
          (start (JStr ''c0'') [answer 200 (file_entry ''docs/sub/b.txt'' ''b2''), answer 200 (JDict [])])))
       = [mk_request ''GET'' ''/repos/me/site/contents/docs/sub/b.txt?ref=gh-pages'' ''t0ken'' None,
          mk_request ''DELETE'' ''/repos/me/site/contents/docs/sub/b.txt'' ''t0ken''
            (Some (JDict [(''message'', JStr ''Auto-sync delete docs/sub/b.txt''),
                          (''branch'', JStr ''gh-pages''), (''sha'', JStr ''b2'')]))]
   \<and> on_deleted demo_env demo_handler demo_deleted
          (start (JStr ''c0'') [answer 404 (JDict [(''message'', JStr ''Not Found'')]), answer 200 (JDict [])])
       = (NotInRepo ''docs/sub/b.txt'',
          \<lparr>remote = (JStr ''c0'', [answer 200 (JDict [])]),
            sent = [mk_request ''GET'' ''/repos/me/site/contents/docs/sub/b.txt?ref=gh-pages'' ''t0ken'' None]\<rparr>)"
proof -
  let ?w = "start (JStr ''c0'') [answer 200 (file_entry ''docs/sub/b.txt'' ''b2''), answer 200 (JDict [])]"
  let ?v = "start (JStr ''c0'') [answer 404 (JDict [(''message'', JStr ''Not Found'')]), answer 200 (JDict [])]"
  have pre: "\<not> is_directory demo_deleted" "\<not> is_ignored demo_handler (src_path demo_deleted)"
    "repo_path_of demo_handler (src_path demo_deleted) = Inr ''docs/sub/b.txt''"
    by (simp_all add: handler_defs demo_cfg_def)
  have lw: "get_file_sha demo_env (h_token demo_handler) (h_owner demo_handler) (h_repo demo_handler)
              (JStr ''docs/sub/b.txt'') (h_pages_branch demo_handler) ?w
            = (Inr (JStr ''b2''),
               \<lparr>remote = (JStr ''c0'', [answer 200 (JDict [])]),
                 sent = [mk_request ''GET'' ''/repos/me/site/contents/docs/sub/b.txt?ref=gh-pages'' ''t0ken'' None]\<rparr>)"
    by (simp add: get_file_sha_def get_repo_contents_def api_request_def contents_endpoint_def py_str_def
          resp_json_def handler_defs demo_defs mk_request_def)
  have lv: "get_file_sha demo_env (h_token demo_handler) (h_owner demo_handler) (h_repo demo_handler)
              (JStr ''docs/sub/b.txt'') (h_pages_branch demo_handler) ?v
            = (Inr JNull,
               \<lparr>remote = (JStr ''c0'', [answer 200 (JDict [])]),
                 sent = [mk_request ''GET'' ''/repos/me/site/contents/docs/sub/b.txt?ref=gh-pages'' ''t0ken'' None]\<rparr>)"
    by (simp add: get_file_sha_def get_repo_contents_def api_request_def contents_endpoint_def py_str_def
          resp_json_def handler_defs demo_defs mk_request_def)
  have a: "sent (snd (on_deleted demo_env demo_handler demo_deleted ?w))
       = [mk_request ''GET'' ''/repos/me/site/contents/docs/sub/b.txt?ref=gh-pages'' ''t0ken'' None,
          mk_request ''DELETE'' ''/repos/me/site/contents/docs/sub/b.txt'' ''t0ken''
            (Some (JDict [(''message'', JStr ''Auto-sync delete docs/sub/b.txt''),
                          (''branch'', JStr ''gh-pages''), (''sha'', JStr ''b2'')]))]"
    using on_deleted_fresh_token[OF pre lw, of "fst (on_deleted demo_env demo_handler demo_deleted ?w)"
            "snd (on_deleted demo_env demo_handler demo_deleted ?w)"]
    by (simp add: handler_defs demo_cfg_def)
  have b: "on_deleted demo_env demo_handler demo_deleted ?v
       = (NotInRepo ''docs/sub/b.txt'',
          \<lparr>remote = (JStr ''c0'', [answer 200 (JDict [])]),
            sent = [mk_request ''GET'' ''/repos/me/site/contents/docs/sub/b.txt?ref=gh-pages'' ''t0ken'' None]\<rparr>)"
    using on_deleted_fresh_token[OF pre lv, of "fst (on_deleted demo_env demo_handler demo_deleted ?v)"
            "snd (on_deleted demo_env demo_handler demo_deleted ?v)"]
    by (simp add: prod_eq_iff)
  from pre a b show ?thesis by simp
qed

section \<open>Properties of the folder upload\<close>

lemma commit_batch_not_NoFiles: "fst (commit_batch env c message tree_entries w) \<noteq> Inr NoFiles"
  by (simp add: commit_batch_def split: prod.splits sum.splits)

text \<open>
  Claim C8. When the local folder exists and the scan yields no file, the folder upload
  ends with the outcome \<open>NoFiles\<close> and the world is the one it started in: no request
  was sent and the remote is unchanged, in either mode. No other run of the operation
  ends with that outcome.
\<close>

theorem empty_folder_no_calls:
  assumes "is_dir (local_fs env) local_folder"
  shows "(gather_files_for_folder (local_fs env) local_folder None = [] \<longrightarrow>
            op_upload_folder env c local_folder mode target_repo_base message w = (Inr NoFiles, w))
       \<and> (fst (op_upload_folder env c local_folder mode target_repo_base message w) = Inr NoFiles \<longrightarrow>
            gather_files_for_folder (local_fs env) local_folder None = [])"
  using assms commit_batch_not_NoFiles[of env c message]
  by (auto simp: op_upload_folder_def Let_def split: prod.splits sum.splits if_splits)

theorem empty_folder_no_calls_witness:
  "is_dir (local_fs demo_env) [''empty'']
   \<and> gather_files_for_folder (local_fs demo_env) [''empty''] None = []
   \<and> op_upload_folder demo_env demo_cfg [''empty''] ''2'' [] ''first upload'' (start (JStr ''c0'') [])
       = (Inr NoFiles, start (JStr ''c0'') [])
   \<and> fst (op_upload_folder demo_env demo_cfg [''empty''] ''2'' [] ''first upload'' (start (JStr ''c0'') []))
       = Inr NoFiles"
  using empty_folder_no_calls[of demo_env "[''empty'']" demo_cfg "''2''" "[]" "''first upload''"
                                  "start (JStr ''c0'') []"]
  by (simp add: demo_env_def demo_fs_def is_dir_def gather_files_for_folder_def)

lemma blob_step_sync_ignore:
  "blob_step env (c\<lparr>cfg_sync_ignore := i\<rparr>) local_folder base f w = blob_step env c local_folder base f w"
  by (simp add: blob_step_def cong: sum.case_cong prod.case_cong)

lemma create_blobs_sync_ignore:
  "create_blobs env (c\<lparr>cfg_sync_ignore := i\<rparr>) local_folder base files tree_entries failures w
   = create_blobs env c local_folder base files tree_entries failures w"
  by (induction files arbitrary: tree_entries failures w) (simp_all add: blob_step_sync_ignore cong: sum.case_cong prod.case_cong)

lemma upload_each_sync_ignore:
  "upload_each env (c\<lparr>cfg_sync_ignore := i\<rparr>) local_folder base msg files successes failures w
   = upload_each env c local_folder base msg files successes failures w"
  by (induction files arbitrary: successes failures w) (simp_all split: sum.splits prod.splits)

lemma commit_batch_sync_ignore:
  "commit_batch env (c\<lparr>cfg_sync_ignore := i\<rparr>) msg tree_entries w = commit_batch env c msg tree_entries w"
  by (simp add: commit_batch_def commit_endpoint_def cong: sum.case_cong prod.case_cong if_cong)

lemma op_upload_folder_sync_ignore:
  "op_upload_folder env (c\<lparr>cfg_sync_ignore := i\<rparr>) local_folder mode base msg w
   = op_upload_folder env c local_folder mode base msg w"
  by (simp add: op_upload_folder_def create_blobs_sync_ignore upload_each_sync_ignore commit_batch_sync_ignore cong: sum.case_cong prod.case_cong if_cong)

lemma pages_upload_each_sync_ignore:
  "pages_upload_each env (c\<lparr>cfg_sync_ignore := i\<rparr>) pages_branch local_folder base msg files fails w
   = pages_upload_each env c pages_branch local_folder base msg files fails w"
  by (induction files arbitrary: fails w) (simp_all split: sum.splits prod.splits)

lemma pages_add_sync_ignore:
  "pages_add_file_or_folder env (c\<lparr>cfg_sync_ignore := i\<rparr>) pages_branch choice local_path target msg w
   = pages_add_file_or_folder env c pages_branch choice local_path target msg w"
  by (simp add: pages_add_file_or_folder_def ensure_pages_branch_def pages_upload_each_sync_ignore cong: sum.case_cong prod.case_cong if_cong bool.case_cong)

lemma gather_files_all:
  assumes "fs folder = Some root"
  shows "p \<in> set (gather_files_for_folder fs folder None) \<longleftrightarrow> (\<exists>rel. p = folder @ rel \<and> file_under root rel)"
  using assms by (simp add: gather_files_mem rglob_file_mem)

lemma after_append: "after env w (xs @ ys) = after env (after env w xs) ys"
  by (induction xs arbitrary: w) simp_all

lemma after_sent: "sent (after env w reqs) = sent w @ reqs"
  by (induction reqs arbitrary: w) simp_all

lemma after_head:
  assumes "\<forall>s. \<forall>req\<in>set reqs. head_of (snd (transport env s req)) = head_of s"
  shows "head_of (remote (after env w reqs)) = head_of (remote w)"
  using assms by (induction reqs arbitrary: w) simp_all

lemma api_request_after:
  "api_request env m ep tok pl w = (a, w') \<Longrightarrow> w' = after env w [mk_request m ep tok pl]"
  by (auto simp: api_request_def Let_def split: prod.splits)

lemma send_expect_after:
  "send_expect env m ep tok pl code w = (a, w') \<Longrightarrow> w' = after env w [mk_request m ep tok (Some pl)]"
  by (cases "api_request env m ep tok (Some pl) w")
     (auto simp: send_expect_def dest!: api_request_after split: sum.splits if_splits)

lemma blob_step_after:
  assumes "blob_step env c local_folder base f w = (res, w')"
  shows "w' = w \<or> (\<exists>b. w' = after env w [blob_request c b])"
proof (cases "read_bytes env f")
  case (Inl e)
  with assms show ?thesis by (simp add: blob_step_def)
next
  case (Inr bytes_data)
  obtain a w1 where cb: "create_blob env (cfg_token c) (cfg_owner c) (cfg_repo c) (b64encode env bytes_data) ''base64'' w = (a, w1)"
    by (cases "create_blob env (cfg_token c) (cfg_owner c) (cfg_repo c) (b64encode env bytes_data) ''base64'' w") auto
  then have "w1 = after env w [blob_request c (b64encode env bytes_data)]"
    unfolding create_blob_def blob_request_def by (rule send_expect_after)
  moreover have "w' = w1"
    using assms Inr cb by (auto simp: blob_step_def split: sum.splits if_splits prod.splits)
  ultimately show ?thesis by blast
qed

lemma create_blobs_after:
  "create_blobs env c local_folder base files tree_entries failures w = (tree_entries', failures', w') \<Longrightarrow>
   \<exists>bs. w' = after env w (map (blob_request c) bs)"
proof (induction files arbitrary: tree_entries failures w)
  case Nil
  then have "w' = after env w (map (blob_request c) [])" by simp
  then show ?case by blast
next
  case (Cons f files)
  obtain res w1 where st: "blob_step env c local_folder base f w = (res, w1)"
    by (cases "blob_step env c local_folder base f w") auto
  from Cons.prems st obtain te fl
    where rest: "create_blobs env c local_folder base files te fl w1 = (tree_entries', failures', w')"
    by (cases res) auto
  from Cons.IH[OF rest] obtain bs where bs: "w' = after env w1 (map (blob_request c) bs)" by blast
  from blob_step_after[OF st] show ?case
  proof
    assume "w1 = w"
    with bs show ?thesis by blast
  next
    assume "\<exists>b. w1 = after env w [blob_request c b]"
    then obtain b where "w1 = after env w [blob_request c b]" by blast
    with bs have "w' = after env w (map (blob_request c) (b # bs))" by simp
    then show ?thesis by blast
  qed
qed

lemma create_blobs_append:
  "create_blobs env c local_folder base (xs @ ys) tree_entries failures w =
     (case create_blobs env c local_folder base xs tree_entries failures w of
        (te, fl, w1) \<Rightarrow> create_blobs env c local_folder base ys te fl w1)"
  by (induction xs arbitrary: tree_entries failures w) (simp_all split: prod.splits sum.splits)

lemma create_blobs_keeps_failures:
  "create_blobs env c local_folder base files tree_entries failures w = (tree_entries', failures', w') \<Longrightarrow>
   set failures \<subseteq> set failures'"
proof (induction files arbitrary: tree_entries failures w)
  case Nil
  then show ?case by simp
next
  case (Cons f files)
  obtain res w1 where st: "blob_step env c local_folder base f w = (res, w1)"
    by (cases "blob_step env c local_folder base f w") auto
  show ?case
  proof (cases res)
    case (Inl r)
    with Cons.prems st have "create_blobs env c local_folder base files tree_entries (failures @ [(f, r)]) w1
                               = (tree_entries', failures', w')" by simp
    from Cons.IH[OF this] show ?thesis by simp
  next
    case (Inr entry)
    with Cons.prems st have "create_blobs env c local_folder base files (tree_entries @ [entry]) failures w1
                               = (tree_entries', failures', w')" by simp
    from Cons.IH[OF this] show ?thesis .
  qed
qed

lemma create_blobs_accounts:
  "create_blobs env c local_folder base files tree_entries failures w = (tree_entries', failures', w') \<Longrightarrow>
   length tree_entries' + length failures' = length tree_entries + length failures + length files"
proof (induction files arbitrary: tree_entries failures w)
  case Nil
  then show ?case by simp
next
  case (Cons f files)
  obtain res w1 where st: "blob_step env c local_folder base f w = (res, w1)"
    by (cases "blob_step env c local_folder base f w") auto
  show ?case
  proof (cases res)
    case (Inl r)
    with Cons.prems st have "create_blobs env c local_folder base files tree_entries (failures @ [(f, r)]) w1
                               = (tree_entries', failures', w')" by simp
    from Cons.IH[OF this] show ?thesis by simp
  next
    case (Inr entry)
    with Cons.prems st have "create_blobs env c local_folder base files (tree_entries @ [entry]) failures w1
                               = (tree_entries', failures', w')" by simp
    from Cons.IH[OF this] show ?thesis by simp
  qed
qed

lemma create_blobs_reports:
  assumes run: "create_blobs env c local_folder base (before @ f # later) [] [] w = (tree_entries, failures, w1)"
    and reached: "create_blobs env c local_folder base before [] [] w = (te0, fl0, w0)"
    and fails: "blob_step env c local_folder base f w0 = (Inl reason, w0')"
  shows "(f, reason) \<in> set failures"
proof -
  have "create_blobs env c local_folder base (f # later) te0 fl0 w0 = (tree_entries, failures, w1)"
    using run reached by (simp add: create_blobs_append)
  then have "create_blobs env c local_folder base later te0 (fl0 @ [(f, reason)]) w0' = (tree_entries, failures, w1)"
    using fails by simp
  from create_blobs_keeps_failures[OF this] show ?thesis by auto
qed

lemma blob_step_read_fails:
  "read_bytes env f = Inl e \<Longrightarrow> blob_step env c local_folder base f w = (Inl (Raised e), w)"
  by (simp add: blob_step_def)

lemma blob_step_refused:
  "read_bytes env f = Inr bytes_data \<Longrightarrow>
   create_blob env (cfg_token c) (cfg_owner c) (cfg_repo c) (b64encode env bytes_data) ''base64'' w
     = (Inr (False, resp), w') \<Longrightarrow>
   blob_step env c local_folder base f w = (Inl (Refused resp), w')"
  by (simp add: blob_step_def)

lemma blob_step_raised:
  "read_bytes env f = Inr bytes_data \<Longrightarrow>
   create_blob env (cfg_token c) (cfg_owner c) (cfg_repo c) (b64encode env bytes_data) ''base64'' w
     = (Inl e, w') \<Longrightarrow>
   blob_step env c local_folder base f w = (Inl (Raised e), w')"
  by (simp add: blob_step_def)

text \<open>
  Claim C1. In the single-commit mode, if the step of any file fails (reading its bytes
  raises, the blob request raises or is refused, or anything else in the step raises),
  the operation ends with the outcome \<open>BlobsFailed\<close>, whose list holds that file with its
  reason; the requests it sent are blob creations only, so no \<open>getRef\<close>, \<open>createTree\<close>,
  \<open>createCommit\<close> or \<open>updateRef\<close> was made; and, on a remote where creating a blob does
  not move the branch head, the head is the one the operation started with.
\<close>

theorem batch_atomicity:
  fixes head_of :: "'r \<Rightarrow> 'h"
  assumes folder: "is_dir (local_fs env) local_folder" and batch: "mode \<noteq> ''1''"
    and files: "gather_files_for_folder (local_fs env) local_folder None = before @ f # later"
    and reached: "create_blobs env c local_folder base before [] [] w = (te0, fl0, w0)"
    and fails: "blob_step env c local_folder base f w0 = (Inl reason, w0')"
    and quiet: "\<forall>s b. head_of (snd (transport env s (blob_request c b))) = head_of s"
  shows "\<exists>failures w1 bs.
           op_upload_folder env c local_folder mode base msg w = (Inr (BlobsFailed failures), w1)
         \<and> (f, reason) \<in> set failures
         \<and> sent w1 = sent w @ map (blob_request c) bs
         \<and> head_of (remote w1) = head_of (remote w)"
proof -
  obtain tree_entries failures w1
    where run: "create_blobs env c local_folder base (before @ f # later) [] [] w = (tree_entries, failures, w1)"
    by (cases "create_blobs env c local_folder base (before @ f # later) [] [] w") auto
  have rep: "(f, reason) \<in> set failures"
    using create_blobs_reports[OF run reached fails] .
  then have ne: "failures \<noteq> []" by auto
  have out: "op_upload_folder env c local_folder mode base msg w = (Inr (BlobsFailed failures), w1)"
    using folder batch files run ne by (simp add: op_upload_folder_def)
  obtain bs where bs: "w1 = after env w (map (blob_request c) bs)"
    using create_blobs_after[OF run] by blast
  have "sent w1 = sent w @ map (blob_request c) bs"
    using bs by (simp add: after_sent)
  moreover have "head_of (remote w1) = head_of (remote w)"
    unfolding bs using quiet by (intro after_head) auto
  ultimately show ?thesis using out rep by blast
qed

theorem batch_atomicity_witness:
  "\<exists>failures w1 bs.
      op_upload_folder demo_env demo_cfg [''proj''] ''2'' [] ''first upload''
        (start (JStr ''c0'') [answer 201 (sha_object ''b1''), answer 500 (JDict [(''message'', JStr ''Server Error'')]),
                            answer 201 (sha_object ''b3'')])
        = (Inr (BlobsFailed failures), w1)
    \<and> ([''proj'', ''.git'', ''config''], Refused (JDict [(''message'', JStr ''Server Error'')])) \<in> set failures
    \<and> sent w1 = [] @ map (blob_request demo_cfg) bs
    \<and> fst (remote w1) = JStr ''c0''"
proof -
  let ?w = "start (JStr ''c0'') [answer 201 (sha_object ''b1''), answer 500 (JDict [(''message'', JStr ''Server Error'')]),
                            answer 201 (sha_object ''b3'')]"
  have folder: "is_dir (local_fs demo_env) [''proj'']"
    by (simp add: demo_env_def demo_fs_def demo_tree_def is_dir_def)
  have files: "gather_files_for_folder (local_fs demo_env) [''proj''] None
                 = [[''proj'', ''a.txt'']] @ [''proj'', ''.git'', ''config''] # [[''proj'', ''sub'', ''b.txt'']]"
    by (simp add: demo_env_def demo_fs_def demo_tree_def gather_files_for_folder_def)
  have reached: "create_blobs demo_env demo_cfg [''proj''] [] [[''proj'', ''a.txt'']] [] [] ?w
                 = ([tree_entry ''a.txt'' (JStr ''b1'')], [],
                    \<lparr>remote = (JStr ''c0'', [answer 500 (JDict [(''message'', JStr ''Server Error'')]),
                                                 answer 201 (sha_object ''b3'')]),
                      sent = [blob_request demo_cfg ''alpha'']\<rparr>)"
    by (simp add: blob_step_def create_blob_def send_expect_def api_request_def blob_request_def
          resp_json_def path_to_repo_path_def relative_to_def demo_defs demo_read_def sha_object_def mk_request_def)
  have fails: "blob_step demo_env demo_cfg [''proj''] [] [''proj'', ''.git'', ''config'']
                 \<lparr>remote = (JStr ''c0'', [answer 500 (JDict [(''message'', JStr ''Server Error'')]),
                                              answer 201 (sha_object ''b3'')]),
                   sent = [blob_request demo_cfg ''alpha'']\<rparr>
               = (Inl (Refused (JDict [(''message'', JStr ''Server Error'')])),
                  \<lparr>remote = (JStr ''c0'', [answer 201 (sha_object ''b3'')]),
                    sent = [blob_request demo_cfg ''alpha'', blob_request demo_cfg ''gamma'']\<rparr>)"
    by (simp add: blob_step_def create_blob_def send_expect_def api_request_def blob_request_def
          resp_json_def json_or_status_def demo_defs demo_read_def sha_object_def mk_request_def)
  have quiet: "\<forall>s b. fst (snd (transport demo_env s (blob_request demo_cfg b))) = fst s"
    by (simp add: demo_env_def scripted_transport_def blob_request_def mk_request_def
          split: list.splits sum.splits)
  have "(''2''::string) \<noteq> ''1''" by simp
  from batch_atomicity[OF folder this files reached fails quiet, of "''first upload''"]
  show ?thesis by (simp add: start_def)
qed

lemma get_ref_after:
  "get_ref env (cfg_token c) (cfg_owner c) (cfg_repo c) (cfg_branch c) w = (a, w1) \<Longrightarrow>
   w1 = after env w [ref_request c]"
  unfolding ref_request_def
  by (cases "api_request env ''GET'' (''/repos/'' @ cfg_owner c @ ''/'' @ cfg_repo c @ ''/git/ref/heads/'' @ cfg_branch c) (cfg_token c) None w")
     (auto simp: get_ref_def dest!: api_request_after split: sum.splits if_splits)

lemma get_ref_ok:
  "get_ref env (cfg_token c) (cfg_owner c) (cfg_repo c) (cfg_branch c) w = (Inr (True, ref_data), w1) \<Longrightarrow>
   \<exists>r. fst (transport env (remote w) (ref_request c)) = Inr r \<and> status_code r = 200 \<and> decoded r = Some ref_data"
  unfolding ref_request_def
  by (auto simp: get_ref_def api_request_def Let_def resp_json_def split: prod.splits sum.splits if_splits option.splits)

lemma api_request_fst:
  "api_request env m ep tok pl w = (a, w') \<Longrightarrow> fst (transport env (remote w) (mk_request m ep tok pl)) = a"
  by (auto simp: api_request_def Let_def split: prod.splits)

lemma py_index2_Inr:
  assumes "py_index2 j k1 k2 = Inr v"
  shows "\<exists>d1 d2. j = JDict d1 \<and> map_of d1 k1 = Some (JDict d2) \<and> map_of d2 k2 = Some v"
proof (cases j)
  case (JDict d1)
  show ?thesis
  proof (cases "map_of d1 k1")
    case None
    then show ?thesis using assms JDict by (simp add: py_index2_def)
  next
    case (Some x)
    then have "py_index x k2 = Inr v" using assms JDict by (simp add: py_index2_def)
    then obtain d2 where "x = JDict d2" "map_of d2 k2 = Some v"
      by (cases x) (auto split: option.splits)
    then show ?thesis using JDict Some by simp
  qed
qed (use assms in \<open>simp_all add: py_index2_def\<close>)

lemma batch_prefixes:
  "take (Suc 0) (batch_requests env c msg es bc bt nt nc) = [ref_request c]"
  "take 2 (batch_requests env c msg es bc bt nt nc) = [ref_request c, commit_lookup_request env c bc]"
  "take 3 (batch_requests env c msg es bc bt nt nc)
     = [ref_request c, commit_lookup_request env c bc, tree_request c es bt]"
  "take 4 (batch_requests env c msg es bc bt nt nc)
     = [ref_request c, commit_lookup_request env c bc, tree_request c es bt, commit_request c msg nt [bc]]"
  "take 5 (batch_requests env c msg es bc bt nt nc)
     = [ref_request c, commit_lookup_request env c bc, tree_request c es bt, commit_request c msg nt [bc],
        update_request c nc False]"
  by (simp_all add: batch_requests_def eval_nat_numeral)

lemma after_snoc: "after env (after env w xs) [y] = after env w (xs @ [y])"
  by (simp add: after_append)

lemma commit_batch_trace:
  assumes run: "commit_batch env c msg tree_entries w = (res, w')"
  shows "\<exists>base_commit base_tree new_tree new_commit k.
           w' = after env w (take k (batch_requests env c msg tree_entries base_commit base_tree new_tree new_commit))
         \<and> steps_made res k
         \<and> (res = Inr (BatchDone new_commit) \<or> (\<forall>sha. res \<noteq> Inr (BatchDone sha)))
         \<and> (2 \<le> k \<longrightarrow> answered env w (ref_request c) ''object'' ''sha'' base_commit)
         \<and> (3 \<le> k \<longrightarrow> answered env (after env w [ref_request c]) (commit_lookup_request env c base_commit)
                            ''tree'' ''sha'' base_tree)"
    (is "\<exists>bc bt nt nc k. ?P bc bt nt nc k")
proof -
  obtain a1 w1 where s1: "get_ref env (cfg_token c) (cfg_owner c) (cfg_repo c) (cfg_branch c) w = (a1, w1)"
    by (cases "get_ref env (cfg_token c) (cfg_owner c) (cfg_repo c) (cfg_branch c) w") auto
  have w1: "w1 = after env w [ref_request c]" using get_ref_after[OF s1] .
  have stop1: "?P JNull JNull JNull JNull 1" if "w' = w1" "steps_made res 1" "\<forall>sha. res \<noteq> Inr (BatchDone sha)"
    using that w1 by (simp add: batch_prefixes)
  show ?thesis
  proof (cases a1)
    case (Inl e)
    then have "res = Inl e" "w' = w1" using run s1 by (simp_all add: commit_batch_def)
    then show ?thesis using stop1 by (intro exI) auto
  next
    case (Inr p1)
    obtain ok_ref ref_data where p1: "p1 = (ok_ref, ref_data)" by (cases p1) auto
    show ?thesis
    proof (cases ok_ref)
      case False
      then have "res = Inr (RefFailed ref_data)" "w' = w1"
        using run s1 Inr p1 by (simp_all add: commit_batch_def)
      then show ?thesis using stop1 by (intro exI) auto
    next
      case True
      have ok1: "get_ref env (cfg_token c) (cfg_owner c) (cfg_repo c) (cfg_branch c) w = (Inr (True, ref_data), w1)"
        using s1 Inr p1 True by simp
      show ?thesis
      proof (cases "py_index2 ref_data ''object'' ''sha''")
        case (Inl e)
        then have "res = Inl e" "w' = w1" using run ok1 by (simp_all add: commit_batch_def)
        then show ?thesis using stop1 by (intro exI) auto
      next
        case bc: (Inr base_commit)
        have A: "answered env w (ref_request c) ''object'' ''sha'' base_commit"
          using get_ref_ok[OF ok1] py_index2_Inr[OF bc] by (auto simp: answered_def)
        obtain a2 w2 where s2: "api_request env ''GET'' (commit_endpoint env c base_commit) (cfg_token c) None w1 = (a2, w2)"
          by (cases "api_request env ''GET'' (commit_endpoint env c base_commit) (cfg_token c) None w1") auto
        have w2: "w2 = after env w [ref_request c, commit_lookup_request env c base_commit]"
          using api_request_after[OF s2] w1 by (simp add: commit_lookup_request_def)
        have stop2: "?P base_commit JNull JNull JNull 2"
          if "w' = w2" "steps_made res 2" "\<forall>sha. res \<noteq> Inr (BatchDone sha)"
          using that w2 A by (simp add: batch_prefixes)
        have tail2: "(case a2 of Inl e \<Rightarrow> (Inl e, w2)
            | Inr rcommit \<Rightarrow>
     if status_code rcommit \<noteq> 200
     then (Inr (CommitLookupFailed (status_code rcommit) (content rcommit)), w2) else
     (case resp_json rcommit of
        Inl e \<Rightarrow> (Inl e, w2)
      | Inr commit_json \<Rightarrow>
     (case py_index2 commit_json ''tree'' ''sha'' of
        Inl e \<Rightarrow> (Inl e, w2)
      | Inr base_tree_sha \<Rightarrow>
     (case create_tree env (cfg_token c) (cfg_owner c) (cfg_repo c) tree_entries base_tree_sha w2 of
        (Inl e, w3) \<Rightarrow> (Inl e, w3)
      | (Inr (ok_tree, resp_tree), w3) \<Rightarrow>
     if \<not> ok_tree then (Inr (TreeFailed resp_tree), w3) else
     (case py_get resp_tree ''sha'' of
        Inl e \<Rightarrow> (Inl e, w3)
      | Inr new_tree_sha \<Rightarrow>
     (case create_commit env (cfg_token c) (cfg_owner c) (cfg_repo c) msg new_tree_sha
             [base_commit] w3 of
        (Inl e, w4) \<Rightarrow> (Inl e, w4)
      | (Inr (ok_commit, resp_commit), w4) \<Rightarrow>
     if \<not> ok_commit then (Inr (CommitFailed resp_commit), w4) else
     (case py_get resp_commit ''sha'' of
        Inl e \<Rightarrow> (Inl e, w4)
      | Inr new_commit_sha \<Rightarrow>
     (case update_ref env (cfg_token c) (cfg_owner c) (cfg_repo c) (cfg_branch c) new_commit_sha False w4 of
        (Inl e, w5) \<Rightarrow> (Inl e, w5)
      | (Inr (ok_update, resp_update), w5) \<Rightarrow>
     if \<not> ok_update then (Inr (RefUpdateFailed resp_update), w5)
     else (Inr (BatchDone new_commit_sha), w5))))))))) = (res, w')"
          using run ok1 bc s2 by (simp add: commit_batch_def)
        show ?thesis
        proof (cases a2)
          case (Inl e)
          then have "res = Inl e" "w' = w2" using tail2 by simp_all
          then show ?thesis using stop2 by (intro exI) auto
        next
          case rc: (Inr rcommit)
          show ?thesis
          proof (cases "status_code rcommit = 200")
            case False
            then have "res = Inr (CommitLookupFailed (status_code rcommit) (content rcommit))" "w' = w2"
              using tail2 rc by simp_all
            then show ?thesis using stop2 by (intro exI) auto
          next
            case st: True
            show ?thesis
            proof (cases "resp_json rcommit")
              case (Inl e)
              then have "res = Inl e" "w' = w2" using tail2 rc st by simp_all
              then show ?thesis using stop2 by (intro exI) auto
            next
              case cj: (Inr commit_json)
              show ?thesis
              proof (cases "py_index2 commit_json ''tree'' ''sha''")
                case (Inl e)
                then have "res = Inl e" "w' = w2" using tail2 rc st cj by simp_all
                then show ?thesis using stop2 by (intro exI) auto
              next
                case bt: (Inr base_tree)
                have B: "answered env (after env w [ref_request c]) (commit_lookup_request env c base_commit)
                           ''tree'' ''sha'' base_tree"
                  using api_request_fst[OF s2] rc st cj py_index2_Inr[OF bt] w1
                  by (auto simp: answered_def commit_lookup_request_def resp_json_def split: option.splits)
                obtain a3 w3 where s3: "create_tree env (cfg_token c) (cfg_owner c) (cfg_repo c) tree_entries base_tree w2 = (a3, w3)"
                  by (cases "create_tree env (cfg_token c) (cfg_owner c) (cfg_repo c) tree_entries base_tree w2") auto
                have w3: "w3 = after env w [ref_request c, commit_lookup_request env c base_commit,
                                             tree_request c tree_entries base_tree]"
                  using send_expect_after[OF s3[unfolded create_tree_def]] w2
                  by (simp add: tree_request_def)
                have stop3: "?P base_commit base_tree JNull JNull 3"
                  if "w' = w3" "steps_made res 3" "\<forall>sha. res \<noteq> Inr (BatchDone sha)"
                  using that w3 A B by (simp add: batch_prefixes)
                have tail3: "(case a3 of Inl e \<Rightarrow> (Inl e, w3)
                    | Inr (ok_tree, resp_tree) \<Rightarrow>
     if \<not> ok_tree then (Inr (TreeFailed resp_tree), w3) else
     (case py_get resp_tree ''sha'' of
        Inl e \<Rightarrow> (Inl e, w3)
      | Inr new_tree_sha \<Rightarrow>
     (case create_commit env (cfg_token c) (cfg_owner c) (cfg_repo c) msg new_tree_sha
             [base_commit] w3 of
        (Inl e, w4) \<Rightarrow> (Inl e, w4)
      | (Inr (ok_commit, resp_commit), w4) \<Rightarrow>
     if \<not> ok_commit then (Inr (CommitFailed resp_commit), w4) else
     (case py_get resp_commit ''sha'' of
        Inl e \<Rightarrow> (Inl e, w4)
      | Inr new_commit_sha \<Rightarrow>
     (case update_ref env (cfg_token c) (cfg_owner c) (cfg_repo c) (cfg_branch c) new_commit_sha False w4 of
        (Inl e, w5) \<Rightarrow> (Inl e, w5)
      | (Inr (ok_update, resp_update), w5) \<Rightarrow>
     if \<not> ok_update then (Inr (RefUpdateFailed resp_update), w5)
     else (Inr (BatchDone new_commit_sha), w5)))))) = (res, w')"
                  using tail2 rc st cj bt s3 by simp
                show ?thesis
                proof (cases a3)
                  case (Inl e)
                  then have "res = Inl e" "w' = w3" using tail3 by simp_all
                  then show ?thesis using stop3 by (intro exI) auto
                next
                  case (Inr p3)
                  obtain ok_tree resp_tree where p3: "p3 = (ok_tree, resp_tree)" by (cases p3) auto
                  show ?thesis
                  proof (cases ok_tree)
                    case False
                    then have "res = Inr (TreeFailed resp_tree)" "w' = w3" using tail3 Inr p3 by simp_all
                    then show ?thesis using stop3 by (intro exI) auto
                  next
                    case okt: True
                    show ?thesis
                    proof (cases "py_get resp_tree ''sha''")
                      case (Inl e)
                      then have "res = Inl e" "w' = w3" using tail3 Inr p3 okt by simp_all
                      then show ?thesis using stop3 by (intro exI) auto
                    next
                      case nt: (Inr new_tree)
                      obtain a4 w4 where s4: "create_commit env (cfg_token c) (cfg_owner c) (cfg_repo c) msg new_tree [base_commit] w3 = (a4, w4)"
                        by (cases "create_commit env (cfg_token c) (cfg_owner c) (cfg_repo c) msg new_tree [base_commit] w3") auto
                      have w4: "w4 = after env w [ref_request c, commit_lookup_request env c base_commit,
                                   tree_request c tree_entries base_tree, commit_request c msg new_tree [base_commit]]"
                        using send_expect_after[OF s4[unfolded create_commit_def]] w3
                        by (simp add: commit_request_def)
                      have stop4: "?P base_commit base_tree new_tree JNull 4"
                        if "w' = w4" "steps_made res 4" "\<forall>sha. res \<noteq> Inr (BatchDone sha)"
                        using that w4 A B by (simp add: batch_prefixes)
                      have tail4: "(case a4 of Inl e \<Rightarrow> (Inl e, w4)
                          | Inr (ok_commit, resp_commit) \<Rightarrow>
     if \<not> ok_commit then (Inr (CommitFailed resp_commit), w4) else
     (case py_get resp_commit ''sha'' of
        Inl e \<Rightarrow> (Inl e, w4)
      | Inr new_commit_sha \<Rightarrow>
     (case update_ref env (cfg_token c) (cfg_owner c) (cfg_repo c) (cfg_branch c) new_commit_sha False w4 of
        (Inl e, w5) \<Rightarrow> (Inl e, w5)
      | (Inr (ok_update, resp_update), w5) \<Rightarrow>
     if \<not> ok_update then (Inr (RefUpdateFailed resp_update), w5)
     else (Inr (BatchDone new_commit_sha), w5)))) = (res, w')"
                        using tail3 Inr p3 okt nt s4 by simp
                      show ?thesis
                      proof (cases a4)
                        case (Inl e)
                        then have "res = Inl e" "w' = w4" using tail4 by simp_all
                        then show ?thesis using stop4 by (intro exI) auto
                      next
                        case r4: (Inr p4)
                        obtain ok_commit resp_commit where p4: "p4 = (ok_commit, resp_commit)" by (cases p4) auto
                        show ?thesis
                        proof (cases ok_commit)
                          case False
                          then have "res = Inr (CommitFailed resp_commit)" "w' = w4" using tail4 r4 p4 by simp_all
                          then show ?thesis using stop4 by (intro exI) auto
                        next
                          case okc: True
                          show ?thesis
                          proof (cases "py_get resp_commit ''sha''")
                            case (Inl e)
                            then have "res = Inl e" "w' = w4" using tail4 r4 p4 okc by simp_all
                            then show ?thesis using stop4 by (intro exI) auto
                          next
                            case nc: (Inr new_commit)
                            obtain a5 w5 where s5: "update_ref env (cfg_token c) (cfg_owner c) (cfg_repo c) (cfg_branch c) new_commit False w4 = (a5, w5)"
                              by (cases "update_ref env (cfg_token c) (cfg_owner c) (cfg_repo c) (cfg_branch c) new_commit False w4") auto
                            have w5: "w5 = after env w [ref_request c, commit_lookup_request env c base_commit,
                                   tree_request c tree_entries base_tree, commit_request c msg new_tree [base_commit],
                                   update_request c new_commit False]"
                              using send_expect_after[OF s5[unfolded update_ref_def]] w4
                              by (simp add: update_request_def)
                            have stop5: "?P base_commit base_tree new_tree new_commit 5"
                              if "w' = w5" "steps_made res 5"
                                 "res = Inr (BatchDone new_commit) \<or> (\<forall>sha. res \<noteq> Inr (BatchDone sha))"
                              using that w5 A B by (simp add: batch_prefixes)
                            have tail5: "(case a5 of Inl e \<Rightarrow> (Inl e, w5)
                                | Inr (ok_update, resp_update) \<Rightarrow>
     if \<not> ok_update then (Inr (RefUpdateFailed resp_update), w5)
     else (Inr (BatchDone new_commit), w5)) = (res, w')"
                              using tail4 r4 p4 okc nc s5 by simp
                            show ?thesis
                            proof (cases a5)
                              case (Inl e)
                              then have "res = Inl e" "w' = w5" using tail5 by simp_all
                              then show ?thesis using stop5 by (intro exI) auto
                            next
                              case r5: (Inr p5)
                              obtain ok_update resp_update where p5: "p5 = (ok_update, resp_update)" by (cases p5) auto
                              show ?thesis
                              proof (cases ok_update)
                                case False
                                then have "res = Inr (RefUpdateFailed resp_update)" "w' = w5"
                                  using tail5 r5 p5 by simp_all
                                then show ?thesis using stop5 by (intro exI) auto
                              next
                                case True
                                then have "res = Inr (BatchDone new_commit)" "w' = w5"
                                  using tail5 r5 p5 by simp_all
                                then show ?thesis using stop5 by (intro exI) auto
                              qed
                            qed
                          qed
                        qed
                      qed
                    qed
                  qed
                qed
              qed
            qed
          qed
        qed
      qed
    qed
  qed
qed

lemma batch_requests_methods:
  "map http_method (batch_requests env c msg es bc bt nt nc) = [''GET'', ''GET'', ''POST'', ''POST'', ''PATCH'']"
  by (simp add: batch_requests_def ref_request_def commit_lookup_request_def tree_request_def
        commit_request_def update_request_def mk_request_def)

lemma update_request_not_forced:
  "body (update_request c new_commit False) = Some (JDict [(''sha'', new_commit), (''force'', JBool False)])"
  by (simp add: update_request_def mk_request_def ref_payload_def)

lemma commit_request_parents:
  "body (commit_request c msg new_tree [base_commit])
     = Some (JDict [(''message'', JStr msg), (''tree'', new_tree), (''parents'', JList [base_commit])])"
  by (simp add: commit_request_def mk_request_def commit_payload_def)





lemma batch_request_lines:
  "map request_line (batch_requests env c msg tree_entries base_commit base_tree new_tree new_commit) =
     [(''GET'', ''https://api.github.com/repos/'' @ cfg_owner c @ ''/'' @ cfg_repo c
                  @ ''/git/ref/heads/'' @ cfg_branch c, None),
      (''GET'', ''https://api.github.com/repos/'' @ cfg_owner c @ ''/'' @ cfg_repo c @ ''/git/commits/''
                  @ (case base_commit of JStr s \<Rightarrow> s | JNull \<Rightarrow> ''None'' | _ \<Rightarrow> py_repr env base_commit), None),
      (''POST'', ''https://api.github.com/repos/'' @ cfg_owner c @ ''/'' @ cfg_repo c @ ''/git/trees'',
         Some (JDict ((''tree'', JList tree_entries)
                      # (if truthy base_tree then [(''base_tree'', base_tree)] else [])))),
      (''POST'', ''https://api.github.com/repos/'' @ cfg_owner c @ ''/'' @ cfg_repo c @ ''/git/commits'',
         Some (JDict [(''message'', JStr msg), (''tree'', new_tree), (''parents'', JList [base_commit])])),
      (''PATCH'', ''https://api.github.com/repos/'' @ cfg_owner c @ ''/'' @ cfg_repo c
                  @ ''/git/refs/heads/'' @ cfg_branch c,
         Some (JDict [(''sha'', new_commit), (''force'', JBool False)]))]"
  by (simp add: batch_requests_def ref_request_def commit_lookup_request_def tree_request_def
        commit_request_def update_request_def mk_request_def request_line_def GITHUB_API_def
        commit_endpoint_def py_str_def tree_payload_def commit_payload_def ref_payload_def)


lemma demo_batch_lines:
  "map request_line (drop 3 (sent (snd (op_upload_folder demo_env demo_cfg [''proj''] ''2'' [] ''first upload''
                                          (start (JStr ''c0'') demo_answers))))) =
     [(''GET'', ''https://api.github.com/repos/me/site/git/ref/heads/main'', None),
      (''GET'', ''https://api.github.com/repos/me/site/git/commits/c0'', None),
      (''POST'', ''https://api.github.com/repos/me/site/git/trees'',
         Some (JDict [(''tree'', JList demo_entries), (''base_tree'', JStr ''t0'')])),
      (''POST'', ''https://api.github.com/repos/me/site/git/commits'',
         Some (JDict [(''message'', JStr ''first upload''), (''tree'', JStr ''t1''),
                      (''parents'', JList [JStr ''c0''])])),
      (''PATCH'', ''https://api.github.com/repos/me/site/git/refs/heads/main'',
         Some (JDict [(''sha'', JStr ''c1''), (''force'', JBool False)]))]"
  by code_simp


lemma in_sent_after: "r \<in> set (sent w) \<Longrightarrow> r \<in> set (sent (after env w reqs))"
  by (simp add: after_sent)

lemma last_in_sent_after: "r \<in> set (sent (after env w [r]))"
  by (simp add: after_sent)

lemma get_file_sha_after:
  "get_file_sha env tok owner repo pth branch w = (a, w1) \<Longrightarrow>
   \<exists>reqs. w1 = after env w reqs"
proof -
  assume g: "get_file_sha env tok owner repo pth branch w = (a, w1)"
  obtain b w0 where "api_request env ''GET'' (contents_endpoint env owner repo pth @ ''?ref='' @ branch) tok None w = (b, w0)"
    by (cases "api_request env ''GET'' (contents_endpoint env owner repo pth @ ''?ref='' @ branch) tok None w") auto
  moreover from this have "w1 = w0"
    using g by (auto simp: get_file_sha_def get_repo_contents_def split: sum.splits if_splits prod.splits)
  ultimately show ?thesis using api_request_after by blast
qed

lemma create_or_update_file_after:
  assumes "create_or_update_file env tok owner repo pth content_b64 message branch sha w = (a, w')"
  shows "w' = after env w [mk_request ''PUT'' (''/repos/'' @ owner @ ''/'' @ repo @ ''/contents/'' @ pth) tok
                 (Some (JDict (with_sha [(''message'', JStr message), (''content'', JStr content_b64),
                                         (''branch'', JStr branch)] sha)))]"
  using assms
  by (cases "api_request env ''PUT'' (''/repos/'' @ owner @ ''/'' @ repo @ ''/contents/'' @ pth) tok
                 (Some (JDict (with_sha [(''message'', JStr message), (''content'', JStr content_b64),
                                         (''branch'', JStr branch)] sha))) w")
     (auto simp: create_or_update_file_def Let_def dest!: api_request_after split: sum.splits)

lemma put_request_line:
  "request_line (mk_request ''PUT'' (''/repos/'' @ owner @ ''/'' @ repo @ ''/contents/'' @ pth) tok
                 (Some (JDict (with_sha [(''message'', JStr message), (''content'', JStr content_b64),
                                         (''branch'', JStr branch)] sha))))
   = (''PUT'', ''https://api.github.com/repos/'' @ owner @ ''/'' @ repo @ ''/contents/'' @ pth,
      Some (JDict ([(''message'', JStr message), (''content'', JStr content_b64), (''branch'', JStr branch)]
                   @ (if truthy sha then [(''sha'', sha)] else []))))"
  by (simp add: request_line_def mk_request_def GITHUB_API_def with_sha_def)

lemma blob_request_line:
  "request_line (blob_request c content_b64)
   = (''POST'', ''https://api.github.com/repos/'' @ cfg_owner c @ ''/'' @ cfg_repo c @ ''/git/blobs'',
      Some (JDict [(''content'', JStr content_b64), (''encoding'', JStr ''base64'')]))"
  by (simp add: request_line_def blob_request_def mk_request_def GITHUB_API_def blob_payload_def)

lemma file_to_base64_Inr:
  "file_to_base64 env f = Inr content_b64 \<Longrightarrow> \<exists>bs. read_bytes env f = Inr bs \<and> content_b64 = b64encode env bs"
  by (auto simp: file_to_base64_def split: sum.splits)

lemma put_sent_mono:
  "put_sent env owner repo branch message local_folder f base reqs \<Longrightarrow> set reqs \<subseteq> set reqs' \<Longrightarrow>
   put_sent env owner repo branch message local_folder f base reqs'"
  unfolding put_sent_def by blast

lemma blob_sent_mono: "blob_sent env c f reqs \<Longrightarrow> set reqs \<subseteq> set reqs' \<Longrightarrow> blob_sent env c f reqs'"
  unfolding blob_sent_def by blast

lemma upload_each_after:
  "upload_each env c local_folder base msg files n fl w = (a, w') \<Longrightarrow> \<exists>reqs. w' = after env w reqs"
proof (induction files arbitrary: n fl w)
  case Nil
  then have "w' = after env w []" by simp
  then show ?case by blast
next
  case (Cons f files)
  show ?case
  proof (cases "path_to_repo_path local_folder f base")
    case (Inl e)
    then have "w' = after env w []" using Cons.prems by simp
    then show ?thesis by blast
  next
    case (Inr rp)
    obtain a1 w1 where g: "get_file_sha env (cfg_token c) (cfg_owner c) (cfg_repo c) (JStr rp) (cfg_branch c) w = (a1, w1)"
      by (cases "get_file_sha env (cfg_token c) (cfg_owner c) (cfg_repo c) (JStr rp) (cfg_branch c) w") auto
    then obtain r1 where w1: "w1 = after env w r1" using get_file_sha_after by blast
    show ?thesis
    proof (cases a1)
      case (Inl e)
      then have "w' = w1" using Cons.prems Inr g by simp
      then show ?thesis using w1 by blast
    next
      case sha: (Inr sha)
      show ?thesis
      proof (cases "file_to_base64 env f")
        case (Inl e)
        then have "w' = w1" using Cons.prems Inr g sha by simp
        then show ?thesis using w1 by blast
      next
        case b: (Inr content_b64)
        obtain a2 w2 where p: "create_or_update_file env (cfg_token c) (cfg_owner c) (cfg_repo c) rp content_b64 msg (cfg_branch c) sha w1 = (a2, w2)"
          by (cases "create_or_update_file env (cfg_token c) (cfg_owner c) (cfg_repo c) rp content_b64 msg (cfg_branch c) sha w1") auto
        from create_or_update_file_after[OF p] w1 obtain r2 where w2: "w2 = after env w r2"
          by (metis after_append)
        show ?thesis
        proof (cases a2)
          case (Inl e)
          then have "w' = w2" using Cons.prems Inr g sha b p by simp
          then show ?thesis using w2 by blast
        next
          case ok: (Inr okresp)
          obtain ok resp where okresp: "okresp = (ok, resp)" by (cases okresp) auto
          have "\<exists>n' fl'. upload_each env c local_folder base msg files n' fl' w2 = (a, w')"
            using Cons.prems Inr g sha b p ok okresp by (cases ok) auto
          then obtain r3 where "w' = after env w2 r3" using Cons.IH by blast
          then show ?thesis using w2 by (metis after_append)
        qed
      qed
    qed
  qed
qed

lemma pages_upload_each_after:
  "pages_upload_each env c pages_branch local_folder base msg files fl w = (a, w') \<Longrightarrow>
   \<exists>reqs. w' = after env w reqs"
proof (induction files arbitrary: fl w)
  case Nil
  then have "w' = after env w []" by simp
  then show ?case by blast
next
  case (Cons f files)
  show ?case
  proof (cases "path_to_repo_path local_folder f base")
    case (Inl e)
    then have "w' = after env w []" using Cons.prems by simp
    then show ?thesis by blast
  next
    case (Inr rp)
    show ?thesis
    proof (cases "file_to_base64 env f")
      case (Inl e)
      then have "w' = after env w []" using Cons.prems Inr by simp
      then show ?thesis by blast
    next
      case b: (Inr content_b64)
      obtain a1 w1 where g: "get_file_sha env (cfg_token c) (cfg_owner c) (cfg_repo c) (JStr rp) pages_branch w = (a1, w1)"
        by (cases "get_file_sha env (cfg_token c) (cfg_owner c) (cfg_repo c) (JStr rp) pages_branch w") auto
      then obtain r1 where w1: "w1 = after env w r1" using get_file_sha_after by blast
      show ?thesis
      proof (cases a1)
        case (Inl e)
        then have "w' = w1" using Cons.prems Inr b g by simp
        then show ?thesis using w1 by blast
      next
        case sha: (Inr sha)
        obtain a2 w2 where p: "create_or_update_file env (cfg_token c) (cfg_owner c) (cfg_repo c) rp content_b64 msg pages_branch sha w1 = (a2, w2)"
          by (cases "create_or_update_file env (cfg_token c) (cfg_owner c) (cfg_repo c) rp content_b64 msg pages_branch sha w1") auto
        from create_or_update_file_after[OF p] w1 obtain r2 where w2: "w2 = after env w r2"
          by (metis after_append)
        show ?thesis
        proof (cases a2)
          case (Inl e)
          then have "w' = w2" using Cons.prems Inr g sha b p by simp
          then show ?thesis using w2 by blast
        next
          case ok: (Inr okresp)
          obtain ok resp where okresp: "okresp = (ok, resp)" by (cases okresp) auto
          have "\<exists>fl'. pages_upload_each env c pages_branch local_folder base msg files fl' w2 = (a, w')"
            using Cons.prems Inr g sha b p ok okresp by auto
          then obtain r3 where "w' = after env w2 r3" using Cons.IH by blast
          then show ?thesis using w2 by (metis after_append)
        qed
      qed
    qed
  qed
qed

lemma upload_each_puts:
  "upload_each env c local_folder base msg files n fl w = (Inr res, w') \<Longrightarrow> f \<in> set files \<Longrightarrow>
   \<exists>reqs. w' = after env w reqs
        \<and> put_sent env (cfg_owner c) (cfg_repo c) (cfg_branch c) msg local_folder f base reqs"
proof (induction files arbitrary: n fl w)
  case Nil
  then show ?case by simp
next
  case (Cons g files)
  from Cons.prems(1) obtain rp where rp: "path_to_repo_path local_folder g base = Inr rp"
    by (cases "path_to_repo_path local_folder g base") auto
  obtain a1 w1 where g1: "get_file_sha env (cfg_token c) (cfg_owner c) (cfg_repo c) (JStr rp) (cfg_branch c) w = (a1, w1)"
    by (cases "get_file_sha env (cfg_token c) (cfg_owner c) (cfg_repo c) (JStr rp) (cfg_branch c) w") auto
  from Cons.prems(1) rp g1 obtain sha where sha: "a1 = Inr sha" by (cases a1) auto
  from Cons.prems(1) rp g1 sha obtain content_b64 where b: "file_to_base64 env g = Inr content_b64"
    by (cases "file_to_base64 env g") auto
  obtain a2 w2 where p: "create_or_update_file env (cfg_token c) (cfg_owner c) (cfg_repo c) rp content_b64 msg (cfg_branch c) sha w1 = (a2, w2)"
    by (cases "create_or_update_file env (cfg_token c) (cfg_owner c) (cfg_repo c) rp content_b64 msg (cfg_branch c) sha w1") auto
  from Cons.prems(1) rp g1 sha b p obtain ok resp where ok: "a2 = Inr (ok, resp)"
    by (cases a2) auto
  have rest: "\<exists>n' fl'. upload_each env c local_folder base msg files n' fl' w2 = (Inr res, w')"
    using Cons.prems(1) rp g1 sha b p ok by (cases ok) auto
  let ?r = "mk_request ''PUT'' (''/repos/'' @ cfg_owner c @ ''/'' @ cfg_repo c @ ''/contents/'' @ rp) (cfg_token c)
               (Some (JDict (with_sha [(''message'', JStr msg), (''content'', JStr content_b64),
                                       (''branch'', JStr (cfg_branch c))] sha)))"
  obtain r1 where w1: "w1 = after env w r1" using get_file_sha_after[OF g1] by blast
  have w2: "w2 = after env w (r1 @ [?r])"
    using create_or_update_file_after[OF p] w1 by (simp add: after_append)
  show ?case
  proof (cases "f = g")
    case True
    obtain bs where bs: "read_bytes env g = Inr bs" "content_b64 = b64encode env bs"
      using file_to_base64_Inr[OF b] by blast
    have "?r \<in> set (r1 @ [?r])" by simp
    then have here: "put_sent env (cfg_owner c) (cfg_repo c) (cfg_branch c) msg local_folder g base (r1 @ [?r])"
      unfolding put_sent_def
      using rp bs put_request_line[of "cfg_owner c" "cfg_repo c" rp "cfg_token c" msg content_b64 "cfg_branch c" sha]
      by blast
    obtain reqs where "w' = after env w2 reqs" using rest upload_each_after by blast
    then have "w' = after env w ((r1 @ [?r]) @ reqs)" using w2 by (simp only: after_append)
    moreover have "put_sent env (cfg_owner c) (cfg_repo c) (cfg_branch c) msg local_folder f base ((r1 @ [?r]) @ reqs)"
      using put_sent_mono[OF here, of "(r1 @ [?r]) @ reqs"] True by auto
    ultimately show ?thesis by blast
  next
    case False
    then have "f \<in> set files" using Cons.prems(2) by simp
    with rest Cons.IH obtain reqs where r: "w' = after env w2 reqs"
      "put_sent env (cfg_owner c) (cfg_repo c) (cfg_branch c) msg local_folder f base reqs" by blast
    have "w' = after env w ((r1 @ [?r]) @ reqs)" using r(1) w2 by (simp only: after_append)
    moreover have "put_sent env (cfg_owner c) (cfg_repo c) (cfg_branch c) msg local_folder f base ((r1 @ [?r]) @ reqs)"
      using put_sent_mono[OF r(2), of "(r1 @ [?r]) @ reqs"] by auto
    ultimately show ?thesis by blast
  qed
qed

lemma pages_upload_each_puts:
  "pages_upload_each env c pages_branch local_folder base msg files fl w = (Inr res, w') \<Longrightarrow> f \<in> set files \<Longrightarrow>
   \<exists>reqs. w' = after env w reqs
        \<and> put_sent env (cfg_owner c) (cfg_repo c) pages_branch msg local_folder f base reqs"
proof (induction files arbitrary: fl w)
  case Nil
  then show ?case by simp
next
  case (Cons g files)
  from Cons.prems(1) obtain rp where rp: "path_to_repo_path local_folder g base = Inr rp"
    by (cases "path_to_repo_path local_folder g base") auto
  from Cons.prems(1) rp obtain content_b64 where b: "file_to_base64 env g = Inr content_b64"
    by (cases "file_to_base64 env g") auto
  obtain a1 w1 where g1: "get_file_sha env (cfg_token c) (cfg_owner c) (cfg_repo c) (JStr rp) pages_branch w = (a1, w1)"
    by (cases "get_file_sha env (cfg_token c) (cfg_owner c) (cfg_repo c) (JStr rp) pages_branch w") auto
  from Cons.prems(1) rp b g1 obtain sha where sha: "a1 = Inr sha" by (cases a1) auto
  obtain a2 w2 where p: "create_or_update_file env (cfg_token c) (cfg_owner c) (cfg_repo c) rp content_b64 msg pages_branch sha w1 = (a2, w2)"
    by (cases "create_or_update_file env (cfg_token c) (cfg_owner c) (cfg_repo c) rp content_b64 msg pages_branch sha w1") auto
  from Cons.prems(1) rp g1 sha b p obtain ok resp where ok: "a2 = Inr (ok, resp)"
    by (cases a2) auto
  have rest: "\<exists>fl'. pages_upload_each env c pages_branch local_folder base msg files fl' w2 = (Inr res, w')"
    using Cons.prems(1) rp g1 sha b p ok by auto
  let ?r = "mk_request ''PUT'' (''/repos/'' @ cfg_owner c @ ''/'' @ cfg_repo c @ ''/contents/'' @ rp) (cfg_token c)
               (Some (JDict (with_sha [(''message'', JStr msg), (''content'', JStr content_b64),
                                       (''branch'', JStr pages_branch)] sha)))"
  obtain r1 where w1: "w1 = after env w r1" using get_file_sha_after[OF g1] by blast
  have w2: "w2 = after env w (r1 @ [?r])"
    using create_or_update_file_after[OF p] w1 by (simp add: after_append)
  show ?case
  proof (cases "f = g")
    case True
    obtain bs where bs: "read_bytes env g = Inr bs" "content_b64 = b64encode env bs"
      using file_to_base64_Inr[OF b] by blast
    have "?r \<in> set (r1 @ [?r])" by simp
    then have here: "put_sent env (cfg_owner c) (cfg_repo c) pages_branch msg local_folder g base (r1 @ [?r])"
      unfolding put_sent_def
      using rp bs put_request_line[of "cfg_owner c" "cfg_repo c" rp "cfg_token c" msg content_b64 pages_branch sha]
      by blast
    obtain reqs where "w' = after env w2 reqs" using rest pages_upload_each_after by blast
    then have "w' = after env w ((r1 @ [?r]) @ reqs)" using w2 by (simp only: after_append)
    moreover have "put_sent env (cfg_owner c) (cfg_repo c) pages_branch msg local_folder f base ((r1 @ [?r]) @ reqs)"
      using put_sent_mono[OF here, of "(r1 @ [?r]) @ reqs"] True by auto
    ultimately show ?thesis by blast
  next
    case False
    then have "f \<in> set files" using Cons.prems(2) by simp
    with rest Cons.IH obtain reqs where r: "w' = after env w2 reqs"
      "put_sent env (cfg_owner c) (cfg_repo c) pages_branch msg local_folder f base reqs" by blast
    have "w' = after env w ((r1 @ [?r]) @ reqs)" using r(1) w2 by (simp only: after_append)
    moreover have "put_sent env (cfg_owner c) (cfg_repo c) pages_branch msg local_folder f base ((r1 @ [?r]) @ reqs)"
      using put_sent_mono[OF r(2), of "(r1 @ [?r]) @ reqs"] by auto
    ultimately show ?thesis by blast
  qed
qed

lemma blob_step_covers:
  assumes "blob_step env c local_folder base f w = (Inr entry, w')"
  shows "\<exists>reqs. w' = after env w reqs \<and> blob_sent env c f reqs \<and> entry_listed local_folder f base [entry]"
proof -
  from assms obtain bs where bs: "read_bytes env f = Inr bs"
    by (cases "read_bytes env f") (auto simp: blob_step_def)
  obtain a w1 where cb: "create_blob env (cfg_token c) (cfg_owner c) (cfg_repo c) (b64encode env bs) ''base64'' w = (a, w1)"
    by (cases "create_blob env (cfg_token c) (cfg_owner c) (cfg_repo c) (b64encode env bs) ''base64'' w") auto
  have w1: "w1 = after env w [blob_request c (b64encode env bs)]"
    using cb unfolding create_blob_def blob_request_def by (rule send_expect_after)
  have "w' = w1" using assms bs cb by (auto simp: blob_step_def split: sum.splits if_splits prod.splits)
  then have 0: "w' = after env w [blob_request c (b64encode env bs)]" using w1 by simp
  have "blob_request c (b64encode env bs) \<in> set [blob_request c (b64encode env bs)]" by simp
  then have 1: "blob_sent env c f [blob_request c (b64encode env bs)]"
    unfolding blob_sent_def using bs blob_request_line by blast
  have 2: "entry_listed local_folder f base [entry]"
    using assms bs cb
    by (auto simp: blob_step_def entry_listed_def tree_entry_def split: sum.splits if_splits prod.splits)
  from 0 1 2 show ?thesis by blast
qed

lemma entry_listed_mono: "entry_listed local_folder f base es \<Longrightarrow> set es \<subseteq> set es' \<Longrightarrow> entry_listed local_folder f base es'"
  unfolding entry_listed_def by blast

lemma create_blobs_keeps_entries:
  "create_blobs env c local_folder base files tree_entries failures w = (tree_entries', failures', w') \<Longrightarrow>
   set tree_entries \<subseteq> set tree_entries'"
proof (induction files arbitrary: tree_entries failures w)
  case Nil
  then show ?case by simp
next
  case (Cons f files)
  obtain res w1 where st: "blob_step env c local_folder base f w = (res, w1)"
    by (cases "blob_step env c local_folder base f w") auto
  show ?case
  proof (cases res)
    case (Inl r)
    with Cons.prems st have "create_blobs env c local_folder base files tree_entries (failures @ [(f, r)]) w1
                               = (tree_entries', failures', w')" by simp
    from Cons.IH[OF this] show ?thesis .
  next
    case (Inr entry)
    with Cons.prems st have "create_blobs env c local_folder base files (tree_entries @ [entry]) failures w1
                               = (tree_entries', failures', w')" by simp
    from Cons.IH[OF this] show ?thesis by simp
  qed
qed

lemma blob_step_trace:
  "blob_step env c local_folder base f w = (res, w') \<Longrightarrow> \<exists>reqs. w' = after env w reqs"
proof -
  assume "blob_step env c local_folder base f w = (res, w')"
  from blob_step_after[OF this] have "w' = after env w [] \<or> (\<exists>b. w' = after env w [blob_request c b])" by simp
  then show ?thesis by blast
qed

lemma create_blobs_trace:
  "create_blobs env c local_folder base files tree_entries failures w = (tree_entries', failures', w') \<Longrightarrow>
   \<exists>reqs. w' = after env w reqs"
proof -
  assume "create_blobs env c local_folder base files tree_entries failures w = (tree_entries', failures', w')"
  from create_blobs_after[OF this] show ?thesis by blast
qed

lemma create_blobs_covers:
  "create_blobs env c local_folder base files tree_entries failures w = (tree_entries', failures', w') \<Longrightarrow>
   f \<in> set files \<Longrightarrow>
   (\<exists>reason. (f, reason) \<in> set failures')
   \<or> (\<exists>reqs. w' = after env w reqs \<and> blob_sent env c f reqs \<and> entry_listed local_folder f base tree_entries')"
proof (induction files arbitrary: tree_entries failures w)
  case Nil
  then show ?case by simp
next
  case (Cons g files)
  obtain res w1 where st: "blob_step env c local_folder base g w = (res, w1)"
    by (cases "blob_step env c local_folder base g w") auto
  obtain r1 where w1: "w1 = after env w r1" using blob_step_trace[OF st] by blast
  show ?case
  proof (cases res)
    case (Inl r)
    with Cons.prems(1) st have rest: "create_blobs env c local_folder base files tree_entries (failures @ [(g, r)]) w1
                               = (tree_entries', failures', w')" by simp
    show ?thesis
    proof (cases "f = g")
      case True
      then show ?thesis using create_blobs_keeps_failures[OF rest] by auto
    next
      case False
      then have "f \<in> set files" using Cons.prems(2) by simp
      from Cons.IH[OF rest this] show ?thesis
      proof
        assume "\<exists>reason. (f, reason) \<in> set failures'"
        then show ?thesis by blast
      next
        assume "\<exists>reqs. w' = after env w1 reqs \<and> blob_sent env c f reqs \<and> entry_listed local_folder f base tree_entries'"
        then obtain reqs where r: "w' = after env w1 reqs" "blob_sent env c f reqs"
          "entry_listed local_folder f base tree_entries'" by blast
        have "w' = after env w (r1 @ reqs)" using r(1) w1 by (simp only: after_append)
        moreover have "blob_sent env c f (r1 @ reqs)" using blob_sent_mono[OF r(2), of "r1 @ reqs"] by auto
        ultimately show ?thesis using r(3) by blast
      qed
    qed
  next
    case (Inr entry)
    with Cons.prems(1) st have rest: "create_blobs env c local_folder base files (tree_entries @ [entry]) failures w1
                               = (tree_entries', failures', w')" by simp
    show ?thesis
    proof (cases "f = g")
      case True
      from blob_step_covers st Inr obtain r0 where r0: "w1 = after env w r0" "blob_sent env c g r0"
        "entry_listed local_folder g base [entry]" by blast
      obtain reqs where "w' = after env w1 reqs" using create_blobs_trace[OF rest] by blast
      then have "w' = after env w (r0 @ reqs)" using r0(1) by (simp only: after_append)
      moreover have "blob_sent env c g (r0 @ reqs)" using blob_sent_mono[OF r0(2), of "r0 @ reqs"] by auto
      moreover have "set [entry] \<subseteq> set tree_entries'"
        using create_blobs_keeps_entries[OF rest] by simp
      ultimately show ?thesis using True r0(3) entry_listed_mono by blast
    next
      case False
      then have "f \<in> set files" using Cons.prems(2) by simp
      from Cons.IH[OF rest this] show ?thesis
      proof
        assume "\<exists>reason. (f, reason) \<in> set failures'"
        then show ?thesis by blast
      next
        assume "\<exists>reqs. w' = after env w1 reqs \<and> blob_sent env c f reqs \<and> entry_listed local_folder f base tree_entries'"
        then obtain reqs where r: "w' = after env w1 reqs" "blob_sent env c f reqs"
          "entry_listed local_folder f base tree_entries'" by blast
        have "w' = after env w (r1 @ reqs)" using r(1) w1 by (simp only: after_append)
        moreover have "blob_sent env c f (r1 @ reqs)" using blob_sent_mono[OF r(2), of "r1 @ reqs"] by auto
        ultimately show ?thesis using r(3) by blast
      qed
    qed
  qed
qed

lemma file_under_dir: "file_under root rel \<Longrightarrow> \<exists>es. root = Dir es"
  by (cases root; cases rel) (simp_all add: file_under_def)

lemma ensure_pages_branch_after:
  "ensure_pages_branch env c b w = (a, w') \<Longrightarrow> \<exists>reqs. w' = after env w reqs"
proof -
  assume e: "ensure_pages_branch env c b w = (a, w')"
  obtain a1 w1 where g1: "get_ref env (cfg_token c) (cfg_owner c) (cfg_repo c) b w = (a1, w1)"
    by (cases "get_ref env (cfg_token c) (cfg_owner c) (cfg_repo c) b w") auto
  obtain a2 w2 where g2: "get_ref env (cfg_token c) (cfg_owner c) (cfg_repo c) (cfg_branch c) w1 = (a2, w2)"
    by (cases "get_ref env (cfg_token c) (cfg_owner c) (cfg_repo c) (cfg_branch c) w1") auto
  have w1: "w1 = after env w [mk_request ''GET'' (''/repos/'' @ cfg_owner c @ ''/'' @ cfg_repo c @ ''/git/ref/heads/'' @ b) (cfg_token c) None]"
    using g1 by (auto simp: get_ref_def dest!: api_request_after split: prod.splits sum.splits if_splits)
  have w2: "w2 = after env w1 [mk_request ''GET'' (''/repos/'' @ cfg_owner c @ ''/'' @ cfg_repo c @ ''/git/ref/heads/'' @ cfg_branch c) (cfg_token c) None]"
    using g2 by (auto simp: get_ref_def dest!: api_request_after split: prod.splits sum.splits if_splits)
  have "w' = w1 \<or> w' = w2 \<or> (\<exists>r. w' = after env w2 [r])"
    using e g1 g2
    by (auto simp: ensure_pages_branch_def dest!: api_request_after split: prod.splits sum.splits if_splits)
  then show ?thesis using w1 w2 by (metis after_append)
qed

lemma per_file_covers:
  assumes folder: "local_fs env local_folder = Some root" and under: "file_under root rel"
    and run: "op_upload_folder env c local_folder ''1'' base msg w = (Inr (PerFileDone n fl), w')"
  shows "\<exists>reqs. w' = after env w reqs
           \<and> put_sent env (cfg_owner c) (cfg_repo c) (cfg_branch c) msg local_folder (local_folder @ rel) base reqs"
proof -
  let ?files = "gather_files_for_folder (local_fs env) local_folder None"
  have mem: "local_folder @ rel \<in> set ?files"
    using gather_files_all[of "local_fs env" local_folder root, OF folder] under by blast
  then have ne: "?files \<noteq> []" by auto
  obtain es where "root = Dir es" using file_under_dir[OF under] by blast
  then have dir: "is_dir (local_fs env) local_folder" using folder by (simp add: is_dir_def)
  have "upload_each env c local_folder base msg ?files 0 [] w = (Inr (n, fl), w')"
    using run dir ne by (auto simp: op_upload_folder_def Let_def split: prod.splits sum.splits)
  from upload_each_puts[OF this mem] show ?thesis .
qed

lemma pages_folder_covers:
  assumes folder: "local_fs env local_folder = Some root" and under: "file_under root rel"
    and choice: "choice \<noteq> ''1''"
    and run: "pages_add_file_or_folder env c pages_branch choice local_folder base msg w
                = (Inr (PagesFolderDone fails), w')"
  shows "\<exists>reqs. w' = after env w reqs
           \<and> put_sent env (cfg_owner c) (cfg_repo c) pages_branch msg local_folder (local_folder @ rel) base reqs"
proof -
  let ?files = "gather_files_for_folder (local_fs env) local_folder None"
  have mem: "local_folder @ rel \<in> set ?files"
    using gather_files_all[of "local_fs env" local_folder root, OF folder] under by blast
  then have ne: "?files \<noteq> []" by auto
  obtain es where "root = Dir es" using file_under_dir[OF under] by blast
  then have dir: "is_dir (local_fs env) local_folder" using folder by (simp add: is_dir_def)
  obtain a0 w0 where e: "ensure_pages_branch env c pages_branch w = (a0, w0)"
    by (cases "ensure_pages_branch env c pages_branch w") auto
  obtain r0 where w0: "w0 = after env w r0" using ensure_pages_branch_after[OF e] by blast
  have "pages_upload_each env c pages_branch local_folder base msg ?files [] w0 = (Inr fails, w')"
    using run dir ne choice e
    by (auto simp: pages_add_file_or_folder_def Let_def split: prod.splits sum.splits bool.splits if_splits)
  from pages_upload_each_puts[OF this mem] obtain reqs where r: "w' = after env w0 reqs"
    "put_sent env (cfg_owner c) (cfg_repo c) pages_branch msg local_folder (local_folder @ rel) base reqs" by blast
  have "w' = after env w (r0 @ reqs)" using r(1) w0 by (simp only: after_append)
  moreover have "put_sent env (cfg_owner c) (cfg_repo c) pages_branch msg local_folder (local_folder @ rel) base (r0 @ reqs)"
    using put_sent_mono[OF r(2), of "r0 @ reqs"] by auto
  ultimately show ?thesis by blast
qed

lemma tree_request_in_batch:
  "\<exists>r rest. r \<in> set (batch_requests env c msg tree_entries base_commit base_tree new_tree new_commit)
     \<and> request_line r =
         (''POST'', ''https://api.github.com/repos/'' @ cfg_owner c @ ''/'' @ cfg_repo c @ ''/git/trees'',
          Some (JDict ((''tree'', JList tree_entries) # rest)))"
proof -
  let ?reqs = "batch_requests env c msg tree_entries base_commit base_tree new_tree new_commit"
  have len: "length ?reqs = 5" by (simp add: batch_requests_def)
  have "map request_line ?reqs ! 2 =
         (''POST'', ''https://api.github.com/repos/'' @ cfg_owner c @ ''/'' @ cfg_repo c @ ''/git/trees'',
          Some (JDict ((''tree'', JList tree_entries)
                       # (if truthy base_tree then [(''base_tree'', base_tree)] else []))))"
    by (simp only: batch_request_lines) simp
  then have "request_line (?reqs ! 2) =
         (''POST'', ''https://api.github.com/repos/'' @ cfg_owner c @ ''/'' @ cfg_repo c @ ''/git/trees'',
          Some (JDict ((''tree'', JList tree_entries)
                       # (if truthy base_tree then [(''base_tree'', base_tree)] else []))))"
    using len by simp
  moreover have "?reqs ! 2 \<in> set ?reqs" using len by simp
  ultimately show ?thesis by blast
qed

lemma batch_covers:
  assumes folder: "local_fs env local_folder = Some root" and under: "file_under root rel"
    and batch: "mode \<noteq> ''1''"
    and run: "op_upload_folder env c local_folder mode base msg w = (res, w')"
  shows "(\<exists>failures reason. res = Inr (BlobsFailed failures) \<and> (local_folder @ rel, reason) \<in> set failures)
       \<or> (\<exists>reqs. w' = after env w reqs
            \<and> blob_sent env c (local_folder @ rel) reqs
            \<and> (\<forall>sha. res = Inr (BatchDone sha) \<longrightarrow> tree_sent c local_folder (local_folder @ rel) base reqs))"
proof -
  let ?files = "gather_files_for_folder (local_fs env) local_folder None"
  let ?p = "local_folder @ rel"
  have mem: "?p \<in> set ?files"
    using gather_files_all[of "local_fs env" local_folder root, OF folder] under by blast
  then have ne: "?files \<noteq> []" by auto
  obtain es where "root = Dir es" using file_under_dir[OF under] by blast
  then have dir: "is_dir (local_fs env) local_folder" using folder by (simp add: is_dir_def)
  obtain entries failures w0 where cb: "create_blobs env c local_folder base ?files [] [] w = (entries, failures, w0)"
    by (cases "create_blobs env c local_folder base ?files [] [] w") auto
  from create_blobs_covers[OF cb mem]
  consider (failed) reason where "(?p, reason) \<in> set failures"
    | (posted) rb where "w0 = after env w rb" "blob_sent env c ?p rb" "entry_listed local_folder ?p base entries"
    by blast
  then show ?thesis
  proof cases
    case failed
    then have "failures \<noteq> []" by auto
    then have "res = Inr (BlobsFailed failures)"
      using run dir ne batch cb by (simp add: op_upload_folder_def Let_def)
    then show ?thesis using failed by blast
  next
    case posted
    show ?thesis
    proof (cases "failures = []")
      case False
      then have "res = Inr (BlobsFailed failures)" "w' = w0"
        using run dir ne batch cb by (simp_all add: op_upload_folder_def Let_def)
      then have "w' = after env w rb \<and> blob_sent env c ?p rb
                  \<and> (\<forall>sha. res = Inr (BatchDone sha) \<longrightarrow> tree_sent c local_folder ?p base rb)"
        using posted by simp
      then show ?thesis by blast
    next
      case True
      then have cm: "commit_batch env c msg entries w0 = (res, w')"
        using run dir ne batch cb by (simp add: op_upload_folder_def Let_def)
      from commit_batch_trace[OF cm] obtain bc bt nt nc k where
        w': "w' = after env w0 (take k (batch_requests env c msg entries bc bt nt nc))"
        and k: "steps_made res k" by blast
      let ?reqs = "rb @ take k (batch_requests env c msg entries bc bt nt nc)"
      have 0: "w' = after env w ?reqs" using w' posted(1) by (simp only: after_append)
      have 1: "blob_sent env c ?p ?reqs" using blob_sent_mono[OF posted(2), of ?reqs] by auto
      have 2: "tree_sent c local_folder ?p base ?reqs" if "res = Inr (BatchDone sha)" for sha
      proof -
        from that k have "k = 5" by simp
        then have "take k (batch_requests env c msg entries bc bt nt nc) = batch_requests env c msg entries bc bt nt nc"
          by (simp add: batch_requests_def)
        then show ?thesis
          unfolding tree_sent_def using tree_request_in_batch[of env c msg entries bc bt nt nc] posted(3)
          by auto
      qed
      from 0 1 2 show ?thesis by blast
    qed
  qed
qed

lemma demo_per_file_run:
  "fst (op_upload_folder demo_env demo_cfg [''proj''] ''1'' [] ''first upload'' (start (JStr ''c0'') demo_puts))
     = Inr (PerFileDone 3 [])"
  by code_simp

lemma demo_batch_result:
  "fst (op_upload_folder demo_env demo_cfg [''proj''] ''2'' [] ''first upload'' (start (JStr ''c0'') demo_answers))
     = Inr (BatchDone (JStr ''c1''))"
  by code_simp

lemma demo_pages_run:
  "fst (pages_add_file_or_folder demo_env demo_cfg ''gh-pages'' ''2'' [''proj''] [] ''first upload''
          (start (JStr ''c0'') demo_pages_puts))
     = Inr (PagesFolderDone [])"
  by code_simp

lemma demo_under: "local_fs demo_env [''proj''] = Some demo_tree \<and> file_under demo_tree [''.git'', ''config'']"
  by (simp add: demo_env_def demo_fs_def demo_tree_def file_under_def)

text \<open>
  Claim C9. The folder uploads (\<open>op_upload_folder\<close> in both modes and the folder branch of
  \<open>pages_add_file_or_folder\<close>) scan the folder with no ignore set, so every regular file
  below the folder is sent, whatever its segments and whatever the configured
  \<open>sync_ignore\<close>. For a file at \<open>rel\<close> below the folder, among the requests the run itself
  sends: a per-file upload that runs to its end has sent a \<open>PUT\<close> of that file's content
  to its repository path on the branch; a single-commit upload has either reported the
  file among the blobs that failed or sent the blob of its content, and when it ends with
  the commit, the tree it created lists the file's repository path; a Pages folder add
  that runs to its end has sent a \<open>PUT\<close> of the file's content on the Pages branch. None
  of the three depends on the configured set. The watch handler does: it ignores a path
  exactly when a segment of it is in the set.
\<close>

theorem folder_upload_ignores_nothing:
  assumes folder: "local_fs env local_folder = Some root" and under: "file_under root rel"
  shows "op_upload_folder env (c\<lparr>cfg_sync_ignore := ignore_set\<rparr>) local_folder mode base msg w
             = op_upload_folder env c local_folder mode base msg w
       \<and> pages_add_file_or_folder env (c\<lparr>cfg_sync_ignore := ignore_set\<rparr>) pages_branch choice local_folder base msg w
             = pages_add_file_or_folder env c pages_branch choice local_folder base msg w
       \<and> (op_upload_folder env c local_folder ''1'' base msg w = (Inr (PerFileDone n fl), w1)
            \<longrightarrow> (\<exists>reqs. w1 = after env w reqs
                   \<and> put_sent env (cfg_owner c) (cfg_repo c) (cfg_branch c) msg local_folder
                        (local_folder @ rel) base reqs))
       \<and> (mode \<noteq> ''1'' \<and> op_upload_folder env c local_folder mode base msg w = (res, w2)
            \<longrightarrow> (\<exists>failures reason. res = Inr (BlobsFailed failures) \<and> (local_folder @ rel, reason) \<in> set failures)
                \<or> (\<exists>reqs. w2 = after env w reqs
                     \<and> blob_sent env c (local_folder @ rel) reqs
                     \<and> (\<forall>sha. res = Inr (BatchDone sha)
                               \<longrightarrow> tree_sent c local_folder (local_folder @ rel) base reqs)))
       \<and> (choice \<noteq> ''1''
            \<and> pages_add_file_or_folder env c pages_branch choice local_folder base msg w
                = (Inr (PagesFolderDone fails), w3)
            \<longrightarrow> (\<exists>reqs. w3 = after env w reqs
                   \<and> put_sent env (cfg_owner c) (cfg_repo c) pages_branch msg local_folder
                        (local_folder @ rel) base reqs))
       \<and> (is_ignored (SyncEventHandler (c\<lparr>cfg_sync_ignore := ignore_set\<rparr>) watched base pages_branch) p
            \<longleftrightarrow> (\<exists>s\<in>set ignore_set. s \<in> set p))"
proof (intro conjI impI)
  show "op_upload_folder env (c\<lparr>cfg_sync_ignore := ignore_set\<rparr>) local_folder mode base msg w
          = op_upload_folder env c local_folder mode base msg w"
    by (rule op_upload_folder_sync_ignore)
  show "pages_add_file_or_folder env (c\<lparr>cfg_sync_ignore := ignore_set\<rparr>) pages_branch choice local_folder base msg w
          = pages_add_file_or_folder env c pages_branch choice local_folder base msg w"
    by (rule pages_add_sync_ignore)
  show "\<exists>reqs. w1 = after env w reqs
           \<and> put_sent env (cfg_owner c) (cfg_repo c) (cfg_branch c) msg local_folder (local_folder @ rel) base reqs"
    if "op_upload_folder env c local_folder ''1'' base msg w = (Inr (PerFileDone n fl), w1)"
    using per_file_covers[OF folder under that] .
  show "(\<exists>failures reason. res = Inr (BlobsFailed failures) \<and> (local_folder @ rel, reason) \<in> set failures)
        \<or> (\<exists>reqs. w2 = after env w reqs
             \<and> blob_sent env c (local_folder @ rel) reqs
             \<and> (\<forall>sha. res = Inr (BatchDone sha) \<longrightarrow> tree_sent c local_folder (local_folder @ rel) base reqs))"
    if run: "mode \<noteq> ''1'' \<and> op_upload_folder env c local_folder mode base msg w = (res, w2)"
    using batch_covers[OF folder under conjunct1[OF run] conjunct2[OF run]] .
  show "\<exists>reqs. w3 = after env w reqs
           \<and> put_sent env (cfg_owner c) (cfg_repo c) pages_branch msg local_folder (local_folder @ rel) base reqs"
    if "choice \<noteq> ''1''
        \<and> pages_add_file_or_folder env c pages_branch choice local_folder base msg w
            = (Inr (PagesFolderDone fails), w3)"
    using pages_folder_covers[OF folder under conjunct1[OF that] conjunct2[OF that]] .
  show "is_ignored (SyncEventHandler (c\<lparr>cfg_sync_ignore := ignore_set\<rparr>) watched base pages_branch) p
          \<longleftrightarrow> (\<exists>s\<in>set ignore_set. s \<in> set p)"
    by (simp add: is_ignored_def SyncEventHandler_def list_ex_iff)
qed

theorem folder_upload_ignores_nothing_witness:
  "local_fs demo_env [''proj''] = Some demo_tree
   \<and> file_under demo_tree [''.git'', ''config'']
   \<and> ''.git'' \<in> set (cfg_sync_ignore demo_cfg)
   \<and> fst (op_upload_folder demo_env demo_cfg [''proj''] ''1'' [] ''first upload'' (start (JStr ''c0'') demo_puts))
        = Inr (PerFileDone 3 [])
   \<and> put_sent demo_env ''me'' ''site'' ''main'' ''first upload'' [''proj''] [''proj'', ''.git'', ''config''] []
        (sent (snd (op_upload_folder demo_env demo_cfg [''proj''] ''1'' [] ''first upload''
                      (start (JStr ''c0'') demo_puts))))
   \<and> fst (op_upload_folder demo_env demo_cfg [''proj''] ''2'' [] ''first upload'' (start (JStr ''c0'') demo_answers))
        = Inr (BatchDone (JStr ''c1''))
   \<and> blob_sent demo_env demo_cfg [''proj'', ''.git'', ''config'']
        (sent (snd (op_upload_folder demo_env demo_cfg [''proj''] ''2'' [] ''first upload''
                      (start (JStr ''c0'') demo_answers))))
   \<and> tree_sent demo_cfg [''proj''] [''proj'', ''.git'', ''config''] []
        (sent (snd (op_upload_folder demo_env demo_cfg [''proj''] ''2'' [] ''first upload''
                      (start (JStr ''c0'') demo_answers))))
   \<and> fst (pages_add_file_or_folder demo_env demo_cfg ''gh-pages'' ''2'' [''proj''] [] ''first upload''
             (start (JStr ''c0'') demo_pages_puts))
        = Inr (PagesFolderDone [])
   \<and> put_sent demo_env ''me'' ''site'' ''gh-pages'' ''first upload'' [''proj''] [''proj'', ''.git'', ''config''] []
        (sent (snd (pages_add_file_or_folder demo_env demo_cfg ''gh-pages'' ''2'' [''proj''] [] ''first upload''
                      (start (JStr ''c0'') demo_pages_puts))))
   \<and> is_ignored (SyncEventHandler (demo_cfg\<lparr>cfg_sync_ignore := [''.git'', ''__pycache__'']\<rparr>)
         [''proj''] [] ''gh-pages'') [''proj'', ''.git'', ''config'']"
proof -
  have folder: "local_fs demo_env [''proj''] = Some demo_tree"
    and under: "file_under demo_tree [''.git'', ''config'']"
    using demo_under by simp_all
  let ?p = "[''proj'', ''.git'', ''config'']"
  let ?a = "op_upload_folder demo_env demo_cfg [''proj''] ''1'' [] ''first upload'' (start (JStr ''c0'') demo_puts)"
  let ?b = "op_upload_folder demo_env demo_cfg [''proj''] ''2'' [] ''first upload'' (start (JStr ''c0'') demo_answers)"
  let ?g = "pages_add_file_or_folder demo_env demo_cfg ''gh-pages'' ''2'' [''proj''] [] ''first upload''
              (start (JStr ''c0'') demo_pages_puts)"
  have ra: "?a = (Inr (PerFileDone 3 []), snd ?a)" using demo_per_file_run by (simp add: prod_eq_iff)
  have rb: "?b = (Inr (BatchDone (JStr ''c1'')), snd ?b)" using demo_batch_result by (simp add: prod_eq_iff)
  have rg: "?g = (Inr (PagesFolderDone []), snd ?g)" using demo_pages_run by (simp add: prod_eq_iff)
  have names: "cfg_owner demo_cfg = ''me''" "cfg_repo demo_cfg = ''site''" "cfg_branch demo_cfg = ''main''"
    "''.git'' \<in> set (cfg_sync_ignore demo_cfg)"
    by (simp_all add: demo_cfg_def)
  have fresh: "sent (after demo_env (start (JStr ''c0'') xs) reqs) = reqs" for xs reqs
    by (simp add: after_sent start_def)
  have "\<exists>reqs. snd ?a = after demo_env (start (JStr ''c0'') demo_puts) reqs
           \<and> put_sent demo_env ''me'' ''site'' ''main'' ''first upload'' [''proj''] ?p [] reqs"
    using folder_upload_ignores_nothing[OF folder under, where c = demo_cfg and msg = "''first upload''" and base = "[]"
             and w = "start (JStr ''c0'') demo_puts" and n = 3 and fl = "[]" and ?w1.0 = "snd ?a"] ra names
    by simp
  then have one: "put_sent demo_env ''me'' ''site'' ''main'' ''first upload'' [''proj''] ?p [] (sent (snd ?a))"
    using fresh by auto
  have "\<exists>reqs. snd ?b = after demo_env (start (JStr ''c0'') demo_answers) reqs
           \<and> blob_sent demo_env demo_cfg ?p reqs \<and> tree_sent demo_cfg [''proj''] ?p [] reqs"
    using folder_upload_ignores_nothing[OF folder under, where c = demo_cfg and msg = "''first upload''" and base = "[]"
             and w = "start (JStr ''c0'') demo_answers" and mode = "''2''" and res = "Inr (BatchDone (JStr ''c1''))"
             and ?w2.0 = "snd ?b"] rb
    by simp
  then have two: "blob_sent demo_env demo_cfg ?p (sent (snd ?b)) \<and> tree_sent demo_cfg [''proj''] ?p [] (sent (snd ?b))"
    using fresh by auto
  have "\<exists>reqs. snd ?g = after demo_env (start (JStr ''c0'') demo_pages_puts) reqs
           \<and> put_sent demo_env ''me'' ''site'' ''gh-pages'' ''first upload'' [''proj''] ?p [] reqs"
    using folder_upload_ignores_nothing[OF folder under, where c = demo_cfg and msg = "''first upload''" and base = "[]"
             and w = "start (JStr ''c0'') demo_pages_puts" and choice = "''2''" and pages_branch = "''gh-pages''"
             and fails = "[]" and ?w3.0 = "snd ?g"] rg names
    by simp
  then have three: "put_sent demo_env ''me'' ''site'' ''gh-pages'' ''first upload'' [''proj''] ?p [] (sent (snd ?g))"
    using fresh by auto
  have four: "is_ignored (SyncEventHandler (demo_cfg\<lparr>cfg_sync_ignore := [''.git'', ''__pycache__'']\<rparr>)
                 [''proj''] [] ''gh-pages'') ?p"
    using folder_upload_ignores_nothing[OF folder under, where c = demo_cfg and ignore_set = "[''.git'', ''__pycache__'']"
             and watched = "[''proj'']" and base = "[]" and pages_branch = "''gh-pages''" and p = ?p]
    by simp
  show ?thesis
    using folder under names(4) demo_per_file_run demo_batch_result demo_pages_run one two three four
    by (simp only: simp_thms)
qed

section \<open>Lookups that find no file\<close>

lemma lookup_request_eq:
  "mk_request ''GET'' (contents_endpoint env owner repo pth @ ''?ref='' @ branch) tok None
   = mk_request ''GET'' (''/repos/'' @ owner @ ''/'' @ repo
                          @ (if truthy pth then ''/contents/'' @ py_str env pth else ''/contents'')
                          @ ''?ref='' @ branch) tok None"
  by (simp add: contents_endpoint_def)

lemma lookup_none:
  assumes lookup: "lookup = mk_request ''GET'' (''/repos/'' @ owner @ ''/'' @ repo
                          @ (if truthy pth then ''/contents/'' @ py_str env pth else ''/contents'')
                          @ ''?ref='' @ branch) tok None"
    and answer: "transport env (remote w) lookup = (Inr r, s')"
    and none: "status_code r \<noteq> 200 \<or> (\<exists>j. decoded r = Some j \<and> \<not> is_dict j)"
  shows "get_file_sha env tok owner repo pth branch w
           = (Inr JNull, \<lparr>remote = s', sent = sent w @ [lookup]\<rparr>)"
proof -
  have eq: "mk_request ''GET'' (contents_endpoint env owner repo pth @ ''?ref='' @ branch) tok None = lookup"
    unfolding lookup by (rule lookup_request_eq)
  have "transport env (remote w)
          (mk_request ''GET'' (contents_endpoint env owner repo pth @ ''?ref='' @ branch) tok None) = (Inr r, s')"
    using answer by (simp only: eq)
  from get_file_sha_absent[OF this none] show ?thesis by (simp only: eq)
qed

text \<open>
  A lookup answered with status 200 and a body that does not decode is not turned into
  \<open>None\<close> either: \<open>r.json()\<close> raises on the success path of \<open>get_repo_contents\<close>, outside
  its \<open>try\<close>.
\<close>

lemma get_file_sha_undecodable:
  assumes lookup: "lookup = mk_request ''GET'' (''/repos/'' @ owner @ ''/'' @ repo
                          @ (if truthy pth then ''/contents/'' @ py_str env pth else ''/contents'')
                          @ ''?ref='' @ branch) tok None"
    and answer: "transport env (remote w) lookup = (Inr r, s')"
    and undecodable: "status_code r = 200" "decoded r = None"
  shows "get_file_sha env tok owner repo pth branch w
           = (Inl JSONDecodeError, \<lparr>remote = s', sent = sent w @ [lookup]\<rparr>)"
proof -
  have eq: "mk_request ''GET'' (contents_endpoint env owner repo pth @ ''?ref='' @ branch) tok None = lookup"
    unfolding lookup by (rule lookup_request_eq)
  have "transport env (remote w)
          (mk_request ''GET'' (contents_endpoint env owner repo pth @ ''?ref='' @ branch) tok None) = (Inr r, s')"
    using answer by (simp only: eq)
  from get_repo_contents_answer[OF this]
  have "get_repo_contents env tok owner repo pth branch w
          = (Inl JSONDecodeError, \<lparr>remote = s', sent = sent w @ [lookup]\<rparr>)"
    using undecodable by (simp only: eq) (simp add: resp_json_def)
  then show ?thesis by (simp add: get_file_sha_def)
qed

lemma put_without_sha:
  assumes "create_or_update_file env tok owner repo rp content_b64 message branch JNull w1 = (a, w2)"
  shows "\<exists>put. sent w2 = sent w1 @ [put]
           \<and> request_line put =
               (''PUT'', ''https://api.github.com/repos/'' @ owner @ ''/'' @ repo @ ''/contents/'' @ rp,
                Some (JDict [(''message'', JStr message), (''content'', JStr content_b64), (''branch'', JStr branch)]))"
proof -
  let ?put = "mk_request ''PUT'' (''/repos/'' @ owner @ ''/'' @ repo @ ''/contents/'' @ rp) tok
                 (Some (JDict (with_sha [(''message'', JStr message), (''content'', JStr content_b64),
                                         (''branch'', JStr branch)] JNull)))"
  have "sent w2 = sent w1 @ [?put]"
    using create_or_update_file_after[OF assms] by (simp add: after_sent)
  moreover have "request_line ?put =
               (''PUT'', ''https://api.github.com/repos/'' @ owner @ ''/'' @ repo @ ''/contents/'' @ rp,
                Some (JDict [(''message'', JStr message), (''content'', JStr content_b64), (''branch'', JStr branch)]))"
    by (simp only: put_request_line) simp
  ultimately show ?thesis by blast
qed

lemma delete_without_sha:
  assumes "delete_file env tok owner repo (JStr rp) message branch JNull w1 = (a, w2)"
  shows "\<exists>del. sent w2 = sent w1 @ [del]
           \<and> request_line del =
               (''DELETE'', ''https://api.github.com/repos/'' @ owner @ ''/'' @ repo @ ''/contents/'' @ rp,
                Some (JDict [(''message'', JStr message), (''branch'', JStr branch)]))"
proof -
  let ?del = "mk_request ''DELETE'' (''/repos/'' @ owner @ ''/'' @ repo @ ''/contents/'' @ py_str env (JStr rp)) tok
                 (Some (JDict (with_sha [(''message'', JStr message), (''branch'', JStr branch)] JNull)))"
  have "sent w2 = sent w1 @ [?del]" using delete_file_sent[OF assms] .
  moreover have "request_line ?del =
               (''DELETE'', ''https://api.github.com/repos/'' @ owner @ ''/'' @ repo @ ''/contents/'' @ rp,
                Some (JDict [(''message'', JStr message), (''branch'', JStr branch)]))"
    by (simp add: request_line_def mk_request_def GITHUB_API_def with_sha_def py_str_def)
  ultimately show ?thesis by blast
qed

lemma delete_each_sent:
  "delete_each env c msg ps failures w = (a, w') \<Longrightarrow> \<exists>reqs. sent w' = sent w @ reqs"
proof (induction ps arbitrary: failures w)
  case Nil
  then show ?case by simp
next
  case (Cons p ps)
  obtain a1 w1 where g: "get_file_sha env (cfg_token c) (cfg_owner c) (cfg_repo c) p (cfg_branch c) w = (a1, w1)"
    by (cases "get_file_sha env (cfg_token c) (cfg_owner c) (cfg_repo c) p (cfg_branch c) w") auto
  from get_file_sha_sent[OF g] obtain r1 where w1: "sent w1 = sent w @ r1" by blast
  show ?case
  proof (cases a1)
    case (Inl e)
    then have "w' = w1" using Cons.prems g by simp
    then show ?thesis using w1 by blast
  next
    case (Inr sha)
    obtain a2 w2 where d: "delete_file env (cfg_token c) (cfg_owner c) (cfg_repo c) p msg (cfg_branch c) sha w1 = (a2, w2)"
      by (cases "delete_file env (cfg_token c) (cfg_owner c) (cfg_repo c) p msg (cfg_branch c) sha w1") auto
    from delete_file_sent[OF d] w1 obtain r2 where w2: "sent w2 = sent w @ r2" by simp
    show ?thesis
    proof (cases a2)
      case (Inl e)
      then have "w' = w2" using Cons.prems g Inr d by simp
      then show ?thesis using w2 by blast
    next
      case ok: (Inr okresp)
      obtain ok2 resp where "okresp = (ok2, resp)" by (cases okresp) auto
      then have "\<exists>fl. delete_each env c msg ps fl w2 = (a, w')"
        using Cons.prems g Inr d ok by auto
      then obtain r3 where "sent w' = sent w2 @ r3" using Cons.IH by blast
      then show ?thesis using w2 by simp
    qed
  qed
qed

lemma op_upload_file_absent:
  assumes g: "get_file_sha env (cfg_token c) (cfg_owner c) (cfg_repo c) (JStr rp) (cfg_branch c) w = (Inr JNull, w1)"
    and fs: "local_fs env local_path = Some File" and rd: "read_bytes env local_path = Inr bs"
  shows "\<exists>res w' put. op_upload_file env c local_path rp overwrite message w = (res, w')
           \<and> sent w' = sent w1 @ [put]
           \<and> request_line put =
               (''PUT'', ''https://api.github.com/repos/'' @ cfg_owner c @ ''/'' @ cfg_repo c @ ''/contents/'' @ rp,
                Some (JDict [(''message'', JStr message), (''content'', JStr (b64encode env bs)),
                             (''branch'', JStr (cfg_branch c))]))
           \<and> (\<forall>sha. res \<noteq> Inr (OverwriteDeclined sha))"
proof -
  obtain a2 w2 where p: "create_or_update_file env (cfg_token c) (cfg_owner c) (cfg_repo c) rp (b64encode env bs)
                           message (cfg_branch c) JNull w1 = (a2, w2)"
    by (cases "create_or_update_file env (cfg_token c) (cfg_owner c) (cfg_repo c) rp (b64encode env bs)
                           message (cfg_branch c) JNull w1") auto
  from put_without_sha[OF p] obtain put where put: "sent w2 = sent w1 @ [put]"
    "request_line put =
               (''PUT'', ''https://api.github.com/repos/'' @ cfg_owner c @ ''/'' @ cfg_repo c @ ''/contents/'' @ rp,
                Some (JDict [(''message'', JStr message), (''content'', JStr (b64encode env bs)),
                             (''branch'', JStr (cfg_branch c))]))" by blast
  have "\<exists>res. op_upload_file env c local_path rp overwrite message w = (res, w2)
           \<and> (\<forall>sha. res \<noteq> Inr (OverwriteDeclined sha))"
    using g fs rd p by (cases a2) (auto simp: op_upload_file_def file_to_base64_def)
  then show ?thesis using put by blast
qed

lemma sync_put_absent:
  assumes g: "get_file_sha env (h_token h) (h_owner h) (h_repo h) (JStr rp) (h_pages_branch h) w = (Inr JNull, w1)"
    and rp: "repo_path_of h src = Inr rp" and rd: "read_bytes env src = Inr bs"
  shows "\<exists>res w' put. sync_put env h verb src w = (res, w')
           \<and> sent w' = sent w1 @ [put]
           \<and> request_line put =
               (''PUT'', ''https://api.github.com/repos/'' @ h_owner h @ ''/'' @ h_repo h @ ''/contents/'' @ rp,
                Some (JDict [(''message'', JStr (''Auto-sync '' @ verb @ '' '' @ rp)),
                             (''content'', JStr (b64encode env bs)),
                             (''branch'', JStr (h_pages_branch h))]))"
proof -
  obtain a2 w2 where p: "create_or_update_file env (h_token h) (h_owner h) (h_repo h) rp (b64encode env bs)
                           (''Auto-sync '' @ verb @ '' '' @ rp) (h_pages_branch h) JNull w1 = (a2, w2)"
    by (cases "create_or_update_file env (h_token h) (h_owner h) (h_repo h) rp (b64encode env bs)
                           (''Auto-sync '' @ verb @ '' '' @ rp) (h_pages_branch h) JNull w1") auto
  from put_without_sha[OF p] obtain put where put: "sent w2 = sent w1 @ [put]"
    "request_line put =
               (''PUT'', ''https://api.github.com/repos/'' @ h_owner h @ ''/'' @ h_repo h @ ''/contents/'' @ rp,
                Some (JDict [(''message'', JStr (''Auto-sync '' @ verb @ '' '' @ rp)),
                             (''content'', JStr (b64encode env bs)),
                             (''branch'', JStr (h_pages_branch h))]))" by blast
  have "\<exists>res. sync_put env h verb src w = (res, w2)"
    using g rp rd p by (cases a2) (auto simp: sync_put_def file_to_base64_def)
  then show ?thesis using put by blast
qed

lemma on_created_absent:
  assumes g: "get_file_sha env (h_token h) (h_owner h) (h_repo h) (JStr rp) (h_pages_branch h) w = (Inr JNull, w1)"
    and ev: "\<not> is_directory event" "\<not> is_ignored h (src_path event)"
    and rp: "repo_path_of h (src_path event) = Inr rp" and rd: "read_bytes env (src_path event) = Inr bs"
  shows "\<exists>out w' put. on_created env h event w = (out, w')
           \<and> sent w' = sent w1 @ [put]
           \<and> request_line put =
               (''PUT'', ''https://api.github.com/repos/'' @ h_owner h @ ''/'' @ h_repo h @ ''/contents/'' @ rp,
                Some (JDict [(''message'', JStr (''Auto-sync add '' @ rp)),
                             (''content'', JStr (b64encode env bs)),
                             (''branch'', JStr (h_pages_branch h))]))"
proof -
  from sync_put_absent[OF g rp rd, of "''add''"] obtain res w' put where
    s: "sync_put env h ''add'' (src_path event) w = (res, w')" and
    put: "sent w' = sent w1 @ [put]"
      "request_line put =
               (''PUT'', ''https://api.github.com/repos/'' @ h_owner h @ ''/'' @ h_repo h @ ''/contents/'' @ rp,
                Some (JDict [(''message'', JStr (''Auto-sync '' @ ''add'' @ '' '' @ rp)),
                             (''content'', JStr (b64encode env bs)),
                             (''branch'', JStr (h_pages_branch h))]))" by blast
  have "\<exists>out. on_created env h event w = (out, w')"
    using ev s by (auto simp: on_created_def split: sum.splits prod.splits)
  then show ?thesis using put by auto
qed

lemma on_modified_absent:
  assumes g: "get_file_sha env (h_token h) (h_owner h) (h_repo h) (JStr rp) (h_pages_branch h) w = (Inr JNull, w1)"
    and ev: "\<not> is_directory event" "\<not> is_ignored h (src_path event)"
    and rp: "repo_path_of h (src_path event) = Inr rp" and rd: "read_bytes env (src_path event) = Inr bs"
  shows "\<exists>out w' put. on_modified env h event w = (out, w')
           \<and> sent w' = sent w1 @ [put]
           \<and> request_line put =
               (''PUT'', ''https://api.github.com/repos/'' @ h_owner h @ ''/'' @ h_repo h @ ''/contents/'' @ rp,
                Some (JDict [(''message'', JStr (''Auto-sync update '' @ rp)),
                             (''content'', JStr (b64encode env bs)),
                             (''branch'', JStr (h_pages_branch h))]))"
proof -
  from sync_put_absent[OF g rp rd, of "''update''"] obtain res w' put where
    s: "sync_put env h ''update'' (src_path event) w = (res, w')" and
    put: "sent w' = sent w1 @ [put]"
      "request_line put =
               (''PUT'', ''https://api.github.com/repos/'' @ h_owner h @ ''/'' @ h_repo h @ ''/contents/'' @ rp,
                Some (JDict [(''message'', JStr (''Auto-sync '' @ ''update'' @ '' '' @ rp)),
                             (''content'', JStr (b64encode env bs)),
                             (''branch'', JStr (h_pages_branch h))]))" by blast
  have "\<exists>out. on_modified env h event w = (out, w')"
    using ev s by (auto simp: on_modified_def split: sum.splits prod.splits)
  then show ?thesis using put by auto
qed

lemma on_deleted_absent:
  assumes g: "get_file_sha env (h_token h) (h_owner h) (h_repo h) (JStr rp) (h_pages_branch h) w = (Inr JNull, w1)"
    and ev: "\<not> is_directory event" "\<not> is_ignored h (src_path event)"
    and rp: "repo_path_of h (src_path event) = Inr rp"
  shows "on_deleted env h event w = (NotInRepo rp, w1)"
  using ev rp g by (simp add: on_deleted_def)

lemma delete_each_absent:
  assumes g: "get_file_sha env (cfg_token c) (cfg_owner c) (cfg_repo c) (JStr rp) (cfg_branch c) w = (Inr JNull, w1)"
  shows "\<exists>res w' del reqs. delete_each env c msg (JStr rp # ps) failures w = (res, w')
           \<and> sent w' = sent w1 @ [del] @ reqs
           \<and> request_line del =
               (''DELETE'', ''https://api.github.com/repos/'' @ cfg_owner c @ ''/'' @ cfg_repo c @ ''/contents/'' @ rp,
                Some (JDict [(''message'', JStr msg), (''branch'', JStr (cfg_branch c))]))"
proof -
  obtain a2 w2 where d: "delete_file env (cfg_token c) (cfg_owner c) (cfg_repo c) (JStr rp) msg (cfg_branch c) JNull w1 = (a2, w2)"
    by (cases "delete_file env (cfg_token c) (cfg_owner c) (cfg_repo c) (JStr rp) msg (cfg_branch c) JNull w1") auto
  from delete_without_sha[OF d] obtain del where del: "sent w2 = sent w1 @ [del]"
    "request_line del =
               (''DELETE'', ''https://api.github.com/repos/'' @ cfg_owner c @ ''/'' @ cfg_repo c @ ''/contents/'' @ rp,
                Some (JDict [(''message'', JStr msg), (''branch'', JStr (cfg_branch c))]))" by blast
  obtain res w' where run: "delete_each env c msg (JStr rp # ps) failures w = (res, w')"
    by (cases "delete_each env c msg (JStr rp # ps) failures w") auto
  have "\<exists>reqs. sent w' = sent w2 @ reqs"
  proof (cases a2)
    case (Inl e)
    then have "w' = w2" using run g d by simp
    then show ?thesis by simp
  next
    case (Inr okresp)
    obtain ok2 resp where "okresp = (ok2, resp)" by (cases okresp) auto
    then have "\<exists>fl. delete_each env c msg ps fl w2 = (res, w')"
      using run g d Inr by auto
    then show ?thesis using delete_each_sent by blast
  qed
  then obtain reqs where "sent w' = sent w1 @ [del] @ reqs" using del(1) by auto
  then show ?thesis using run del(2) by blast
qed

text \<open>
  Claim C10 (amended). Whenever the lookup request is answered with a status other than
  200 (the path is missing, or the request was refused: conflict, rate limit, server
  error, whatever the body), or with status 200 and a JSON body that is not an object
  (the path is a directory and the body is a list), \<open>get_file_sha\<close> returns \<open>None\<close> and
  nothing else of the answer. Its callers then go on as for an absent file: the
  single-file upload asks no overwrite question and sends a \<open>PUT\<close> without \<open>sha\<close>; the
  bulk delete sends its \<open>DELETE\<close> without \<open>sha\<close>; the watch handler reports a deleted
  file as not in the repository and sends nothing more, and sends a \<open>PUT\<close> without \<open>sha\<close>
  for a created or modified file.
\<close>

theorem get_file_sha_none:
  assumes lookup: "lookup = mk_request ''GET'' (''/repos/'' @ owner @ ''/'' @ repo
                          @ (if truthy pth then ''/contents/'' @ py_str env pth else ''/contents'')
                          @ ''?ref='' @ branch) tok None"
    and answer: "transport env (remote w) lookup = (Inr r, s')"
    and none: "status_code r \<noteq> 200 \<or> (\<exists>j. decoded r = Some j \<and> \<not> is_dict j)"
  shows "get_file_sha env tok owner repo pth branch w
           = (Inr JNull, \<lparr>remote = s', sent = sent w @ [lookup]\<rparr>)
       \<and> (pth = JStr rp \<and> cfg_token c = tok \<and> cfg_owner c = owner \<and> cfg_repo c = repo \<and> cfg_branch c = branch
            \<longrightarrow> (local_fs env local_path = Some File \<and> read_bytes env local_path = Inr bs
                   \<longrightarrow> (\<exists>res w' put. op_upload_file env c local_path rp overwrite message w = (res, w')
                          \<and> sent w' = sent w @ [lookup, put]
                          \<and> request_line put =
                              (''PUT'', ''https://api.github.com/repos/'' @ owner @ ''/'' @ repo @ ''/contents/'' @ rp,
                               Some (JDict [(''message'', JStr message), (''content'', JStr (b64encode env bs)),
                                            (''branch'', JStr branch)]))
                          \<and> (\<forall>sha. res \<noteq> Inr (OverwriteDeclined sha))))
               \<and> (\<exists>res w' del reqs. delete_each env c msg (JStr rp # ps) failures w = (res, w')
                          \<and> sent w' = sent w @ [lookup, del] @ reqs
                          \<and> request_line del =
                              (''DELETE'', ''https://api.github.com/repos/'' @ owner @ ''/'' @ repo @ ''/contents/'' @ rp,
                               Some (JDict [(''message'', JStr msg), (''branch'', JStr branch)]))))
       \<and> (pth = JStr rp \<and> h_token h = tok \<and> h_owner h = owner \<and> h_repo h = repo \<and> h_pages_branch h = branch
            \<and> \<not> is_directory event \<and> \<not> is_ignored h (src_path event)
            \<and> repo_path_of h (src_path event) = Inr rp
            \<longrightarrow> on_deleted env h event w = (NotInRepo rp, \<lparr>remote = s', sent = sent w @ [lookup]\<rparr>)
               \<and> (read_bytes env (src_path event) = Inr cs
                   \<longrightarrow> (\<exists>out w' put. on_created env h event w = (out, w')
                          \<and> sent w' = sent w @ [lookup, put]
                          \<and> request_line put =
                              (''PUT'', ''https://api.github.com/repos/'' @ owner @ ''/'' @ repo @ ''/contents/'' @ rp,
                               Some (JDict [(''message'', JStr (''Auto-sync add '' @ rp)),
                                            (''content'', JStr (b64encode env cs)), (''branch'', JStr branch)])))
                     \<and> (\<exists>out w' put. on_modified env h event w = (out, w')
                          \<and> sent w' = sent w @ [lookup, put]
                          \<and> request_line put =
                              (''PUT'', ''https://api.github.com/repos/'' @ owner @ ''/'' @ repo @ ''/contents/'' @ rp,
                               Some (JDict [(''message'', JStr (''Auto-sync update '' @ rp)),
                                            (''content'', JStr (b64encode env cs)), (''branch'', JStr branch)])))))"
proof -
  let ?w1 = "\<lparr>remote = s', sent = sent w @ [lookup]\<rparr>"
  have g: "get_file_sha env tok owner repo pth branch w = (Inr JNull, ?w1)"
    using lookup_none[OF lookup answer none] .
  have A: "\<exists>res w' put. op_upload_file env c local_path rp overwrite message w = (res, w')
                          \<and> sent w' = sent w @ [lookup, put]
                          \<and> request_line put =
                              (''PUT'', ''https://api.github.com/repos/'' @ owner @ ''/'' @ repo @ ''/contents/'' @ rp,
                               Some (JDict [(''message'', JStr message), (''content'', JStr (b64encode env bs)),
                                            (''branch'', JStr branch)]))
                          \<and> (\<forall>sha. res \<noteq> Inr (OverwriteDeclined sha))"
    if c: "pth = JStr rp \<and> cfg_token c = tok \<and> cfg_owner c = owner \<and> cfg_repo c = repo \<and> cfg_branch c = branch"
      and f: "local_fs env local_path = Some File \<and> read_bytes env local_path = Inr bs"
  proof -
    have gc: "get_file_sha env (cfg_token c) (cfg_owner c) (cfg_repo c) (JStr rp) (cfg_branch c) w = (Inr JNull, ?w1)"
      using g c by simp
    from op_upload_file_absent[OF gc, of local_path bs overwrite message] f c
    show ?thesis by simp
  qed
  have B: "\<exists>res w' del reqs. delete_each env c msg (JStr rp # ps) failures w = (res, w')
                          \<and> sent w' = sent w @ [lookup, del] @ reqs
                          \<and> request_line del =
                              (''DELETE'', ''https://api.github.com/repos/'' @ owner @ ''/'' @ repo @ ''/contents/'' @ rp,
                               Some (JDict [(''message'', JStr msg), (''branch'', JStr branch)]))"
    if c: "pth = JStr rp \<and> cfg_token c = tok \<and> cfg_owner c = owner \<and> cfg_repo c = repo \<and> cfg_branch c = branch"
  proof -
    have gc: "get_file_sha env (cfg_token c) (cfg_owner c) (cfg_repo c) (JStr rp) (cfg_branch c) w = (Inr JNull, ?w1)"
      using g c by simp
    from delete_each_absent[OF gc, of msg ps failures] c
    show ?thesis by simp
  qed
  have C: "on_deleted env h event w = (NotInRepo rp, ?w1)"
    if c: "pth = JStr rp \<and> h_token h = tok \<and> h_owner h = owner \<and> h_repo h = repo \<and> h_pages_branch h = branch
            \<and> \<not> is_directory event \<and> \<not> is_ignored h (src_path event)
            \<and> repo_path_of h (src_path event) = Inr rp"
  proof -
    have gh: "get_file_sha env (h_token h) (h_owner h) (h_repo h) (JStr rp) (h_pages_branch h) w = (Inr JNull, ?w1)"
      using g c by simp
    from on_deleted_absent[OF gh] c show ?thesis by simp
  qed
  have D: "(\<exists>out w' put. on_created env h event w = (out, w')
                          \<and> sent w' = sent w @ [lookup, put]
                          \<and> request_line put =
                              (''PUT'', ''https://api.github.com/repos/'' @ owner @ ''/'' @ repo @ ''/contents/'' @ rp,
                               Some (JDict [(''message'', JStr (''Auto-sync add '' @ rp)),
                                            (''content'', JStr (b64encode env cs)), (''branch'', JStr branch)])))
         \<and> (\<exists>out w' put. on_modified env h event w = (out, w')
                          \<and> sent w' = sent w @ [lookup, put]
                          \<and> request_line put =
                              (''PUT'', ''https://api.github.com/repos/'' @ owner @ ''/'' @ repo @ ''/contents/'' @ rp,
                               Some (JDict [(''message'', JStr (''Auto-sync update '' @ rp)),
                                            (''content'', JStr (b64encode env cs)), (''branch'', JStr branch)])))"
    if c: "pth = JStr rp \<and> h_token h = tok \<and> h_owner h = owner \<and> h_repo h = repo \<and> h_pages_branch h = branch
            \<and> \<not> is_directory event \<and> \<not> is_ignored h (src_path event)
            \<and> repo_path_of h (src_path event) = Inr rp"
      and rd: "read_bytes env (src_path event) = Inr cs"
  proof -
    have gh: "get_file_sha env (h_token h) (h_owner h) (h_repo h) (JStr rp) (h_pages_branch h) w = (Inr JNull, ?w1)"
      using g c by simp
    from c have ev: "\<not> is_directory event" "\<not> is_ignored h (src_path event)"
      "repo_path_of h (src_path event) = Inr rp" by simp_all
    from on_created_absent[OF gh ev rd] on_modified_absent[OF gh ev rd] c
    show ?thesis by simp
  qed
  from g A B C D show ?thesis by (simp only: simp_thms) blast
qed

theorem get_file_sha_none_witness:
  "get_file_sha demo_env ''t0ken'' ''me'' ''site'' (JStr ''a.txt'') ''main''
       (start (JStr ''c0'') [not_found, answer 201 (JDict [])])
     = (Inr JNull, \<lparr>remote = (JStr ''c0'', [answer 201 (JDict [])]),
                    sent = [mk_request ''GET'' ''/repos/me/site/contents/a.txt?ref=main'' ''t0ken'' None]\<rparr>)
   \<and> get_file_sha demo_env ''t0ken'' ''me'' ''site'' (JStr ''a.txt'') ''main''
       (start (JStr ''c0'') [bad_gateway, answer 201 (JDict [])])
     = (Inr JNull, \<lparr>remote = (JStr ''c0'', [answer 201 (JDict [])]),
                    sent = [mk_request ''GET'' ''/repos/me/site/contents/a.txt?ref=main'' ''t0ken'' None]\<rparr>)
   \<and> get_file_sha demo_env ''t0ken'' ''me'' ''site'' (JStr ''sub'') ''main''
       (start (JStr ''c0'') [sub_listing, answer 201 (JDict [])])
     = (Inr JNull, \<lparr>remote = (JStr ''c0'', [answer 201 (JDict [])]),
                    sent = [mk_request ''GET'' ''/repos/me/site/contents/sub?ref=main'' ''t0ken'' None]\<rparr>)
   \<and> (\<exists>res w' put. op_upload_file file_env demo_cfg [''proj'', ''a.txt''] ''a.txt'' False ''first upload''
                        (start (JStr ''c0'') [bad_gateway, answer 201 (JDict [])]) = (res, w')
         \<and> sent w' = [mk_request ''GET'' ''/repos/me/site/contents/a.txt?ref=main'' ''t0ken'' None, put]
         \<and> request_line put = (''PUT'', ''https://api.github.com/repos/me/site/contents/a.txt'',
              Some (JDict [(''message'', JStr ''first upload''), (''content'', JStr ''alpha''),
                           (''branch'', JStr ''main'')]))
         \<and> (\<forall>sha. res \<noteq> Inr (OverwriteDeclined sha)))
   \<and> (\<exists>res w' del reqs. delete_each demo_env demo_cfg ''clean up'' [JStr ''a.txt''] []
                        (start (JStr ''c0'') [bad_gateway, answer 201 (JDict [])]) = (res, w')
         \<and> sent w' = [mk_request ''GET'' ''/repos/me/site/contents/a.txt?ref=main'' ''t0ken'' None, del] @ reqs
         \<and> request_line del = (''DELETE'', ''https://api.github.com/repos/me/site/contents/a.txt'',
              Some (JDict [(''message'', JStr ''clean up''), (''branch'', JStr ''main'')])))
   \<and> on_deleted demo_env demo_handler demo_deleted (start (JStr ''c0'') [bad_gateway, answer 201 (JDict [])])
     = (NotInRepo ''docs/sub/b.txt'',
        \<lparr>remote = (JStr ''c0'', [answer 201 (JDict [])]),
          sent = [mk_request ''GET'' ''/repos/me/site/contents/docs/sub/b.txt?ref=gh-pages'' ''t0ken'' None]\<rparr>)
   \<and> (\<exists>out w' put. on_created demo_env demo_handler demo_deleted
                        (start (JStr ''c0'') [bad_gateway, answer 201 (JDict [])]) = (out, w')
         \<and> sent w' = [mk_request ''GET'' ''/repos/me/site/contents/docs/sub/b.txt?ref=gh-pages'' ''t0ken'' None, put]
         \<and> request_line put = (''PUT'', ''https://api.github.com/repos/me/site/contents/docs/sub/b.txt'',
              Some (JDict [(''message'', JStr ''Auto-sync add docs/sub/b.txt''), (''content'', JStr ''beta''),
                           (''branch'', JStr ''gh-pages'')])))
   \<and> (\<exists>out w' put. on_modified demo_env demo_handler demo_deleted
                        (start (JStr ''c0'') [bad_gateway, answer 201 (JDict [])]) = (out, w')
         \<and> sent w' = [mk_request ''GET'' ''/repos/me/site/contents/docs/sub/b.txt?ref=gh-pages'' ''t0ken'' None, put]
         \<and> request_line put = (''PUT'', ''https://api.github.com/repos/me/site/contents/docs/sub/b.txt'',
              Some (JDict [(''message'', JStr ''Auto-sync update docs/sub/b.txt''), (''content'', JStr ''beta''),
                           (''branch'', JStr ''gh-pages'')])))"
proof -
  let ?rest = "[answer 201 (JDict [])]"
  let ?a = "mk_request ''GET'' ''/repos/me/site/contents/a.txt?ref=main'' ''t0ken'' None"
  let ?d = "mk_request ''GET'' ''/repos/me/site/contents/sub?ref=main'' ''t0ken'' None"
  let ?b = "mk_request ''GET'' ''/repos/me/site/contents/docs/sub/b.txt?ref=gh-pages'' ''t0ken'' None"
  have la: "?a = mk_request ''GET'' (''/repos/'' @ ''me'' @ ''/'' @ ''site''
                    @ (if truthy (JStr ''a.txt'') then ''/contents/'' @ py_str demo_env (JStr ''a.txt'') else ''/contents'')
                    @ ''?ref='' @ ''main'') ''t0ken'' None"
    by (simp add: py_str_def)
  have ld: "?d = mk_request ''GET'' (''/repos/'' @ ''me'' @ ''/'' @ ''site''
                    @ (if truthy (JStr ''sub'') then ''/contents/'' @ py_str demo_env (JStr ''sub'') else ''/contents'')
                    @ ''?ref='' @ ''main'') ''t0ken'' None"
    by (simp add: py_str_def)
  have lb: "?b = mk_request ''GET'' (''/repos/'' @ ''me'' @ ''/'' @ ''site''
                    @ (if truthy (JStr ''docs/sub/b.txt'') then ''/contents/'' @ py_str demo_env (JStr ''docs/sub/b.txt'')
                       else ''/contents'')
                    @ ''?ref='' @ ''gh-pages'') ''t0ken'' None"
    by (simp add: py_str_def)
  have t404: "transport demo_env (remote (start (JStr ''c0'') (not_found # ?rest))) ?a
               = (Inr \<lparr>status_code = 404, content = ''{...}'', decoded = Some (JDict [(''message'', JStr ''Not Found'')])\<rparr>,
                  (JStr ''c0'', ?rest))"
    by (simp add: demo_defs not_found_def mk_request_def)
  have t502a: "transport demo_env (remote (start (JStr ''c0'') (bad_gateway # ?rest))) ?a
               = (Inr \<lparr>status_code = 502, content = ''<html>Bad Gateway</html>'', decoded = None\<rparr>, (JStr ''c0'', ?rest))"
    by (simp add: demo_defs bad_gateway_def mk_request_def)
  have t502b: "transport demo_env (remote (start (JStr ''c0'') (bad_gateway # ?rest))) ?b
               = (Inr \<lparr>status_code = 502, content = ''<html>Bad Gateway</html>'', decoded = None\<rparr>, (JStr ''c0'', ?rest))"
    by (simp add: demo_defs bad_gateway_def mk_request_def)
  have t200: "transport demo_env (remote (start (JStr ''c0'') (sub_listing # ?rest))) ?d
               = (Inr \<lparr>status_code = 200, content = ''{...}'', decoded = Some (JList [file_entry ''sub/b.txt'' ''b2''])\<rparr>,
                  (JStr ''c0'', ?rest))"
    by (simp add: demo_defs sub_listing_def mk_request_def)
  have n404: "status_code \<lparr>status_code = 404, content = ''{...}'', decoded = Some (JDict [(''message'', JStr ''Not Found'')])\<rparr> \<noteq> 200
              \<or> (\<exists>j. decoded \<lparr>status_code = 404, content = ''{...}'', decoded = Some (JDict [(''message'', JStr ''Not Found'')])\<rparr> = Some j
                      \<and> \<not> is_dict j)"
    by simp
  have n502: "status_code \<lparr>status_code = 502, content = ''<html>Bad Gateway</html>'', decoded = None\<rparr> \<noteq> 200
              \<or> (\<exists>j. decoded \<lparr>status_code = 502, content = ''<html>Bad Gateway</html>'', decoded = None\<rparr> = Some j \<and> \<not> is_dict j)"
    by simp
  have n200: "status_code \<lparr>status_code = 200, content = ''{...}'', decoded = Some (JList [file_entry ''sub/b.txt'' ''b2''])\<rparr> \<noteq> 200
              \<or> (\<exists>j. decoded \<lparr>status_code = 200, content = ''{...}'', decoded = Some (JList [file_entry ''sub/b.txt'' ''b2''])\<rparr> = Some j
                      \<and> \<not> is_dict j)"
    by simp
  have empty: "sent (start (JStr ''c0'') xs) = []" for xs :: "(exn + response) list"
    by (simp add: start_def)
  have one: "get_file_sha demo_env ''t0ken'' ''me'' ''site'' (JStr ''a.txt'') ''main''
               (start (JStr ''c0'') [not_found, answer 201 (JDict [])])
             = (Inr JNull, \<lparr>remote = (JStr ''c0'', ?rest), sent = [?a]\<rparr>)"
    using get_file_sha_none[OF la t404 n404] by (simp add: empty)
  have two: "get_file_sha demo_env ''t0ken'' ''me'' ''site'' (JStr ''a.txt'') ''main''
               (start (JStr ''c0'') [bad_gateway, answer 201 (JDict [])])
             = (Inr JNull, \<lparr>remote = (JStr ''c0'', ?rest), sent = [?a]\<rparr>)"
    using get_file_sha_none[OF la t502a n502] by (simp add: empty)
  have three: "get_file_sha demo_env ''t0ken'' ''me'' ''site'' (JStr ''sub'') ''main''
               (start (JStr ''c0'') [sub_listing, answer 201 (JDict [])])
             = (Inr JNull, \<lparr>remote = (JStr ''c0'', ?rest), sent = [?d]\<rparr>)"
    using get_file_sha_none[OF ld t200 n200] by (simp add: empty)
  have cfg: "cfg_token demo_cfg = ''t0ken''" "cfg_owner demo_cfg = ''me''" "cfg_repo demo_cfg = ''site''"
    "cfg_branch demo_cfg = ''main''"
    by (simp_all add: demo_cfg_def)
  have loc: "local_fs file_env [''proj'', ''a.txt''] = Some File" "read_bytes file_env [''proj'', ''a.txt''] = Inr ''alpha''"
    "read_bytes demo_env (src_path demo_deleted) = Inr ''beta''" "b64encode demo_env = (\<lambda>s. s)"
    "b64encode file_env = (\<lambda>s. s)"
    by (simp_all add: file_env_def demo_env_def demo_read_def demo_deleted_def)
  have lf: "?a = mk_request ''GET'' (''/repos/'' @ ''me'' @ ''/'' @ ''site''
                    @ (if truthy (JStr ''a.txt'') then ''/contents/'' @ py_str file_env (JStr ''a.txt'') else ''/contents'')
                    @ ''?ref='' @ ''main'') ''t0ken'' None"
    by (simp add: py_str_def)
  have tf: "transport file_env (remote (start (JStr ''c0'') (bad_gateway # ?rest))) ?a
               = (Inr \<lparr>status_code = 502, content = ''<html>Bad Gateway</html>'', decoded = None\<rparr>, (JStr ''c0'', ?rest))"
    by (simp add: file_env_def demo_defs bad_gateway_def mk_request_def)
  have hnd: "h_token demo_handler = ''t0ken''" "h_owner demo_handler = ''me''" "h_repo demo_handler = ''site''"
    "h_pages_branch demo_handler = ''gh-pages''" "\<not> is_directory demo_deleted"
    "\<not> is_ignored demo_handler (src_path demo_deleted)"
    "repo_path_of demo_handler (src_path demo_deleted) = Inr ''docs/sub/b.txt''"
    by (simp_all add: handler_defs demo_cfg_def)
  have four: "\<exists>res w' put. op_upload_file file_env demo_cfg [''proj'', ''a.txt''] ''a.txt'' False ''first upload''
                        (start (JStr ''c0'') [bad_gateway, answer 201 (JDict [])]) = (res, w')
         \<and> sent w' = [?a, put]
         \<and> request_line put = (''PUT'', ''https://api.github.com/repos/me/site/contents/a.txt'',
              Some (JDict [(''message'', JStr ''first upload''), (''content'', JStr ''alpha''),
                           (''branch'', JStr ''main'')]))
         \<and> (\<forall>sha. res \<noteq> Inr (OverwriteDeclined sha))"
    using get_file_sha_none[OF lf tf n502, where rp = "''a.txt''" and c = demo_cfg
            and local_path = "[''proj'', ''a.txt'']" and bs = "''alpha''" and overwrite = False
            and message = "''first upload''"] cfg loc
    by (simp add: empty)
  have five: "\<exists>res w' del reqs. delete_each demo_env demo_cfg ''clean up'' [JStr ''a.txt''] []
                        (start (JStr ''c0'') [bad_gateway, answer 201 (JDict [])]) = (res, w')
         \<and> sent w' = [?a, del] @ reqs
         \<and> request_line del = (''DELETE'', ''https://api.github.com/repos/me/site/contents/a.txt'',
              Some (JDict [(''message'', JStr ''clean up''), (''branch'', JStr ''main'')]))"
    using get_file_sha_none[OF la t502a n502, where rp = "''a.txt''" and c = demo_cfg
            and msg = "''clean up''" and ps = "[]" and failures = "[]"] cfg
    by (simp add: empty del: delete_each.simps)
  note H = get_file_sha_none[OF lb t502b n502, where rp = "''docs/sub/b.txt''" and h = demo_handler
            and event = demo_deleted and cs = "''beta''"]
  have six: "on_deleted demo_env demo_handler demo_deleted (start (JStr ''c0'') [bad_gateway, answer 201 (JDict [])])
     = (NotInRepo ''docs/sub/b.txt'', \<lparr>remote = (JStr ''c0'', ?rest), sent = [?b]\<rparr>)"
    using H hnd by (simp add: empty)
  have seven: "\<exists>out w' put. on_created demo_env demo_handler demo_deleted
                        (start (JStr ''c0'') [bad_gateway, answer 201 (JDict [])]) = (out, w')
         \<and> sent w' = [?b, put]
         \<and> request_line put = (''PUT'', ''https://api.github.com/repos/me/site/contents/docs/sub/b.txt'',
              Some (JDict [(''message'', JStr ''Auto-sync add docs/sub/b.txt''), (''content'', JStr ''beta''),
                           (''branch'', JStr ''gh-pages'')]))"
    using H hnd loc by (simp add: empty)
  have eight: "\<exists>out w' put. on_modified demo_env demo_handler demo_deleted
                        (start (JStr ''c0'') [bad_gateway, answer 201 (JDict [])]) = (out, w')
         \<and> sent w' = [?b, put]
         \<and> request_line put = (''PUT'', ''https://api.github.com/repos/me/site/contents/docs/sub/b.txt'',
              Some (JDict [(''message'', JStr ''Auto-sync update docs/sub/b.txt''), (''content'', JStr ''beta''),
                           (''branch'', JStr ''gh-pages'')]))"
    using H hnd loc by (simp add: empty)
  from one two three four five six seven eight show ?thesis by (simp only: simp_thms)
qed

text \<open>
  A failure below HTTP is not turned into \<open>None\<close>: the exception of the transport leaves
  \<open>get_file_sha\<close>.
\<close>

theorem get_file_sha_raises_counterexample:
  "fst (get_file_sha demo_env ''t0ken'' ''me'' ''site'' (JStr ''a.txt'') ''main''
          (start (JStr ''c0'') [Inl (ConnectionError ''timed out'')])) = Inl (ConnectionError ''timed out'')"
  by (simp add: demo_defs get_file_sha_def get_repo_contents_def api_request_def)

section \<open>Properties of the remote walker\<close>

lemma items_beneath_Nil: "items_beneath listing [] = {}"
  by (simp add: items_beneath_def)

lemma items_beneath_Cons:
  "items_beneath listing (it # items) =
     {q. (py_get it ''type'' = Inr (JStr ''file'') \<and> py_get it ''path'' = Inr q)
       \<or> (py_get it ''type'' = Inr (JStr ''dir'') \<and> (\<exists>d. py_get it ''path'' = Inr d \<and> beneath listing d q))}
     \<union> items_beneath listing items"
  by (auto simp: items_beneath_def)

lemma beneath_list:
  assumes "status_code (listing p) = 200" "decoded (listing p) = Some (JList items)"
  shows "{q. beneath listing p q} = items_beneath listing items"
proof (rule set_eqI, rule iffI)
  fix q assume "q \<in> {q. beneath listing p q}"
  then have "beneath listing p q" by simp
  then show "q \<in> items_beneath listing items"
    using assms by (cases rule: beneath.cases) (auto simp: items_beneath_def)
next
  fix q assume "q \<in> items_beneath listing items"
  then show "q \<in> {q. beneath listing p q}"
    using assms by (auto simp: items_beneath_def intro: beneath.file_entry_in beneath.dir_entry_in)
qed

lemma beneath_not_ok:
  assumes "status_code (listing p) \<noteq> 200"
  shows "{q. beneath listing p q} = {}"
proof -
  have False if "beneath listing p q" for q
    using that assms by (cases rule: beneath.cases) auto
  then show ?thesis by auto
qed

lemma beneath_dict:
  assumes "status_code (listing p) = 200" "decoded (listing p) = Some (JDict d)"
  shows "{q. beneath listing p q} =
           (if py_get (JDict d) ''type'' = Inr (JStr ''file'')
            then {case map_of d ''path'' of None \<Rightarrow> JNull | Some v \<Rightarrow> v} else {})"
proof -
  have 1: "py_get (JDict d) ''type'' = Inr (JStr ''file'')
           \<and> q = (case map_of d ''path'' of None \<Rightarrow> JNull | Some v \<Rightarrow> v)"
    if "beneath listing p q" for q
    using that assms by (cases rule: beneath.cases) auto
  have 2: "beneath listing p (case map_of d ''path'' of None \<Rightarrow> JNull | Some v \<Rightarrow> v)"
    if "py_get (JDict d) ''type'' = Inr (JStr ''file'')"
    using that assms by (intro beneath.single_file[where d = d]) auto
  show ?thesis using 1 2 by auto
qed

lemma beneath_other:
  assumes "status_code (listing p) = 200" "decoded (listing p) = Some j" "\<not> is_dict j" "\<forall>items. j \<noteq> JList items"
  shows "{q. beneath listing p q} = {}"
proof -
  have False if "beneath listing p q" for q
    using that assms by (cases rule: beneath.cases) auto
  then show ?thesis by auto
qed

lemma get_repo_contents_static:
  assumes "static_remote env token owner repo branch listing"
  shows "get_repo_contents env token owner repo p branch w =
           (if status_code (listing p) = 200
            then (case resp_json (listing p) of Inl e \<Rightarrow> Inl e | Inr j \<Rightarrow> Inr (True, j))
            else (case resp_json (listing p) of Inl e \<Rightarrow> Inr (False, http_message (listing p))
                                             | Inr j \<Rightarrow> Inr (False, j)),
            \<lparr>remote = remote w, sent = sent w @ [contents_request env token owner repo branch p]\<rparr>)"
proof -
  have "transport env (remote w) (mk_request ''GET'' (contents_endpoint env owner repo p @ ''?ref='' @ branch) token None)
          = (Inr (listing p), remote w)"
    using assms by (simp add: static_remote_def contents_request_def)
  from get_repo_contents_answer[OF this] show ?thesis by (simp add: contents_request_def)
qed

lemma gather_items_walk:
  assumes rec: "\<And>p acc w. depth p < n \<Longrightarrow>
                  \<exists>paths w'. gather_rec n env token owner repo branch p acc w = Some (Inr (acc @ paths), w')
                            \<and> set paths = {q. beneath listing p q} \<and> remote w' = remote w"
    and dicts: "\<forall>it\<in>set items. is_dict it"
    and deep: "\<forall>it\<in>set items. \<forall>d. py_get it ''type'' = Inr (JStr ''dir'') \<longrightarrow> py_get it ''path'' = Inr d
                  \<longrightarrow> depth d < n"
  shows "\<exists>paths w'. gather_items n env token owner repo branch items acc w = Some (Inr (acc @ paths), w')
                   \<and> set paths = items_beneath listing items \<and> remote w' = remote w"
  using dicts deep
proof (induction items arbitrary: acc w)
  case Nil
  have "gather_items n env token owner repo branch [] acc w = Some (Inr (acc @ []), w)" by simp
  then show ?case by (metis items_beneath_Nil list.set(1))
next
  case (Cons it items)
  from Cons.prems(1) obtain d0 where it: "it = JDict d0" by (cases it) auto
  obtain t where t: "py_get it ''type'' = Inr t" using it by simp
  obtain q where q: "py_get it ''path'' = Inr q" using it by simp
  have IH: "\<exists>paths w'. gather_items n env token owner repo branch items acc' v = Some (Inr (acc' @ paths), w')
                   \<and> set paths = items_beneath listing items \<and> remote w' = remote v" for acc' v
    using Cons.IH Cons.prems by simp
  consider (isfile) "t = JStr ''file''" | (isdir) "t = JStr ''dir''" | (other) "t \<noteq> JStr ''file''" "t \<noteq> JStr ''dir''"
    by blast
  then show ?case
  proof cases
    case isfile
    obtain paths w' where r: "gather_items n env token owner repo branch items (acc @ [q]) w = Some (Inr ((acc @ [q]) @ paths), w')"
        "set paths = items_beneath listing items" "remote w' = remote w"
      using IH by blast
    have "gather_items n env token owner repo branch (it # items) acc w = Some (Inr (acc @ (q # paths)), w')"
      using r(1) t q isfile by simp
    moreover have "set (q # paths) = items_beneath listing (it # items)"
      using r(2) t q isfile by (auto simp: items_beneath_Cons)
    ultimately show ?thesis using r(3) by blast
  next
    case isdir
    have "depth q < n" using Cons.prems(2) t q isdir by simp
    from rec[OF this] obtain ps1 w1 where r1:
        "gather_rec n env token owner repo branch q acc w = Some (Inr (acc @ ps1), w1)"
        "set ps1 = {x. beneath listing q x}" "remote w1 = remote w"
      by blast
    obtain paths w' where r: "gather_items n env token owner repo branch items (acc @ ps1) w1 = Some (Inr ((acc @ ps1) @ paths), w')"
        "set paths = items_beneath listing items" "remote w' = remote w1"
      using IH by blast
    have "gather_items n env token owner repo branch (it # items) acc w = Some (Inr (acc @ (ps1 @ paths)), w')"
      using r(1) r1(1) t q isdir by simp
    moreover have "set (ps1 @ paths) = items_beneath listing (it # items)"
      using r(2) r1(2) t q isdir by (auto simp: items_beneath_Cons)
    ultimately show ?thesis using r(3) r1(3) by (metis)
  next
    case other
    obtain paths w' where r: "gather_items n env token owner repo branch items acc w = Some (Inr (acc @ paths), w')"
        "set paths = items_beneath listing items" "remote w' = remote w"
      using IH by blast
    have "gather_items n env token owner repo branch (it # items) acc w = Some (Inr (acc @ paths), w')"
      using r(1) t q other by simp
    moreover have "set paths = items_beneath listing (it # items)"
      using r(2) t q other by (auto simp: items_beneath_Cons)
    ultimately show ?thesis using r(3) by blast
  qed
qed

lemma gather_rec_walk:
  assumes static: "static_remote env token owner repo branch listing"
    and wf: "well_listed listing"
    and bd: "bounded_depth listing depth"
  shows "depth p < n \<Longrightarrow>
           \<exists>paths w'. gather_rec n env token owner repo branch p acc w = Some (Inr (acc @ paths), w')
                     \<and> set paths = {q. beneath listing p q} \<and> remote w' = remote w"
proof (induction n arbitrary: p acc w)
  case 0
  then show ?case by simp
next
  case (Suc n)
  let ?w1 = "\<lparr>remote = remote w, sent = sent w @ [contents_request env token owner repo branch p]\<rparr>"
  note gc = get_repo_contents_static[OF static, of p w]
  show ?case
  proof (cases "status_code (listing p) = 200")
    case False
    then have "gather_rec (Suc n) env token owner repo branch p acc w = Some (Inr (acc @ []), ?w1)"
      using gc by (simp split: sum.splits)
    moreover have "set [] = {q. beneath listing p q}" using beneath_not_ok[of listing p, OF False] by simp
    ultimately show ?thesis by (metis world.select_convs(1))
  next
    case True
    then obtain j where j: "decoded (listing p) = Some j" "\<forall>items. j = JList items \<longrightarrow> (\<forall>it\<in>set items. is_dict it)"
      using wf by (auto simp: well_listed_def)
    have gc': "get_repo_contents env token owner repo p branch w = (Inr (True, j), ?w1)"
      using gc True j(1) by (simp add: resp_json_def)
    show ?thesis
    proof (cases j)
      case (JDict d)
      show ?thesis
      proof (cases "py_get (JDict d) ''type'' = Inr (JStr ''file'')")
        case isfile: True
        have "gather_rec (Suc n) env token owner repo branch p acc w
                = Some (Inr (acc @ [case map_of d ''path'' of None \<Rightarrow> JNull | Some v \<Rightarrow> v]), ?w1)"
          using gc' JDict isfile by simp
        moreover have "set [case map_of d ''path'' of None \<Rightarrow> JNull | Some v \<Rightarrow> v] = {q. beneath listing p q}"
          using beneath_dict[of listing p, OF True j(1)[unfolded JDict]] isfile by simp
        ultimately show ?thesis by (metis world.select_convs(1))
      next
        case nofile: False
        have "gather_rec (Suc n) env token owner repo branch p acc w = Some (Inr (acc @ []), ?w1)"
          using gc' JDict nofile by simp
        moreover have "set [] = {q. beneath listing p q}"
          using beneath_dict[of listing p, OF True j(1)[unfolded JDict]] nofile by simp
        ultimately show ?thesis by (metis world.select_convs(1))
      qed
    next
      case (JList items)
      have dicts: "\<forall>it\<in>set items. is_dict it" using j(2) JList by simp
      have deep: "\<forall>it\<in>set items. \<forall>d. py_get it ''type'' = Inr (JStr ''dir'') \<longrightarrow> py_get it ''path'' = Inr d
                    \<longrightarrow> depth d < n"
      proof (intro ballI allI impI)
        fix it d assume "it \<in> set items" "py_get it ''type'' = Inr (JStr ''dir'')" "py_get it ''path'' = Inr d"
        then have "depth d < depth p"
          using bd True j(1) JList unfolding bounded_depth_def by blast
        then show "depth d < n" using Suc.prems by simp
      qed
      obtain paths w' where r:
          "gather_items n env token owner repo branch items acc ?w1 = Some (Inr (acc @ paths), w')"
          "set paths = items_beneath listing items" "remote w' = remote ?w1"
        using gather_items_walk[where depth = depth and n = n and listing = listing, OF Suc.IH dicts deep]
        by blast
      have "gather_rec (Suc n) env token owner repo branch p acc w = Some (Inr (acc @ paths), w')"
        using gc' JList r(1) by simp
      moreover have "set paths = {q. beneath listing p q}"
        using beneath_list[of listing p, OF True j(1)[unfolded JList]] r(2) by simp
      ultimately show ?thesis using r(3) by auto
    next
      case JNull
      have "gather_rec (Suc n) env token owner repo branch p acc w = Some (Inr (acc @ []), ?w1)"
        using gc' JNull by simp
      moreover have "set [] = {q. beneath listing p q}"
        using beneath_other[of listing p, OF True j(1)] JNull by simp
      ultimately show ?thesis by (metis world.select_convs(1))
    next
      case (JBool b)
      have "gather_rec (Suc n) env token owner repo branch p acc w = Some (Inr (acc @ []), ?w1)"
        using gc' JBool by simp
      moreover have "set [] = {q. beneath listing p q}"
        using beneath_other[of listing p, OF True j(1)] JBool by simp
      ultimately show ?thesis by (metis world.select_convs(1))
    next
      case (JNum i)
      have "gather_rec (Suc n) env token owner repo branch p acc w = Some (Inr (acc @ []), ?w1)"
        using gc' JNum by simp
      moreover have "set [] = {q. beneath listing p q}"
        using beneath_other[of listing p, OF True j(1)] JNum by simp
      ultimately show ?thesis by (metis world.select_convs(1))
    next
      case (JStr s)
      have "gather_rec (Suc n) env token owner repo branch p acc w = Some (Inr (acc @ []), ?w1)"
        using gc' JStr by simp
      moreover have "set [] = {q. beneath listing p q}"
        using beneath_other[of listing p, OF True j(1)] JStr by simp
      ultimately show ?thesis by (metis world.select_convs(1))
    qed
  qed
qed

text \<open>
  Claim C6 (amended). On a remote that answers lookups by the path alone, with
  well-formed listings of bounded depth, the walk from a path ends for enough fuel, leaves
  the remote as it was, and returns a flat list whose elements are exactly the paths of
  the file entries beneath that path, reached through every directory entry. The
  elements are paths only.
\<close>

theorem walker_returns_paths:
  assumes "static_remote env token owner repo branch listing"
    and "well_listed listing"
    and "bounded_depth listing depth"
  shows "\<exists>n paths w'. gather_rec n env token owner repo branch p [] w = Some (Inr paths, w')
           \<and> set paths = {q. beneath listing p q} \<and> remote w' = remote w"
proof -
  have "depth p < Suc (depth p)" by simp
  from gather_rec_walk[OF assms this, of "[]" w] obtain paths w'
    where "gather_rec (Suc (depth p)) env token owner repo branch p [] w = Some (Inr ([] @ paths), w')"
      "set paths = {q. beneath listing p q}" "remote w' = remote w"
    by blast
  then have "gather_rec (Suc (depth p)) env token owner repo branch p [] w = Some (Inr paths, w')
             \<and> set paths = {q. beneath listing p q} \<and> remote w' = remote w"
    by (simp only: append_Nil)
  then show ?thesis by blast
qed

lemma gather_returns_paths:
  assumes "static_remote env (cfg_token c) (cfg_owner c) (cfg_repo c) (cfg_pages_branch c) listing"
    and "well_listed listing"
    and "bounded_depth listing depth"
  shows "\<exists>n paths w'. gather n env c p [] w = Some (Inr paths, w')
           \<and> set paths = {q. beneath listing p q} \<and> remote w' = remote w"
proof -
  have "depth p < Suc (depth p)" by simp
  from gather_rec_walk[OF assms this, of "[]" w] obtain paths w'
    where "gather_rec (Suc (depth p)) env (cfg_token c) (cfg_owner c) (cfg_repo c) (cfg_pages_branch c) p [] w
             = Some (Inr ([] @ paths), w')"
      "set paths = {q. beneath listing p q}" "remote w' = remote w"
    by blast
  then have "gather (Suc (depth p)) env c p [] w = Some (Inr paths, w')
             \<and> set paths = {q. beneath listing p q} \<and> remote w' = remote w"
    by (simp only: append_Nil gather_def)
  then show ?thesis by blast
qed

lemma site_url_root:
  "url (contents_request site_env ''t0ken'' ''me'' ''site'' ''gh-pages'' p)
     = ''https://api.github.com/repos/me/site/contents?ref=gh-pages'' \<longleftrightarrow> \<not> truthy p"
  by (simp add: contents_request_def mk_request_def contents_endpoint_def GITHUB_API_def)

lemma site_static: "static_remote site_env ''t0ken'' ''me'' ''site'' ''gh-pages'' site_listing"
  by (simp add: static_remote_def site_listing_def site_env_def site_transport_def answer_def)

lemma site_well_listed: "well_listed site_listing"
  by (simp add: well_listed_def site_listing_def site_transport_def answer_def file_entry_def dir_entry_def)

lemma site_bounded: "bounded_depth site_listing site_depth"
  unfolding bounded_depth_def
proof (intro allI impI)
  fix p items it d
  assume a: "status_code (site_listing p) = 200" "decoded (site_listing p) = Some (JList items)"
    "it \<in> set items" "py_get it ''type'' = Inr (JStr ''dir'')" "py_get it ''path'' = Inr d"
  show "site_depth d < site_depth p"
  proof (cases "truthy p")
    case False
    then have "items = [file_entry ''index.html'' ''s1'', dir_entry ''css'']"
      using a(2) site_url_root[of p] by (simp add: site_listing_def site_transport_def answer_def)
    then have "d = JStr ''css''" using a(3-5) by (auto simp: file_entry_def dir_entry_def)
    then show ?thesis using False by (simp add: site_depth_def)
  next
    case True
    then have "items = [file_entry ''css/site.css'' ''s2'']"
      using a(1,2) site_url_root[of p]
      by (auto simp: site_listing_def site_transport_def answer_def split: if_splits)
    then show ?thesis using a(3-5) by (auto simp: file_entry_def)
  qed
qed

theorem walker_returns_paths_witness:
  "\<exists>n paths w'. gather_rec n site_env ''t0ken'' ''me'' ''site'' ''gh-pages'' (JStr []) []
                   \<lparr>remote = (), sent = []\<rparr> = Some (Inr paths, w')
     \<and> set paths = {q. beneath site_listing (JStr []) q} \<and> remote w' = remote \<lparr>remote = (), sent = []\<rparr>"
  using walker_returns_paths[OF site_static site_well_listed site_bounded] .

lemma site_walk:
  "map_option fst (gather_rec 2 site_env ''t0ken'' ''me'' ''site'' ''gh-pages'' (JStr []) []
                     \<lparr>remote = (), sent = []\<rparr>)
     = Some (Inr [JStr ''index.html'', JStr ''css/site.css''])"
  by code_simp

text \<open>
  The walk keeps the \<open>path\<close> of each file entry and drops the rest of the entry: the
  listings above carry the tokens \<open>s1\<close> and \<open>s2\<close>, the result carries none.
\<close>

theorem walker_tokens_counterexample:
  "map_option fst (gather_rec 2 site_env ''t0ken'' ''me'' ''site'' ''gh-pages'' (JStr []) []
                     \<lparr>remote = (), sent = []\<rparr>)
     = Some (Inr [JStr ''index.html'', JStr ''css/site.css''])
   \<and> map entry_version_token [JStr ''index.html'', JStr ''css/site.css''] = [None, None]
   \<and> entry_version_token (file_entry ''index.html'' ''s1'') = Some (JStr ''s1'')"
  by code_simp

end
